(* ===== verification/Prelude.thy ===== *)
theory Prelude
  imports Complex_Main
begin

text \<open>
  Shared vocabulary of the development: identifiers and instants, the exceptions the
  Python raises, JSON values, and database tables as lists of rows in insertion order with
  the three operations the services use on them (primary-key lookup, update of the rows
  with a key, deletion of the rows with a key).  The lemmas on tables are collected in
  \<^theory_text>\<open>table_simps\<close>; the frame facts of the components (which tables an
  operation leaves alone) go to \<^theory_text>\<open>frame\<close>; what the operations keep of an
  invariant goes to \<^theory_text>\<open>inv_intros\<close>.
\<close>

named_theorems table_simps \<open>lookups, updates and counts of tables\<close>
named_theorems frame \<open>tables that an operation leaves alone\<close>
named_theorems inv_intros \<open>operations keep an invariant\<close>

section \<open>Identifiers, time, exceptions\<close>

text \<open>
  Primary keys are Python integers.  An instant is the number of microseconds since the
  Unix epoch in UTC (a Python datetime has microsecond resolution, and every stored
  timestamp is UTC); a duration is a number of microseconds.
\<close>

type_synonym id = int
type_synonym instant = int

definition seconds :: "int \<Rightarrow> int" where "seconds n = n * 1000000"
definition minutes :: "int \<Rightarrow> int" where "minutes n = seconds (60 * n)"
definition hours :: "int \<Rightarrow> int" where "hours n = minutes (60 * n)"
definition days :: "int \<Rightarrow> int" where "days n = hours (24 * n)"

lemma days_eq: "days n = 86400000000 * n"
  by (simp add: days_def hours_def minutes_def seconds_def)

lemma hours_eq: "hours n = 3600000000 * n"
  by (simp add: hours_def minutes_def seconds_def)

lemma minutes_eq: "minutes n = 60000000 * n"
  by (simp add: minutes_def seconds_def)

datatype exn =
    ValueError
  | TypeError
  | AttributeError
  | KeyError
  | IndexError
  | ZeroDivisionError
  | OverflowError
  | IntegrityError
  | NotImplementedError
  | OperationalError
  | CsvError
  | TransientError string

section \<open>JSON values\<close>

text \<open>
  What \<open>json.loads\<close> and a JSON column yield.  An object is the list of its items in
  insertion order, with distinct keys (a decoded Python dict).  Floats are rationals: the
  NaN and infinity of a double are not represented.
\<close>

datatype json =
    JNull
  | JBool bool
  | JInt int
  | JFloat rat
  | JStr string
  | JList "json list"
  | JObj "(string \<times> json) list"

text \<open>Python truth value of a decoded JSON value (\<open>if v\<close>, \<open>v or default\<close>).\<close>

fun json_truthy :: "json \<Rightarrow> bool" where
  "json_truthy JNull = False"
| "json_truthy (JBool b) = b"
| "json_truthy (JInt n) = (n \<noteq> 0)"
| "json_truthy (JFloat q) = (q \<noteq> 0)"
| "json_truthy (JStr s) = (s \<noteq> [])"
| "json_truthy (JList xs) = (xs \<noteq> [])"
| "json_truthy (JObj kvs) = (kvs \<noteq> [])"

text \<open>A dict as its items in insertion order: \<open>d[k] = v\<close> and \<open>d.update(other)\<close>.\<close>

fun dict_set :: "string \<Rightarrow> 'v \<Rightarrow> (string \<times> 'v) list \<Rightarrow> (string \<times> 'v) list" where
  "dict_set k v [] = [(k, v)]"
| "dict_set k v ((k', v') # kvs) = (if k' = k then (k, v) # kvs else (k', v') # dict_set k v kvs)"

definition dict_update :: "(string \<times> 'v) list \<Rightarrow> (string \<times> 'v) list \<Rightarrow> (string \<times> 'v) list" where
  "dict_update kvs other = fold (\<lambda>(k, v). dict_set k v) other kvs"

lemma map_of_dict_set [simp]: "map_of (dict_set k v kvs) = (map_of kvs)(k \<mapsto> v)"
  by (induction k v kvs rule: dict_set.induct) auto

lemma keys_dict_set: "set (map fst (dict_set k v kvs)) = insert k (set (map fst kvs))"
  by (induction k v kvs rule: dict_set.induct) auto

lemma distinct_dict_set [simp]: "distinct (map fst kvs) \<Longrightarrow> distinct (map fst (dict_set k v kvs))"
proof (induction k v kvs rule: dict_set.induct)
  case (2 k v k' v' kvs)
  then show ?case using keys_dict_set [of k v kvs] by auto
qed simp

lemma map_of_dict_update:
  "map_of (dict_update kvs other) k =
     (case map_of (rev other) k of None \<Rightarrow> map_of kvs k | Some v \<Rightarrow> Some v)"
proof (induction other arbitrary: kvs)
  case (Cons kv other)
  obtain a b where kv: "kv = (a, b)" by (cases kv)
  have "dict_update kvs (kv # other) = dict_update (dict_set a b kvs) other"
    by (simp add: dict_update_def kv)
  with Cons.IH [of "dict_set a b kvs"] show ?case
    by (simp add: kv map_add_def split: option.split)
qed (simp add: dict_update_def)

lemma distinct_dict_update [simp]:
  "distinct (map fst kvs) \<Longrightarrow> distinct (map fst (dict_update kvs other))"
proof (induction other arbitrary: kvs)
  case (Cons kv other)
  then show ?case by (cases kv) (simp add: dict_update_def)
qed (simp add: dict_update_def)

text \<open>\<open>len(v)\<close>, \<open>v[i]\<close> and iteration on a decoded JSON value, with the exceptions they raise.\<close>

fun py_len :: "json \<Rightarrow> exn + int" where
  "py_len (JStr s) = Inr (int (length s))"
| "py_len (JList xs) = Inr (int (length xs))"
| "py_len (JObj kvs) = Inr (int (length kvs))"
| "py_len v = Inl TypeError"

definition nth_py :: "'a list \<Rightarrow> int \<Rightarrow> exn + 'a" where
  "nth_py xs i =
     (if i < - int (length xs) \<or> int (length xs) \<le> i then Inl IndexError
      else Inr (if i < 0 then rev xs ! nat (- i - 1) else xs ! nat i))"

fun py_getitem :: "json \<Rightarrow> int \<Rightarrow> exn + json" where
  "py_getitem (JList xs) i = nth_py xs i"
| "py_getitem (JStr s) i = (case nth_py s i of Inl e \<Rightarrow> Inl e | Inr c \<Rightarrow> Inr (JStr [c]))"
| "py_getitem (JObj kvs) i = Inl KeyError"
| "py_getitem v i = Inl TypeError"

fun py_iter :: "json \<Rightarrow> exn + json list" where
  "py_iter (JList xs) = Inr xs"
| "py_iter (JStr s) = Inr (map (\<lambda>c. JStr [c]) s)"
| "py_iter (JObj kvs) = Inr (map (\<lambda>kv. JStr (fst kv)) kvs)"
| "py_iter v = Inl TypeError"

text \<open>A list comprehension whose element expression may raise.\<close>

fun map_exn :: "('a \<Rightarrow> 'e + 'b) \<Rightarrow> 'a list \<Rightarrow> 'e + 'b list" where
  "map_exn f [] = Inr []"
| "map_exn f (x # xs) = (case f x of Inl e \<Rightarrow> Inl e | Inr y \<Rightarrow> map_sum id (Cons y) (map_exn f xs))"

text \<open>Sequencing of computations that may raise.\<close>

definition and_then :: "'e + 'a \<Rightarrow> ('a \<Rightarrow> 'e + 'b) \<Rightarrow> 'e + 'b" where
  "and_then m k = (case m of Inl e \<Rightarrow> Inl e | Inr x \<Rightarrow> k x)"

lemma and_then_simps [simp]: "and_then (Inl e) k = Inl e" "and_then (Inr x) k = k x"
  by (simp_all add: and_then_def)

lemma and_then_Inr_iff: "and_then m k = Inr y \<longleftrightarrow> (\<exists>x. m = Inr x \<and> k x = Inr y)"
  by (cases m) simp_all

lemma map_exn_Inr [simp]: "map_exn (\<lambda>x. Inr (f x)) xs = Inr (map f xs)"
  by (induction xs) simp_all

section \<open>Tables\<close>

definition row_by :: "('r \<Rightarrow> 'k) \<Rightarrow> 'k \<Rightarrow> 'r list \<Rightarrow> 'r option" where
  "row_by key k rows = find (\<lambda>r. key r = k) rows"

definition upd_by :: "('r \<Rightarrow> 'k) \<Rightarrow> 'k \<Rightarrow> ('r \<Rightarrow> 'r) \<Rightarrow> 'r list \<Rightarrow> 'r list" where
  "upd_by key k f rows = map (\<lambda>r. if key r = k then f r else r) rows"

definition del_by :: "('r \<Rightarrow> 'k) \<Rightarrow> 'k \<Rightarrow> 'r list \<Rightarrow> 'r list" where
  "del_by key k rows = filter (\<lambda>r. key r \<noteq> k) rows"

definition count_rows :: "('r \<Rightarrow> bool) \<Rightarrow> 'r list \<Rightarrow> int" where
  "count_rows P rows = int (length (filter P rows))"

lemma row_by_Nil [table_simps, simp]: "row_by key k [] = None"
  by (simp add: row_by_def)

lemma row_by_Cons [table_simps, simp]:
  "row_by key k (r # rows) = (if key r = k then Some r else row_by key k rows)"
  by (simp add: row_by_def)

lemma row_by_SomeD: "row_by key k rows = Some r \<Longrightarrow> r \<in> set rows \<and> key r = k"
  by (induction rows) (auto split: if_splits)

lemma row_by_None_iff: "row_by key k rows = None \<longleftrightarrow> k \<notin> key ` set rows"
  by (induction rows) auto

lemma row_by_unique:
  "distinct (map key rows) \<Longrightarrow> r \<in> set rows \<Longrightarrow> row_by key (key r) rows = Some r"
  by (induction rows) (auto simp: image_iff)

lemma row_by_append [table_simps]:
  "row_by key k (xs @ ys) = (case row_by key k xs of None \<Rightarrow> row_by key k ys | Some r \<Rightarrow> Some r)"
  by (induction xs) auto

lemma upd_by_Nil [table_simps, simp]: "upd_by key k f [] = []"
  by (simp add: upd_by_def)

lemma upd_by_Cons [table_simps, simp]:
  "upd_by key k f (r # rows) = (if key r = k then f r else r) # upd_by key k f rows"
  by (simp add: upd_by_def)

lemma upd_by_append [table_simps]: "upd_by key k f (xs @ ys) = upd_by key k f xs @ upd_by key k f ys"
  by (simp add: upd_by_def)

lemma row_by_upd_by [table_simps]:
  assumes "\<And>r. key (f r) = key r"
  shows "row_by key k' (upd_by key k f rows) =
    (if k' = k then map_option f (row_by key k rows) else row_by key k' rows)"
  by (induction rows) (auto simp: assms)

lemma row_by_upd_other:
  assumes "\<And>r. key' (f r) = key' r"
  shows "row_by key' v (upd_by key k f rows) =
    map_option (\<lambda>r. if key r = k then f r else r) (row_by key' v rows)"
  by (induction rows) (auto simp: assms)

lemma map_upd_by [table_simps]:
  assumes "\<And>r. g (f r) = g r"
  shows "map g (upd_by key k f rows) = map g rows"
  by (induction rows) (auto simp: assms)

lemma length_upd_by [table_simps, simp]: "length (upd_by key k f rows) = length rows"
  by (simp add: upd_by_def)

lemma upd_by_absent: "k \<notin> key ` set rows \<Longrightarrow> upd_by key k f rows = rows"
  by (induction rows) auto

lemma set_upd_by: "set (upd_by key k f rows) = (\<lambda>r. if key r = k then f r else r) ` set rows"
  by (simp add: upd_by_def)

lemma upd_by_upd_by [table_simps]:
  assumes "\<And>r. key (f r) = key r"
  shows "upd_by key k g (upd_by key k f rows) = upd_by key k (g \<circ> f) rows"
  by (induction rows) (auto simp: assms)

lemma del_by_Nil [table_simps, simp]: "del_by key k [] = []"
  by (simp add: del_by_def)

lemma set_del_by [table_simps]: "set (del_by key k rows) = {r \<in> set rows. key r \<noteq> k}"
  by (auto simp: del_by_def)

lemma distinct_del_by: "distinct (map g rows) \<Longrightarrow> distinct (map g (del_by key k rows))"
  unfolding del_by_def by (rule distinct_map_filter)

lemma row_by_del_by [table_simps]:
  "row_by key k' (del_by key k rows) = (if k' = k then None else row_by key k' rows)"
  by (induction rows) (auto simp: del_by_def)

lemma count_rows_Nil [table_simps, simp]: "count_rows P [] = 0"
  by (simp add: count_rows_def)

lemma count_rows_Cons [table_simps, simp]:
  "count_rows P (r # rows) = (if P r then 1 else 0) + count_rows P rows"
  by (simp add: count_rows_def)

lemma count_rows_append [table_simps]: "count_rows P (xs @ ys) = count_rows P xs + count_rows P ys"
  by (simp add: count_rows_def)

lemma count_rows_nonneg [simp]: "0 \<le> count_rows P rows"
  by (simp add: count_rows_def)

lemma count_rows_zero_iff: "count_rows P rows = 0 \<longleftrightarrow> (\<forall>r \<in> set rows. \<not> P r)"
  by (induction rows) (auto, metis add.commute count_rows_nonneg add_nonneg_eq_0_iff zero_le_one zero_neq_one)

lemma count_rows_True: "count_rows (\<lambda>_. True) rows = int (length rows)"
  by (simp add: count_rows_def)

lemma count_rows_mono: "(\<And>r. P r \<Longrightarrow> Q r) \<Longrightarrow> count_rows P rows \<le> count_rows Q rows"
  by (induction rows) (auto simp: add_increasing)

lemma count_rows_disj:
  "(\<And>r. \<not> (P r \<and> Q r)) \<Longrightarrow> count_rows (\<lambda>r. P r \<or> Q r) rows = count_rows P rows + count_rows Q rows"
  by (induction rows) auto

text \<open>Updating the one row with a key moves each count by what that row loses and gains.\<close>

lemma count_rows_upd_by:
  assumes "distinct (map key rows)" "row_by key k rows = Some r"
  shows "count_rows P (upd_by key k f rows) =
    count_rows P rows - (if P r then 1 else 0) + (if P (f r) then 1 else 0)"
  using assms
proof (induction rows)
  case Nil
  then show ?case by simp
next
  case (Cons x rows)
  show ?case
  proof (cases "key x = k")
    case True
    with Cons.prems have "x = r" "k \<notin> key ` set rows" by (auto simp: image_iff)
    with True show ?thesis by (simp add: upd_by_absent)
  next
    case False
    with Cons show ?thesis by simp
  qed
qed

lemma map_of_filter_Some:
  "distinct (map fst kvs) \<Longrightarrow> map_of (filter P kvs) k = Some v \<longleftrightarrow> map_of kvs k = Some v \<and> P (k, v)"
  by (induction kvs) (auto dest: map_of_SomeD simp: rev_image_eqI)

lemma map_of_rev_distinct:
  "distinct (map fst kvs) \<Longrightarrow> map_of (rev kvs) = map_of kvs"
  by (subst map_of_inject_set) (simp_all flip: rev_map)

end
