(* ===== verification/Py_String.thy ===== *)
theory Py_String
  imports Prelude
begin

text \<open>
  The Python string operations the sources use, on lists of characters.  A character is a
  code point below 256 (Latin-1): on that range \<open>lower\<close> and \<open>strip\<close> below are exactly
  Python's; code points above it are not represented.  Also the decimal rendering of
  integers in keys such as \<open>lock:send:42\<close>, \<open>int()\<close> and \<open>str()\<close> on decoded JSON
  values, and \<open>float()\<close> on the shapes the webhook parser meets.
\<close>

section \<open>strip and lower\<close>

definition py_isspace :: "char \<Rightarrow> bool" where
  "py_isspace c = (let n = (of_char c :: nat) in
     (9 \<le> n \<and> n \<le> 13) \<or> (28 \<le> n \<and> n \<le> 32) \<or> n = 133 \<or> n = 160)"

definition py_lower_char :: "char \<Rightarrow> char" where
  "py_lower_char c = (let n = (of_char c :: nat) in
     if (65 \<le> n \<and> n \<le> 90) \<or> (192 \<le> n \<and> n \<le> 222 \<and> n \<noteq> 215) then char_of (n + 32) else c)"

definition py_lower :: "string \<Rightarrow> string" where
  "py_lower s = map py_lower_char s"

definition py_lstrip :: "string \<Rightarrow> string" where
  "py_lstrip s = dropWhile py_isspace s"

definition py_rstrip_where :: "(char \<Rightarrow> bool) \<Rightarrow> string \<Rightarrow> string" where
  "py_rstrip_where P s = rev (dropWhile P (rev s))"

definition py_strip :: "string \<Rightarrow> string" where
  "py_strip s = py_rstrip_where py_isspace (py_lstrip s)"

lemma of_char_lower:
  "(of_char (py_lower_char c) :: nat) = (let n = of_char c in
     if (65 \<le> n \<and> n \<le> 90) \<or> (192 \<le> n \<and> n \<le> 222 \<and> n \<noteq> 215) then n + 32 else n)"
  using nat_of_char_less_256 [of c] by (auto simp: py_lower_char_def Let_def take_bit_nat_def)

lemma py_lower_char_idem [simp]: "py_lower_char (py_lower_char c) = py_lower_char c"
  by (subst of_char_eq_iff [where 'a = nat, symmetric]) (auto simp: of_char_lower Let_def)

lemma py_isspace_lower_char [simp]: "py_isspace (py_lower_char c) = py_isspace c"
  by (auto simp: py_isspace_def of_char_lower Let_def)

lemma py_lower_Nil [simp]: "py_lower [] = []"
  and py_lower_Cons [simp]: "py_lower (c # s) = py_lower_char c # py_lower s"
  and py_lower_append: "py_lower (s @ t) = py_lower s @ py_lower t"
  and length_py_lower [simp]: "length (py_lower s) = length s"
  and py_lower_eq_Nil_iff [simp]: "py_lower s = [] \<longleftrightarrow> s = []"
  and rev_py_lower: "rev (py_lower s) = py_lower (rev s)"
  by (simp_all add: py_lower_def rev_map)

lemma py_lower_idem [simp]: "py_lower (py_lower s) = py_lower s"
  by (simp add: py_lower_def)

lemma char_64: "(char_of (64 :: nat)) = CHR ''@''" "(of_char CHR ''@'' :: nat) = 64"
  by code_simp+

lemma py_lower_char_eq_at: "py_lower_char c = CHR ''@'' \<longleftrightarrow> c = CHR ''@''"
proof -
  have "py_lower_char c = CHR ''@'' \<longleftrightarrow> (of_char (py_lower_char c) :: nat) = 64"
    by (metis char_of_char char_64)
  also have "\<dots> \<longleftrightarrow> (of_char c :: nat) = 64"
    by (auto simp: of_char_lower Let_def)
  also have "\<dots> \<longleftrightarrow> c = CHR ''@''"
    by (metis char_of_char char_64)
  finally show ?thesis .
qed

lemma at_in_py_lower [simp]: "CHR ''@'' \<in> set (py_lower s) \<longleftrightarrow> CHR ''@'' \<in> set s"
proof -
  have "CHR ''@'' \<in> set (py_lower s) \<longleftrightarrow> (\<exists>c \<in> set s. py_lower_char c = CHR ''@'')"
    by (force simp: py_lower_def)
  then show ?thesis by (simp add: py_lower_char_eq_at)
qed

lemma dropWhile_map_lower:
  "dropWhile py_isspace (py_lower s) = py_lower (dropWhile py_isspace s)"
  by (induction s) auto

lemma py_strip_lower: "py_strip (py_lower s) = py_lower (py_strip s)"
  by (simp add: py_strip_def py_lstrip_def py_rstrip_where_def dropWhile_map_lower rev_py_lower)

text \<open>A string is stripped when neither end is white space; \<open>strip\<close> makes it so.\<close>

definition stripped :: "string \<Rightarrow> bool" where
  "stripped s \<longleftrightarrow> s = [] \<or> (\<not> py_isspace (hd s) \<and> \<not> py_isspace (last s))"

lemma py_strip_stripped_id:
  assumes "stripped s"
  shows "py_strip s = s"
proof (cases "s = []")
  case True
  then show ?thesis by (simp add: py_strip_def py_lstrip_def py_rstrip_where_def)
next
  case False
  with assms have "dropWhile py_isspace s = s" "dropWhile py_isspace (rev s) = rev s"
    by (simp_all add: stripped_def dropWhile_eq_self_iff hd_rev)
  then show ?thesis by (simp add: py_strip_def py_lstrip_def py_rstrip_where_def)
qed

lemma stripped_py_strip [simp]: "stripped (py_strip s)"
proof (cases "py_strip s = []")
  case True
  then show ?thesis by (simp add: stripped_def)
next
  case False
  let ?l = "dropWhile py_isspace s"
  let ?r = "dropWhile py_isspace (rev ?l)"
  have strip: "py_strip s = rev ?r"
    by (simp add: py_strip_def py_lstrip_def py_rstrip_where_def)
  with False have "?r \<noteq> []" by simp
  have "rev (takeWhile py_isspace (rev ?l) @ ?r) = ?l" by simp
  then have l: "?l = rev ?r @ rev (takeWhile py_isspace (rev ?l))" by (simp only: rev_append)
  with \<open>?r \<noteq> []\<close> have "hd ?l = hd (rev ?r)" "?l \<noteq> []"
    by (metis hd_append rev_is_Nil_conv, metis append_is_Nil_conv rev_is_Nil_conv)
  then have "\<not> py_isspace (hd (rev ?r))" by (metis hd_dropWhile)
  moreover have "\<not> py_isspace (last (rev ?r))"
    using \<open>?r \<noteq> []\<close> hd_dropWhile [of py_isspace "rev ?l"] by (simp add: last_rev)
  ultimately show ?thesis by (simp add: stripped_def strip)
qed

lemma py_strip_idem [simp]: "py_strip (py_strip s) = py_strip s"
  by (rule py_strip_stripped_id) simp

lemma set_py_strip: "set (py_strip s) \<subseteq> set s"
  by (auto simp: py_strip_def py_lstrip_def py_rstrip_where_def dest!: set_dropWhileD)

section \<open>Prefixes, suffixes, splitting\<close>

definition py_startswith :: "string \<Rightarrow> string \<Rightarrow> bool" where
  "py_startswith s p = (take (length p) s = p)"

definition py_endswith :: "string \<Rightarrow> string \<Rightarrow> bool" where
  "py_endswith s p = (length p \<le> length s \<and> drop (length s - length p) s = p)"

text \<open>\<open>s.split(c)\<close> and \<open>s.rsplit(c, 1)[-1]\<close> for a one-character separator.\<close>

fun py_split :: "char \<Rightarrow> string \<Rightarrow> string list" where
  "py_split c [] = [[]]"
| "py_split c (x # xs) =
     (if x = c then [] # py_split c xs
      else (case py_split c xs of [] \<Rightarrow> [[x]] | p # ps \<Rightarrow> (x # p) # ps))"

definition py_after_last :: "char \<Rightarrow> string \<Rightarrow> string" where
  "py_after_last c s = rev (takeWhile (\<lambda>x. x \<noteq> c) (rev s))"

lemma py_after_last_no_sep [simp]: "c \<notin> set (py_after_last c s)"
  by (auto simp: py_after_last_def dest: set_takeWhileD)

lemma py_after_last_id: "c \<notin> set s \<Longrightarrow> py_after_last c s = s"
  unfolding py_after_last_def by (subst takeWhile_eq_all_conv [THEN iffD2]) auto

lemma py_after_last_append: "c \<notin> set t \<Longrightarrow> py_after_last c (s @ c # t) = t"
  by (simp add: py_after_last_def takeWhile_append)

lemma py_startswith_append [simp]: "py_startswith (p @ s) p"
  by (simp add: py_startswith_def)

lemma py_startswith_iff: "py_startswith s p \<longleftrightarrow> (\<exists>t. s = p @ t)"
  by (auto simp: py_startswith_def) (metis append_take_drop_id)

section \<open>Integers as text\<close>

definition digit_char :: "nat \<Rightarrow> char" where
  "digit_char d = char_of (48 + d)"

fun show_nat :: "nat \<Rightarrow> string" where
  "show_nat n = (if n < 10 then [digit_char n] else show_nat (n div 10) @ [digit_char (n mod 10)])"

declare show_nat.simps [simp del]

definition show_int :: "int \<Rightarrow> string" where
  "show_int n = (if n < 0 then CHR ''-'' # show_nat (nat (- n)) else show_nat (nat n))"

definition is_digit :: "char \<Rightarrow> bool" where
  "is_digit c = (let n = (of_char c :: nat) in 48 \<le> n \<and> n \<le> 57)"

definition digit_val :: "char \<Rightarrow> int" where
  "digit_val c = int (of_char c) - 48"

text \<open>\<open>int(s)\<close>: digits with single underscores between them, an optional sign, outer space.\<close>

fun int_digits :: "int \<Rightarrow> bool \<Rightarrow> string \<Rightarrow> int option" where
  "int_digits acc prev [] = (if prev then Some acc else None)"
| "int_digits acc prev (c # cs) =
     (if is_digit c then int_digits (10 * acc + digit_val c) True cs
      else if c = CHR ''_'' \<and> prev then int_digits acc False cs
      else None)"

definition int_of_string :: "string \<Rightarrow> int option" where
  "int_of_string s =
     (case py_strip s of
        [] \<Rightarrow> None
      | c # cs \<Rightarrow>
          if c = CHR ''-'' then map_option uminus (int_digits 0 False cs)
          else if c = CHR ''+'' then int_digits 0 False cs
          else int_digits 0 False (c # cs))"

fun py_int :: "json \<Rightarrow> exn + int" where
  "py_int JNull = Inl TypeError"
| "py_int (JBool b) = Inr (if b then 1 else 0)"
| "py_int (JInt n) = Inr n"
| "py_int (JFloat q) = Inr (if q < 0 then - \<lfloor>- q\<rfloor> else \<lfloor>q\<rfloor>)"
| "py_int (JStr s) = (case int_of_string s of None \<Rightarrow> Inl ValueError | Some n \<Rightarrow> Inr n)"
| "py_int (JList xs) = Inl TypeError"
| "py_int (JObj kvs) = Inl TypeError"

text \<open>\<open>str(v)\<close>; the text of floats, lists and objects is left to a parameter.\<close>

fun py_str :: "(json \<Rightarrow> string) \<Rightarrow> json \<Rightarrow> string" where
  "py_str rep JNull = ''None''"
| "py_str rep (JBool b) = (if b then ''True'' else ''False'')"
| "py_str rep (JInt n) = show_int n"
| "py_str rep (JStr s) = s"
| "py_str rep v = rep v"

lemma of_char_digit_char: "d < 10 \<Longrightarrow> (of_char (digit_char d) :: nat) = 48 + d"
  by (simp add: digit_char_def)

lemma is_digit_digit_char [simp]: "d < 10 \<Longrightarrow> is_digit (digit_char d)"
  by (simp add: is_digit_def of_char_digit_char)

lemma digit_val_digit_char [simp]: "d < 10 \<Longrightarrow> digit_val (digit_char d) = int d"
  by (simp add: digit_val_def of_char_digit_char)

lemma show_nat_digits: "c \<in> set (show_nat n) \<Longrightarrow> is_digit c"
  by (induction n rule: show_nat.induct) (subst (asm) (2) show_nat.simps, auto split: if_splits)

lemma show_nat_nonempty [simp]: "show_nat n \<noteq> []"
  by (subst show_nat.simps) simp

lemma int_digits_snoc:
  "is_digit d \<Longrightarrow> int_digits acc b s = Some n \<Longrightarrow> int_digits acc b (s @ [d]) = Some (10 * n + digit_val d)"
  by (induction acc b s rule: int_digits.induct) (auto split: if_splits)

lemma int_digits_show_nat: "int_digits 0 False (show_nat n) = Some (int n)"
proof (induction n rule: show_nat.induct)
  case (1 n)
  show ?case
  proof (cases "n < 10")
    case True
    then show ?thesis by (subst show_nat.simps) simp
  next
    case False
    with 1 have "int_digits 0 False (show_nat (n div 10)) = Some (int (n div 10))" by simp
    then have "int_digits 0 False (show_nat (n div 10) @ [digit_char (n mod 10)]) =
        Some (10 * int (n div 10) + int (n mod 10))"
      by (simp add: int_digits_snoc)
    moreover have "10 * int (n div 10) + int (n mod 10) = int n"
      by (metis div_mult_mod_eq mult.commute of_nat_add of_nat_mult of_nat_numeral)
    ultimately show ?thesis using False by (subst show_nat.simps) simp
  qed
qed

lemma show_nat_inject [simp]: "show_nat m = show_nat n \<longleftrightarrow> m = n"
  by (metis int_digits_show_nat of_nat_eq_iff option.inject)

lemma show_nat_not_minus: "show_nat n \<noteq> CHR ''-'' # s"
  using show_nat_digits [of "CHR ''-''" n] by (auto simp: is_digit_def)

lemma show_int_inject [simp]: "show_int m = show_int n \<longleftrightarrow> m = n"
  by (auto simp: show_int_def show_nat_not_minus dest: sym split: if_splits)

lemma digit_not_space: "is_digit c \<Longrightarrow> \<not> py_isspace c"
  by (auto simp: is_digit_def py_isspace_def Let_def)

lemma show_nat_ends: "\<not> py_isspace (hd (show_nat n))" "\<not> py_isspace (last (show_nat n))"
  using show_nat_nonempty [of n] by (meson digit_not_space hd_in_set last_in_set show_nat_digits)+

lemma show_nat_stripped: "py_strip (show_nat n) = show_nat n"
  by (rule py_strip_stripped_id) (simp add: stripped_def show_nat_ends)

text \<open>Printing and parsing an integer round trip.\<close>

lemma int_of_string_show_int: "int_of_string (show_int n) = Some n"
proof (cases "n < 0")
  case True
  have "py_strip (CHR ''-'' # show_nat (nat (- n))) = CHR ''-'' # show_nat (nat (- n))"
    by (rule py_strip_stripped_id)
       (use show_nat_ends(2) [of "nat (- n)"] in \<open>auto simp: stripped_def py_isspace_def\<close>)
  with True show ?thesis
    by (simp add: int_of_string_def show_int_def int_digits_show_nat)
next
  case False
  obtain c cs where c: "show_nat (nat n) = c # cs" by (metis list.exhaust show_nat_nonempty)
  then have "is_digit c" using show_nat_digits [of c "nat n"] by simp
  then have "c \<noteq> CHR ''-''" "c \<noteq> CHR ''+''" by (auto simp: is_digit_def)
  with False c int_digits_show_nat [of "nat n"] show_nat_stripped [of "nat n"] show ?thesis
    by (simp add: int_of_string_def show_int_def)
qed

end
