(* ===== verification/Models.thy ===== *)
theory Models
  imports Py_String
begin

text \<open>
  The data model (\<open>app/models/\<close>): the enums of \<open>enums.py\<close> as datatypes with their stored
  string values, one record per table, and the database as the record of all tables.  A
  table lists its rows in primary-key (insertion) order, which is the order a query without
  \<open>ORDER BY\<close> returns them in here.  \<open>seqs\<close> holds the last primary key each table
  handed out.  Left out are columns nothing reads (\<open>created_at\<close> of most tables,
  \<open>Campaign.updated_at\<close>, \<open>ContactList.uploaded_at\<close>) and the length limits of the
  string columns.
\<close>

section \<open>Enums\<close>

datatype user_role = RoleAdmin | RoleUser

datatype list_verification_status = LPending | LVerifying | LReady | LFailed

datatype contact_status = Active | CBounced | Unsubscribed | Complained

datatype verification_result = Valid | Invalid | Unknown | VPending

datatype suppression_reason = HardBounce | Complaint | Unsubscribe | Manual | InvalidAddress

datatype template_type = Plain | Html

datatype campaign_status =
  Draft | Scheduled | Sending | Paused | Completed | Failed | Cancelled | Planner

datatype recipient_status =
    RPending | RSent | RDelivered | RBounced | RFailed
  | RSkippedSuppressed | RSkippedFrequency | RSkippedCap

fun user_role_value :: "user_role \<Rightarrow> string" where
  "user_role_value RoleAdmin = ''admin''"
| "user_role_value RoleUser = ''user''"

fun list_verification_status_value :: "list_verification_status \<Rightarrow> string" where
  "list_verification_status_value LPending = ''pending_verification''"
| "list_verification_status_value LVerifying = ''verifying''"
| "list_verification_status_value LReady = ''ready''"
| "list_verification_status_value LFailed = ''failed''"

fun contact_status_value :: "contact_status \<Rightarrow> string" where
  "contact_status_value Active = ''active''"
| "contact_status_value CBounced = ''bounced''"
| "contact_status_value Unsubscribed = ''unsubscribed''"
| "contact_status_value Complained = ''complained''"

fun verification_result_value :: "verification_result \<Rightarrow> string" where
  "verification_result_value Valid = ''valid''"
| "verification_result_value Invalid = ''invalid''"
| "verification_result_value Unknown = ''unknown''"
| "verification_result_value VPending = ''pending''"

fun suppression_reason_value :: "suppression_reason \<Rightarrow> string" where
  "suppression_reason_value HardBounce = ''hard_bounce''"
| "suppression_reason_value Complaint = ''complaint''"
| "suppression_reason_value Unsubscribe = ''unsubscribe''"
| "suppression_reason_value Manual = ''manual''"
| "suppression_reason_value InvalidAddress = ''invalid''"

fun template_type_value :: "template_type \<Rightarrow> string" where
  "template_type_value Plain = ''plain''"
| "template_type_value Html = ''html''"

fun campaign_status_value :: "campaign_status \<Rightarrow> string" where
  "campaign_status_value Draft = ''draft''"
| "campaign_status_value Scheduled = ''scheduled''"
| "campaign_status_value Sending = ''sending''"
| "campaign_status_value Paused = ''paused''"
| "campaign_status_value Completed = ''completed''"
| "campaign_status_value Failed = ''failed''"
| "campaign_status_value Cancelled = ''cancelled''"
| "campaign_status_value Planner = ''planner''"

fun recipient_status_value :: "recipient_status \<Rightarrow> string" where
  "recipient_status_value RPending = ''pending''"
| "recipient_status_value RSent = ''sent''"
| "recipient_status_value RDelivered = ''delivered''"
| "recipient_status_value RBounced = ''bounced''"
| "recipient_status_value RFailed = ''failed''"
| "recipient_status_value RSkippedSuppressed = ''skipped_suppressed''"
| "recipient_status_value RSkippedFrequency = ''skipped_frequency''"
| "recipient_status_value RSkippedCap = ''skipped_cap''"

text \<open>Looking an enum member up by its value (\<open>SuppressionReason(reason)\<close>); a miss is a
  \<open>ValueError\<close>.\<close>

definition enum_of_value :: "('e \<Rightarrow> string) \<Rightarrow> 'e list \<Rightarrow> string \<Rightarrow> exn + 'e" where
  "enum_of_value value_of members s =
     (case find (\<lambda>e. value_of e = s) members of None \<Rightarrow> Inl ValueError | Some e \<Rightarrow> Inr e)"

definition suppression_reasons :: "suppression_reason list" where
  "suppression_reasons = [HardBounce, Complaint, Unsubscribe, Manual, InvalidAddress]"

definition suppression_reason_of :: "string \<Rightarrow> exn + suppression_reason" where
  "suppression_reason_of = enum_of_value suppression_reason_value suppression_reasons"

definition verification_result_of :: "string \<Rightarrow> exn + verification_result" where
  "verification_result_of = enum_of_value verification_result_value [Valid, Invalid, Unknown, VPending]"

definition template_type_of :: "string \<Rightarrow> exn + template_type" where
  "template_type_of = enum_of_value template_type_value [Plain, Html]"

definition terminal_recipient_statuses :: "recipient_status list" where
  "terminal_recipient_statuses =
     [RSent, RDelivered, RBounced, RFailed, RSkippedSuppressed, RSkippedFrequency, RSkippedCap]"

lemma terminal_iff_not_pending: "s \<in> set terminal_recipient_statuses \<longleftrightarrow> s \<noteq> RPending"
  by (cases s) (simp_all add: terminal_recipient_statuses_def)

lemma suppression_reason_of_value [simp]: "suppression_reason_of (suppression_reason_value r) = Inr r"
  by (cases r) (simp_all add: suppression_reason_of_def enum_of_value_def suppression_reasons_def)

lemma verification_result_of_value [simp]:
  "verification_result_of (verification_result_value r) = Inr r"
  by (cases r) (simp_all add: verification_result_of_def enum_of_value_def)

lemma campaign_status_value_inject [simp]:
  "campaign_status_value a = campaign_status_value b \<longleftrightarrow> a = b"
  by (cases a; cases b) simp_all

instantiation campaign_status :: enum
begin

definition "enum_campaign_status = [Draft, Scheduled, Sending, Paused, Completed, Failed, Cancelled, Planner]"
definition "enum_all_campaign_status P \<longleftrightarrow>
  P Draft \<and> P Scheduled \<and> P Sending \<and> P Paused \<and> P Completed \<and> P Failed \<and> P Cancelled \<and> P Planner"
definition "enum_ex_campaign_status P \<longleftrightarrow>
  P Draft \<or> P Scheduled \<or> P Sending \<or> P Paused \<or> P Completed \<or> P Failed \<or> P Cancelled \<or> P Planner"

instance
proof
  have all: "x \<in> set [Draft, Scheduled, Sending, Paused, Completed, Failed, Cancelled, Planner]" for x
    by (cases x) simp_all
  show "(UNIV :: campaign_status set) = set enum_class.enum"
    unfolding enum_campaign_status_def using all by blast
  show "distinct (enum_class.enum :: campaign_status list)"
    by (simp add: enum_campaign_status_def)
  show "enum_class.enum_all P \<longleftrightarrow> Ball UNIV P" for P :: "campaign_status \<Rightarrow> bool"
    unfolding enum_all_campaign_status_def by (auto, metis campaign_status.exhaust)
  show "enum_class.enum_ex P \<longleftrightarrow> Bex UNIV P" for P :: "campaign_status \<Rightarrow> bool"
    unfolding enum_ex_campaign_status_def by (auto, metis campaign_status.exhaust)
qed

end

section \<open>Rows\<close>

record campaign =
  c_id :: id
  c_name :: string
  c_subject :: string
  c_from_name :: string
  c_from_email :: string
  c_reply_to :: "string option"
  c_template_id :: "id option"
  c_list_id :: "id option"
  c_send_time :: "string option"
  c_send_timezone :: "string option"
  c_is_planner :: bool
  c_parent_campaign_id :: "id option"
  c_scheduled_at :: "instant option"
  c_status :: campaign_status
  c_ip_pool :: "string option"
  c_total_recipients :: int
  c_queued_count :: int
  c_sent_count :: int
  c_delivered_count :: int
  c_bounced_count :: int
  c_failed_count :: int
  c_skipped_count :: int
  c_created_at :: instant

type_synonym custom_fields = "(string \<times> json) list"

record merge_snapshot =
  ms_first_name :: "string option"
  ms_last_name :: "string option"
  ms_custom_fields :: custom_fields

record campaign_recipient =
  cr_id :: id
  cr_campaign_id :: id
  cr_contact_id :: "id option"
  cr_email_snapshot :: string
  cr_merge_snapshot :: merge_snapshot
  cr_status :: recipient_status
  cr_postal_message_id :: "string option"
  cr_ip_pool :: "string option"
  cr_last_event_at :: "instant option"
  cr_error_detail :: "string option"
  cr_updated_at :: instant

record email_event =
  ev_id :: id
  ev_campaign_recipient_id :: id
  ev_type :: string
  ev_status :: "string option"
  ev_provider_event_id :: "string option"
  ev_raw_payload :: json
  ev_occurred_at :: instant

record contact =
  ct_id :: id
  ct_email :: string
  ct_first_name :: "string option"
  ct_last_name :: "string option"
  ct_custom_fields :: custom_fields
  ct_status :: contact_status
  ct_verification_result :: verification_result
  ct_list_id :: "id option"

record contact_list =
  l_id :: id
  l_name :: string
  l_description :: "string option"
  l_source_filename :: "string option"
  l_created_by :: "id option"
  l_contact_count :: int
  l_verification_status :: list_verification_status
  l_verification_summary :: "json option"
  l_import_summary :: "json option"
  l_free_provider_filter_applied :: bool
  l_created_at :: instant

record suppression =
  s_id :: id
  s_email :: string
  s_reason :: suppression_reason
  s_detail :: "string option"

record template =
  t_id :: id
  t_name :: string
  t_type :: string
  t_subject_default :: "string option"
  t_body :: string
  t_updated_at :: instant

record user =
  u_id :: id
  u_email :: string
  u_password_hash :: string
  u_role :: user_role
  u_must_change_password :: bool
  u_is_active :: bool

record app_setting =
  as_key :: string
  as_value :: json

record api_key =
  k_id :: id
  k_name :: string
  k_key_hash :: string
  k_is_active :: bool
  k_created_at :: instant
  k_last_used_at :: "instant option"

record campaign_list =
  cl_id :: id
  cl_campaign_id :: id
  cl_list_id :: id

record planner_placement =
  p_id :: id
  p_campaign_id :: id
  p_week :: int
  p_weekday :: int

record campaign_contact_send =
  cs_id :: id
  cs_campaign_id :: id
  cs_contact_id :: id
  cs_last_sent_at :: instant

record ip_warm_state =
  iw_id :: id
  iw_ip :: string
  iw_pool :: "string option"
  iw_warmed_since :: instant
  iw_is_active :: bool

section \<open>The database\<close>

datatype table =
    TCampaigns | TRecipients | TEmailEvents | TContacts | TContactLists | TSuppressions
  | TTemplates | TUsers | TApiKeys | TCampaignLists | TPlacements | TContactSends | TIpWarmStates

record db =
  campaigns :: "campaign list"
  recipients :: "campaign_recipient list"
  email_events :: "email_event list"
  contacts :: "contact list"
  contact_lists :: "contact_list list"
  suppressions :: "suppression list"
  templates :: "template list"
  users :: "user list"
  app_settings :: "app_setting list"
  api_keys :: "api_key list"
  campaign_lists :: "campaign_list list"
  placements :: "planner_placement list"
  contact_sends :: "campaign_contact_send list"
  ip_warm_states :: "ip_warm_state list"
  seqs :: "table \<Rightarrow> int"

definition empty_db :: db where
  "empty_db = \<lparr>campaigns = [], recipients = [], email_events = [], contacts = [],
     contact_lists = [], suppressions = [], templates = [], users = [], app_settings = [],
     api_keys = [], campaign_lists = [], placements = [], contact_sends = [],
     ip_warm_states = [], seqs = (\<lambda>_. 0)\<rparr>"

text \<open>The primary key the next insert into a table gets, and the sequence moved past it.\<close>

definition next_id :: "table \<Rightarrow> db \<Rightarrow> id" where
  "next_id t d = seqs d t + 1"

definition bump_seq :: "table \<Rightarrow> db \<Rightarrow> db" where
  "bump_seq t d = d\<lparr>seqs := (seqs d)(t := seqs d t + 1)\<rparr>"

lemma bump_seq_frame [simp]:
  "campaigns (bump_seq t d) = campaigns d" "recipients (bump_seq t d) = recipients d"
  "email_events (bump_seq t d) = email_events d" "contacts (bump_seq t d) = contacts d"
  "contact_lists (bump_seq t d) = contact_lists d" "suppressions (bump_seq t d) = suppressions d"
  "templates (bump_seq t d) = templates d" "users (bump_seq t d) = users d"
  "app_settings (bump_seq t d) = app_settings d" "api_keys (bump_seq t d) = api_keys d"
  "campaign_lists (bump_seq t d) = campaign_lists d" "placements (bump_seq t d) = placements d"
  "contact_sends (bump_seq t d) = contact_sends d" "ip_warm_states (bump_seq t d) = ip_warm_states d"
  "seqs (bump_seq t d) = (seqs d)(t := seqs d t + 1)"
  by (simp_all add: bump_seq_def)

text \<open>Primary-key lookups (\<open>session.get(Model, id)\<close>).\<close>

definition get_campaign_row :: "id \<Rightarrow> db \<Rightarrow> campaign option" where
  "get_campaign_row i d = row_by c_id i (campaigns d)"

definition get_recipient_row :: "id \<Rightarrow> db \<Rightarrow> campaign_recipient option" where
  "get_recipient_row i d = row_by cr_id i (recipients d)"

definition get_contact_row :: "id \<Rightarrow> db \<Rightarrow> contact option" where
  "get_contact_row i d = row_by ct_id i (contacts d)"

definition get_list_row :: "id \<Rightarrow> db \<Rightarrow> contact_list option" where
  "get_list_row i d = row_by l_id i (contact_lists d)"

definition get_template_row :: "id \<Rightarrow> db \<Rightarrow> template option" where
  "get_template_row i d = row_by t_id i (templates d)"

definition get_setting_row :: "string \<Rightarrow> db \<Rightarrow> app_setting option" where
  "get_setting_row k d = row_by as_key k (app_settings d)"

definition upd_campaign :: "id \<Rightarrow> (campaign \<Rightarrow> campaign) \<Rightarrow> db \<Rightarrow> db" where
  "upd_campaign i f d = d\<lparr>campaigns := upd_by c_id i f (campaigns d)\<rparr>"

definition upd_recipient :: "id \<Rightarrow> (campaign_recipient \<Rightarrow> campaign_recipient) \<Rightarrow> db \<Rightarrow> db" where
  "upd_recipient i f d = d\<lparr>recipients := upd_by cr_id i f (recipients d)\<rparr>"

definition upd_contact :: "id \<Rightarrow> (contact \<Rightarrow> contact) \<Rightarrow> db \<Rightarrow> db" where
  "upd_contact i f d = d\<lparr>contacts := upd_by ct_id i f (contacts d)\<rparr>"

definition upd_list :: "id \<Rightarrow> (contact_list \<Rightarrow> contact_list) \<Rightarrow> db \<Rightarrow> db" where
  "upd_list i f d = d\<lparr>contact_lists := upd_by l_id i f (contact_lists d)\<rparr>"

lemmas get_row_defs =
  get_campaign_row_def get_recipient_row_def get_contact_row_def get_list_row_def
  get_template_row_def get_setting_row_def

lemma upd_campaign_frame [frame, simp]:
  "recipients (upd_campaign i f d) = recipients d" "email_events (upd_campaign i f d) = email_events d"
  "contacts (upd_campaign i f d) = contacts d" "contact_lists (upd_campaign i f d) = contact_lists d"
  "suppressions (upd_campaign i f d) = suppressions d" "templates (upd_campaign i f d) = templates d"
  "app_settings (upd_campaign i f d) = app_settings d"
  "campaign_lists (upd_campaign i f d) = campaign_lists d" "placements (upd_campaign i f d) = placements d"
  "contact_sends (upd_campaign i f d) = contact_sends d"
  "ip_warm_states (upd_campaign i f d) = ip_warm_states d" "seqs (upd_campaign i f d) = seqs d"
  "campaigns (upd_campaign i f d) = upd_by c_id i f (campaigns d)"
  by (simp_all add: upd_campaign_def)

lemma upd_recipient_frame [frame, simp]:
  "campaigns (upd_recipient i f d) = campaigns d" "email_events (upd_recipient i f d) = email_events d"
  "contacts (upd_recipient i f d) = contacts d" "contact_lists (upd_recipient i f d) = contact_lists d"
  "suppressions (upd_recipient i f d) = suppressions d" "templates (upd_recipient i f d) = templates d"
  "app_settings (upd_recipient i f d) = app_settings d"
  "campaign_lists (upd_recipient i f d) = campaign_lists d" "placements (upd_recipient i f d) = placements d"
  "contact_sends (upd_recipient i f d) = contact_sends d"
  "ip_warm_states (upd_recipient i f d) = ip_warm_states d" "seqs (upd_recipient i f d) = seqs d"
  "recipients (upd_recipient i f d) = upd_by cr_id i f (recipients d)"
  by (simp_all add: upd_recipient_def)

lemma upd_contact_frame [frame, simp]:
  "campaigns (upd_contact i f d) = campaigns d" "recipients (upd_contact i f d) = recipients d"
  "email_events (upd_contact i f d) = email_events d" "contact_lists (upd_contact i f d) = contact_lists d"
  "suppressions (upd_contact i f d) = suppressions d" "templates (upd_contact i f d) = templates d"
  "app_settings (upd_contact i f d) = app_settings d" "campaign_lists (upd_contact i f d) = campaign_lists d"
  "placements (upd_contact i f d) = placements d" "contact_sends (upd_contact i f d) = contact_sends d"
  "ip_warm_states (upd_contact i f d) = ip_warm_states d" "seqs (upd_contact i f d) = seqs d"
  "contacts (upd_contact i f d) = upd_by ct_id i f (contacts d)"
  by (simp_all add: upd_contact_def)

lemma upd_list_frame [frame, simp]:
  "campaigns (upd_list i f d) = campaigns d" "recipients (upd_list i f d) = recipients d"
  "email_events (upd_list i f d) = email_events d" "contacts (upd_list i f d) = contacts d"
  "suppressions (upd_list i f d) = suppressions d" "templates (upd_list i f d) = templates d"
  "app_settings (upd_list i f d) = app_settings d" "campaign_lists (upd_list i f d) = campaign_lists d"
  "placements (upd_list i f d) = placements d" "contact_sends (upd_list i f d) = contact_sends d"
  "ip_warm_states (upd_list i f d) = ip_warm_states d" "seqs (upd_list i f d) = seqs d"
  "contact_lists (upd_list i f d) = upd_by l_id i f (contact_lists d)"
  by (simp_all add: upd_list_def)

end
