(* ===== verification/Normalize.thy ===== *)
theory Normalize
  imports Models
begin

text \<open>
  Email normalization and Layer-1 syntax validation (\<open>app/services/normalize.py\<close>).  The
  third-party \<open>email_validator.validate_email(value, check_deliverability=False)\<close> is the
  parameter \<open>ve\<close>: \<open>Inl\<close> the message of its \<open>EmailNotValidError\<close>, or \<open>Inr\<close> the
  \<open>normalized\<close> attribute of its result.
\<close>

type_synonym email_validator = "string \<Rightarrow> string + string"

definition normalize_email :: "string option \<Rightarrow> string option" where
  "normalize_email raw =
     (case raw of
        None \<Rightarrow> None
      | Some r \<Rightarrow>
          let value = py_lower (py_strip r) in
          if value = [] \<or> CHR ''@'' \<notin> set value then None else Some value)"

record syntax_check =
  sc_ok :: bool
  sc_normalized :: "string option"
  sc_error :: "string option"

definition validate_syntax :: "email_validator \<Rightarrow> string option \<Rightarrow> syntax_check" where
  "validate_syntax ve raw =
     (case normalize_email raw of
        None \<Rightarrow> \<lparr>sc_ok = False, sc_normalized = None, sc_error = Some ''empty or missing @''\<rparr>
      | Some value \<Rightarrow>
          (case ve value of
             Inl exc \<Rightarrow> \<lparr>sc_ok = False, sc_normalized = Some value, sc_error = Some exc\<rparr>
           | Inr normalized \<Rightarrow>
               \<lparr>sc_ok = True, sc_normalized = Some (py_lower normalized), sc_error = None\<rparr>))"

definition domain_of :: "string \<Rightarrow> string" where
  "domain_of email = py_lower (py_after_last CHR ''@'' email)"

text \<open>The caller's test \<open>check.ok and check.normalized\<close>: the address to store, if any.\<close>

definition accepted_address :: "syntax_check \<Rightarrow> string option" where
  "accepted_address check =
     (case sc_normalized check of
        None \<Rightarrow> None
      | Some n \<Rightarrow> if sc_ok check \<and> n \<noteq> [] then Some n else None)"

text \<open>
  Documented behaviour of the validator the code relies on: what it accepts it returns as
  an address with an \<open>@\<close> and without surrounding white space.
\<close>

definition validator_wf :: "email_validator \<Rightarrow> bool" where
  "validator_wf ve \<longleftrightarrow> (\<forall>v n. ve v = Inr n \<longrightarrow> CHR ''@'' \<in> set n \<and> py_strip n = n)"

text \<open>The canonical addresses: the fixed points of \<open>normalize_email\<close>.\<close>

definition canonical :: "string \<Rightarrow> bool" where
  "canonical e \<longleftrightarrow> py_strip e = e \<and> py_lower e = e \<and> CHR ''@'' \<in> set e"

lemma normalize_email_None [simp]: "normalize_email None = None"
  by (simp add: normalize_email_def)

lemma normalize_email_Some_iff:
  "normalize_email (Some r) = Some v \<longleftrightarrow> v = py_lower (py_strip r) \<and> CHR ''@'' \<in> set v"
  by (auto simp: normalize_email_def Let_def)

lemma normalize_email_canonical: "normalize_email raw = Some v \<Longrightarrow> canonical v"
  by (cases raw) (auto simp: normalize_email_Some_iff canonical_def py_strip_lower)

lemma canonical_iff_normalize: "canonical e \<longleftrightarrow> normalize_email (Some e) = Some e"
  by (auto simp: canonical_def normalize_email_Some_iff py_strip_lower dest: sym)
     (metis py_lower_idem py_strip_idem py_strip_lower)+

lemma canonical_normalize [simp]: "canonical e \<Longrightarrow> normalize_email (Some e) = Some e"
  by (simp add: canonical_iff_normalize)

lemma normalize_email_idem:
  "normalize_email raw = Some v \<Longrightarrow> normalize_email (Some v) = Some v"
  by (simp add: normalize_email_canonical)

lemma canonical_nonempty: "canonical e \<Longrightarrow> e \<noteq> []"
  by (auto simp: canonical_def)

lemma validate_syntax_canonical:
  "validator_wf ve \<Longrightarrow> accepted_address (validate_syntax ve raw) = Some n \<Longrightarrow> canonical n"
  by (auto simp: accepted_address_def validate_syntax_def validator_wf_def canonical_def py_strip_lower
      split: option.splits sum.splits if_splits)

lemma domain_of_no_at: "CHR ''@'' \<notin> set (domain_of e)"
  by (simp add: domain_of_def)

lemma domain_of_lower [simp]: "py_lower (domain_of e) = domain_of e"
  by (simp add: domain_of_def)

lemma domain_of_split: "CHR ''@'' \<notin> set host \<Longrightarrow> domain_of (local_part @ CHR ''@'' # host) = py_lower host"
  by (simp add: domain_of_def py_after_last_append)

end
