(* ===== verification/Merge.thy ===== *)
theory Merge
  imports Normalize
begin

text \<open>
  Merge-tag rendering (\<open>app/services/merge.py\<close>).  The regular expression
  \<open>{{\s*([a-zA-Z0-9_]+)\s*}}\<close> is deterministic (white space, word characters and the braces
  are disjoint), so a match at a position is a pass over the text; the scan of
  \<open>finditer\<close> and \<open>sub\<close> yields the body as a list of literal characters and tags.  The
  third-party \<open>markupsafe.escape\<close> is the parameter \<open>esc\<close>; \<open>rep\<close> renders JSON floats,
  lists and objects (\<open>py_str\<close>).
\<close>

section \<open>Scanning\<close>

definition is_word_char :: "char \<Rightarrow> bool" where
  "is_word_char c = (let n = (of_char c :: nat) in
     (48 \<le> n \<and> n \<le> 57) \<or> (65 \<le> n \<and> n \<le> 90) \<or> (97 \<le> n \<and> n \<le> 122) \<or> n = 95)"

text \<open>The regular expression at the front of the text: the tag and the text after the match.\<close>

definition match_tag :: "string \<Rightarrow> (string \<times> string) option" where
  "match_tag s =
     (if py_startswith s ''{{'' then
        let r1 = dropWhile py_isspace (drop 2 s);
            tag = takeWhile is_word_char r1;
            r2 = dropWhile py_isspace (dropWhile is_word_char r1)
        in if tag \<noteq> [] \<and> py_startswith r2 ''}}'' then Some (tag, drop 2 r2) else None
      else None)"

lemma match_tag_shorter: "match_tag s = Some (tag, rest) \<Longrightarrow> length rest < length s"
proof -
  assume m: "match_tag s = Some (tag, rest)"
  let ?r1 = "dropWhile py_isspace (drop 2 s)"
  let ?r2 = "dropWhile py_isspace (dropWhile is_word_char ?r1)"
  from m have start: "py_startswith s ''{{''" and rest: "rest = drop 2 ?r2"
    by (auto simp: match_tag_def Let_def split: if_splits)
  from start have "2 \<le> length s" by (auto simp: py_startswith_iff)
  moreover have "length ?r2 \<le> length (drop 2 s)"
    by (meson length_dropWhile_le order_trans)
  ultimately show ?thesis by (simp add: rest)
qed

datatype segment = Lit char | Tag string

function scan :: "string \<Rightarrow> segment list" where
  "scan s =
     (case match_tag s of
        Some (tag, rest) \<Rightarrow> Tag tag # scan rest
      | None \<Rightarrow> (case s of [] \<Rightarrow> [] | c # cs \<Rightarrow> Lit c # scan cs))"
  by pat_completeness auto
termination
  by (relation "measure length") (auto simp: match_tag_shorter)

declare scan.simps [simp del]

section \<open>Tags of a body\<close>

definition unsubscribe_tag :: string where
  "unsubscribe_tag = ''unsubscribe_url''"

definition base_tags :: "string set" where
  "base_tags = {''first_name'', ''last_name'', ''email'', ''unsubscribe_url''}"

definition find_tags :: "string \<Rightarrow> string set" where
  "find_tags body = {t. Tag t \<in> set (scan body)}"

text \<open>\<open>find_tags\<close> as a list, to evaluate it.\<close>

definition tag_list :: "string \<Rightarrow> string list" where
  "tag_list body = concat (map (\<lambda>x. case x of Tag t \<Rightarrow> [t] | Lit c \<Rightarrow> []) (scan body))"

lemma find_tags_code [code]: "find_tags body = set (tag_list body)"
  by (auto simp: find_tags_def tag_list_def split: segment.splits)

definition has_unsubscribe :: "string \<Rightarrow> bool" where
  "has_unsubscribe body = (unsubscribe_tag \<in> find_tags body)"

definition unknown_tags :: "string \<Rightarrow> string set option \<Rightarrow> string set" where
  "unknown_tags body allowed =
     find_tags body - (case allowed of None \<Rightarrow> base_tags | Some a \<Rightarrow> a)"

section \<open>Rendering\<close>

type_synonym context_map = "string \<Rightarrow> json option"

definition tag_value :: "(json \<Rightarrow> string) \<Rightarrow> (string \<Rightarrow> string) \<Rightarrow> context_map \<Rightarrow> bool \<Rightarrow> string \<Rightarrow> string" where
  "tag_value rep esc ctx html tag =
     (let v = (case ctx tag of None \<Rightarrow> JStr [] | Some v \<Rightarrow> v);
          v' = (if v = JNull then JStr [] else v);
          value = py_str rep v'
      in if html then esc value else value)"

fun render_segment ::
  "(json \<Rightarrow> string) \<Rightarrow> (string \<Rightarrow> string) \<Rightarrow> context_map \<Rightarrow> bool \<Rightarrow> segment \<Rightarrow> string" where
  "render_segment rep esc ctx html (Lit c) = [c]"
| "render_segment rep esc ctx html (Tag t) = tag_value rep esc ctx html t"

definition render ::
  "(json \<Rightarrow> string) \<Rightarrow> (string \<Rightarrow> string) \<Rightarrow> string \<Rightarrow> context_map \<Rightarrow> bool \<Rightarrow> string" where
  "render rep esc body ctx html =
     (if body = [] then [] else concat (map (render_segment rep esc ctx html) (scan body)))"

definition build_context ::
  "string \<Rightarrow> string option \<Rightarrow> string option \<Rightarrow> string \<Rightarrow> custom_fields \<Rightarrow> context_map" where
  "build_context email first_name last_name unsubscribe_url custom_fields =
     (map_of custom_fields)(
        ''email'' \<mapsto> JStr email,
        ''first_name'' \<mapsto> JStr (case first_name of None \<Rightarrow> [] | Some s \<Rightarrow> s),
        ''last_name'' \<mapsto> JStr (case last_name of None \<Rightarrow> [] | Some s \<Rightarrow> s),
        ''unsubscribe_url'' \<mapsto> JStr unsubscribe_url)"

section \<open>Lemmas\<close>

lemma scan_Nil [simp]: "scan [] = []"
  by (subst scan.simps) (simp add: match_tag_def py_startswith_def)

lemma scan_match: "match_tag s = Some (tag, rest) \<Longrightarrow> scan s = Tag tag # scan rest"
  by (subst scan.simps) simp

lemma scan_no_match: "match_tag (c # cs) = None \<Longrightarrow> scan (c # cs) = Lit c # scan cs"
  by (subst scan.simps) simp

lemma match_tag_brace: "match_tag (c # cs) \<noteq> None \<Longrightarrow> c = CHR ''{''"
  by (auto simp: match_tag_def py_startswith_def split: if_splits)

text \<open>A text without an opening brace has no tags and scans to its own characters.\<close>

lemma scan_plain: "CHR ''{'' \<notin> set s \<Longrightarrow> scan s = map Lit s"
proof (induction s)
  case (Cons c cs)
  then have "match_tag (c # cs) = None" using match_tag_brace by fastforce
  with Cons show ?case by (simp add: scan_no_match)
qed simp

text \<open>A literal prefix without braces is scanned through.\<close>

lemma scan_plain_append: "CHR ''{'' \<notin> set s \<Longrightarrow> scan (s @ t) = map Lit s @ scan t"
proof (induction s)
  case (Cons c cs)
  then have "match_tag (c # (cs @ t)) = None" using match_tag_brace by fastforce
  with Cons show ?case by (simp add: scan_no_match)
qed simp

lemma render_scan: "render rep esc body ctx html = concat (map (render_segment rep esc ctx html) (scan body))"
  by (simp add: render_def)

text \<open>Substituted values appear in the output as they are rendered.\<close>

lemma render_contains_tag:
  assumes "t \<in> find_tags body"
  shows "\<exists>pre post. render rep esc body ctx html = pre @ tag_value rep esc ctx html t @ post"
proof -
  from assms obtain xs ys where "scan body = xs @ Tag t # ys"
    by (auto simp: find_tags_def dest: split_list)
  then have "render rep esc body ctx html =
      concat (map (render_segment rep esc ctx html) xs) @ tag_value rep esc ctx html t @
      concat (map (render_segment rep esc ctx html) ys)"
    by (simp add: render_scan)
  then show ?thesis by blast
qed

lemma tag_value_base:
  "tag_value rep esc (build_context e f l u cf) html ''unsubscribe_url'' = (if html then esc u else u)"
  "tag_value rep esc (build_context e f l u cf) html ''email'' = (if html then esc e else e)"
  by (simp_all add: tag_value_def build_context_def)

lemma unsubscribe_link_rendered:
  assumes "has_unsubscribe body"
  shows "\<exists>pre post. render rep esc body (build_context e f l u cf) html =
    pre @ (if html then esc u else u) @ post"
  using render_contains_tag [OF assms [unfolded has_unsubscribe_def unsubscribe_tag_def],
    of rep esc "build_context e f l u cf" html]
  by (simp add: tag_value_base)

text \<open>
  What \<open>markupsafe.escape\<close> is documented to do, as far as markup safety needs it: no
  angle bracket or quote of a value survives.
\<close>

definition markup_char :: "char \<Rightarrow> bool" where
  "markup_char c = (c \<in> {CHR ''<'', CHR ''>'', CHR 0x22, CHR 0x27})"

definition escapes_markup :: "(string \<Rightarrow> string) \<Rightarrow> bool" where
  "escapes_markup esc \<longleftrightarrow> (\<forall>s. \<forall>c \<in> set (esc s). \<not> markup_char c)"

fun literal_chars :: "segment list \<Rightarrow> string" where
  "literal_chars [] = []"
| "literal_chars (Lit c # xs) = c # literal_chars xs"
| "literal_chars (Tag t # xs) = literal_chars xs"

lemma filter_markup_escaped: "escapes_markup esc \<Longrightarrow> filter markup_char (esc s) = []"
  by (auto simp: escapes_markup_def filter_empty_conv)

lemma render_markup_segments:
  "escapes_markup esc \<Longrightarrow>
   filter markup_char (concat (map (render_segment rep esc ctx True) xs)) =
   filter markup_char (literal_chars xs)"
  by (induction xs rule: literal_chars.induct)
     (simp_all add: tag_value_def Let_def filter_markup_escaped)

text \<open>Replacing a value changes nothing outside the places of its tag.\<close>

lemma render_cong:
  assumes "\<And>t. t \<in> find_tags body \<Longrightarrow> ctx t = ctx' t"
  shows "render rep esc body ctx html = render rep esc body ctx' html"
proof -
  have "render_segment rep esc ctx html x = render_segment rep esc ctx' html x"
    if "x \<in> set (scan body)" for x
  proof (cases x)
    case (Tag t)
    with that have "t \<in> find_tags body" by (simp add: find_tags_def)
    with Tag assms show ?thesis by (simp add: tag_value_def)
  qed simp
  then have "map (render_segment rep esc ctx html) (scan body) =
      map (render_segment rep esc ctx' html) (scan body)"
    by (rule map_cong [OF refl])
  then show ?thesis by (simp only: render_scan)
qed

section \<open>Properties\<close>

text \<open>
  C35: Merge values cannot inject markup into an HTML body: the angle brackets and quotes of the
  rendered text are those of the template outside its tags, in order, whatever the values.
\<close>

theorem render_markup_safe:
  assumes "escapes_markup esc"
  shows "filter markup_char (render rep esc body ctx True) = filter markup_char (literal_chars (scan body))"
  using assms by (simp add: render_scan render_markup_segments)

text \<open>An escaper for the witness: it drops what \<open>markupsafe\<close> would encode.\<close>

theorem render_markup_safe_witness:
  "filter markup_char (render (\<lambda>_. []) (filter (\<lambda>c. \<not> markup_char c)) ''<b>{{ first_name }}</b>''
     (build_context ''a@x'' (Some ''<i>'') None [] []) True) = ''<><>''"
proof -
  have "escapes_markup (filter (\<lambda>c. \<not> markup_char c))" by (simp add: escapes_markup_def)
  moreover have "filter markup_char (literal_chars (scan ''<b>{{ first_name }}</b>'')) = ''<><>''" by code_simp
  ultimately show ?thesis by (simp only: render_markup_safe)
qed

text \<open>
  A template with the unsubscribe tag renders, for every contact, a text that contains the
  unsubscribe link (escaped in HTML), and no custom field can take its place.
\<close>

theorem unsubscribe_link_in_body:
  assumes "has_unsubscribe body"
  shows "\<exists>pre post. render rep esc body (build_context e f l url custom) html =
    pre @ (if html then esc url else url) @ post"
  using assms by (rule unsubscribe_link_rendered)

theorem unsubscribe_link_in_body_witness:
  "\<exists>pre post. render (\<lambda>_. []) id ''Bye {{ unsubscribe_url }}'' (build_context ''a@x'' None None ''http://u''
     [(''unsubscribe_url'', JStr ''spoof'')]) False = pre @ ''http://u'' @ post"
proof -
  have "has_unsubscribe ''Bye {{ unsubscribe_url }}''" by code_simp
  from unsubscribe_link_in_body [OF this] show ?thesis by (metis (full_types))
qed

end
