(* ===== verification/Config.thy ===== *)
theory Config
  imports Normalize
begin

text \<open>
  Application settings (\<open>app/config.py\<close>): the fields the modelled code reads, and the
  derived properties of the class.
\<close>

record settings =
  app_admin_email :: string
  app_admin_initial_password :: string
  dkim_selector :: string
  app_base_url :: string
  app_timezone :: string
  postgres_url :: string
  postal_use_mock :: bool
  postal_webhook_shared_secret :: string
  sending_domain :: string
  default_from_name :: string
  default_from_email :: string
  default_reply_to :: string
  allowed_from_domains :: string
  sending_ips :: string
  rate_global_per_minute :: int
  rate_per_domain_per_minute :: int
  per_ip_daily_cap :: int
  send_max_retries :: int
  send_retry_backoff_seconds :: int
  dns_resolvers :: string
  free_provider_filter_default :: bool
  verify_provider :: string

definition default_settings :: settings where
  "default_settings = \<lparr>
     app_admin_email = ''admin@example.com'',
     app_admin_initial_password = ''changeme'',
     dkim_selector = ''postal'',
     app_base_url = ''http://localhost:8000'',
     app_timezone = ''UTC'',
     postgres_url = ''sqlite+aiosqlite:///./dev.sqlite3'',
     postal_use_mock = True,
     postal_webhook_shared_secret = ''CHANGE_ME'',
     sending_domain = ''marketing.cod-st.com'',
     default_from_name = ''COD-ST'',
     default_from_email = ''news@marketing.cod-st.com'',
     default_reply_to = '''',
     allowed_from_domains = '''',
     sending_ips = '''',
     rate_global_per_minute = 20,
     rate_per_domain_per_minute = 6,
     per_ip_daily_cap = 2000,
     send_max_retries = 5,
     send_retry_backoff_seconds = 30,
     dns_resolvers = ''1.1.1.1,8.8.8.8'',
     free_provider_filter_default = True,
     verify_provider = ''inhouse''\<rparr>"

section \<open>Replacing substrings\<close>

text \<open>\<open>s.replace(old, new)\<close> for a non-empty \<open>old\<close>: left to right, without overlaps.\<close>

function py_replace :: "string \<Rightarrow> string \<Rightarrow> string \<Rightarrow> string" where
  "py_replace old new s =
     (if old \<noteq> [] \<and> py_startswith s old then new @ py_replace old new (drop (length old) s)
      else (case s of [] \<Rightarrow> [] | c # cs \<Rightarrow> c # py_replace old new cs))"
  by pat_completeness auto
termination
  by (relation "measure (\<lambda>(old, new, s). length s)")
     (auto simp: py_startswith_def intro!: diff_less)

declare py_replace.simps [simp del]

text \<open>\<open>s.replace(old, new, 1)\<close> when \<open>s\<close> starts with \<open>old\<close>.\<close>

definition replace_prefix :: "string \<Rightarrow> string \<Rightarrow> string \<Rightarrow> string" where
  "replace_prefix old new s = new @ drop (length old) s"

section \<open>Derived settings\<close>

definition normalize_async_url :: "string \<Rightarrow> string" where
  "normalize_async_url v =
     (if py_startswith v ''postgresql://'' then replace_prefix ''postgresql://'' ''postgresql+asyncpg://'' v
      else if py_startswith v ''sqlite://'' then replace_prefix ''sqlite://'' ''sqlite+aiosqlite://'' v
      else v)"

definition sync_database_url :: "settings \<Rightarrow> string" where
  "sync_database_url st =
     py_replace ''+aiosqlite'' '''' (py_replace ''+asyncpg'' ''+psycopg'' (postgres_url st))"

definition is_sqlite :: "settings \<Rightarrow> bool" where
  "is_sqlite st = py_startswith (postgres_url st) ''sqlite''"

text \<open>\<open>[x.strip() for x in text.split(",") if x.strip()]\<close>\<close>

definition comma_list :: "string \<Rightarrow> string list" where
  "comma_list text = filter (\<lambda>x. x \<noteq> []) (map py_strip (py_split CHR '','' text))"

definition sending_ips_list :: "settings \<Rightarrow> string list" where
  "sending_ips_list st = comma_list (sending_ips st)"

definition dns_resolvers_list :: "settings \<Rightarrow> string list" where
  "dns_resolvers_list st = comma_list (dns_resolvers st)"

text \<open>The source returns \<open>list\<close> of a set: the elements are as here, the order is not fixed.\<close>

definition allowed_from_domains_list :: "settings \<Rightarrow> string list" where
  "allowed_from_domains_list st =
     remdups (py_lower (sending_domain st) # map py_lower (comma_list (allowed_from_domains st)))"

definition app_base_url_clean :: "settings \<Rightarrow> string" where
  "app_base_url_clean st = py_rstrip_where (\<lambda>c. c = CHR ''/'') (app_base_url st)"

lemma sending_domain_allowed: "py_lower (sending_domain st) \<in> set (allowed_from_domains_list st)"
  by (simp add: allowed_from_domains_list_def)

lemma allowed_domains_lower: "x \<in> set (allowed_from_domains_list st) \<Longrightarrow> py_lower x = x"
  by (auto simp: allowed_from_domains_list_def split: if_splits)

lemma py_replace_no_start:
  "old \<noteq> [] \<Longrightarrow> hd old \<notin> set s \<Longrightarrow> py_replace old new s = s"
proof (induction s)
  case Nil
  then show ?case by (subst py_replace.simps) (simp add: py_startswith_def)
next
  case (Cons c cs)
  then have "\<not> py_startswith (c # cs) old" by (cases old) (auto simp: py_startswith_def)
  with Cons show ?case by (subst py_replace.simps) simp
qed

lemma py_replace_plain_append:
  "old \<noteq> [] \<Longrightarrow> hd old \<notin> set s \<Longrightarrow> py_replace old new (s @ t) = s @ py_replace old new t"
proof (induction s)
  case (Cons c cs)
  then have "\<not> py_startswith (c # (cs @ t)) old" by (cases old) (auto simp: py_startswith_def)
  with Cons show ?case by (subst py_replace.simps) simp
qed simp

lemma py_replace_prefix: "old \<noteq> [] \<Longrightarrow> py_replace old new (old @ t) = new @ py_replace old new t"
  by (subst py_replace.simps) simp

lemma py_replace_once:
  "old \<noteq> [] \<Longrightarrow> hd old \<notin> set a \<Longrightarrow> hd old \<notin> set b \<Longrightarrow>
   py_replace old new (a @ old @ b) = a @ new @ b"
  by (simp add: py_replace_plain_append py_replace_prefix py_replace_no_start)

lemma py_replace_absent:
  assumes "\<not> py_startswith (c # s) (c # old)" "c \<notin> set a" "c \<notin> set s"
  shows "py_replace (c # old) new (a @ c # s) = a @ c # s"
proof -
  have "py_replace (c # old) new (c # s) = c # s"
    using assms by (subst py_replace.simps) (simp add: py_replace_no_start)
  with assms(2) show ?thesis by (simp add: py_replace_plain_append)
qed

text \<open>A plain PostgreSQL URL reaches the Celery side as the same URL on the psycopg driver.\<close>

lemma sync_url_of_postgres:
  assumes "CHR ''+'' \<notin> set rest" "postgres_url st = normalize_async_url (''postgresql://'' @ rest)"
  shows "sync_database_url st = ''postgresql+psycopg://'' @ rest"
proof -
  have url: "postgres_url st = ''postgresql'' @ ''+asyncpg'' @ ''://'' @ rest"
    using assms(2) by (simp add: normalize_async_url_def replace_prefix_def py_startswith_def)
  have "py_replace ''+asyncpg'' ''+psycopg'' (postgres_url st) =
      ''postgresql'' @ ''+psycopg'' @ ''://'' @ rest"
    unfolding url by (rule py_replace_once) (use assms(1) in simp_all)
  moreover have "py_replace ''+aiosqlite'' '''' (''postgresql'' @ CHR ''+'' # ''psycopg://'' @ rest) =
      ''postgresql'' @ CHR ''+'' # ''psycopg://'' @ rest"
    by (rule py_replace_absent) (use assms(1) in \<open>simp_all add: py_startswith_def\<close>)
  ultimately show ?thesis by (simp add: sync_database_url_def)
qed

section \<open>Properties\<close>

text \<open>
  The web application and the Celery workers reach the same database: the asynchronous
  form a plain PostgreSQL URL is normalized to becomes, on the worker's side, the same URL on
  the synchronous driver.
\<close>

theorem sync_url_same_database:
  assumes "CHR ''+'' \<notin> set rest" "postgres_url st = normalize_async_url (''postgresql://'' @ rest)"
  shows "sync_database_url st = ''postgresql+psycopg://'' @ rest"
  using assms by (rule sync_url_of_postgres)

theorem sync_url_same_database_witness:
  "sync_database_url (default_settings\<lparr>postgres_url := ''postgresql+asyncpg://u:p@db/app''\<rparr>) =
     ''postgresql+psycopg://u:p@db/app''"
  using sync_url_same_database [of "''u:p@db/app''" "default_settings\<lparr>postgres_url := ''postgresql+asyncpg://u:p@db/app''\<rparr>"]
  by (simp add: normalize_async_url_def replace_prefix_def py_startswith_def)

end
