(* ===== verification/Config_Store.thy ===== *)
theory Config_Store
  imports Config
begin

text \<open>
  Runtime-editable configuration kept in \<open>app_settings\<close> rows: the free-provider blocklist
  (\<open>app/services/config_store.py\<close>) and the planner and warming policy
  (\<open>app/services/planner_config.py\<close>).  Both sessions of the source (synchronous and
  asynchronous) read the same rows; a row's value is a JSON value, and reading it the way
  the code does can raise.
\<close>

section \<open>Setting rows\<close>

definition upsert :: "string \<Rightarrow> json \<Rightarrow> db \<Rightarrow> db" where
  "upsert key v d =
     (case get_setting_row key d of
        None \<Rightarrow> d\<lparr>app_settings := app_settings d @ [\<lparr>as_key = key, as_value = v\<rparr>]\<rparr>
      | Some row \<Rightarrow> d\<lparr>app_settings := upd_by as_key key (\<lambda>r. r\<lparr>as_value := v\<rparr>) (app_settings d)\<rparr>)"

lemma get_setting_upsert:
  "get_setting_row k (upsert key v d) =
     (if k = key then Some \<lparr>as_key = key, as_value = v\<rparr> else get_setting_row k d)"
proof (cases "get_setting_row key d")
  case None
  then show ?thesis
    by (auto simp: upsert_def get_setting_row_def row_by_append split: option.split)
next
  case (Some row)
  then have "as_key row = key" by (auto simp: get_setting_row_def dest: row_by_SomeD)
  with Some show ?thesis
    by (auto simp: upsert_def get_setting_row_def row_by_upd_by)
qed

lemma upsert_frame [frame, simp]:
  "campaigns (upsert k v d) = campaigns d" "recipients (upsert k v d) = recipients d"
  "contacts (upsert k v d) = contacts d" "suppressions (upsert k v d) = suppressions d"
  by (simp_all add: upsert_def split: option.split)

section \<open>The free-provider filter\<close>

definition key_enabled :: string where "key_enabled = ''free_provider_filter_enabled''"
definition key_domains :: string where "key_domains = ''free_provider_domains''"

definition default_free_provider_domains :: "string list" where
  "default_free_provider_domains =
     [''gmail.com'', ''googlemail.com'',
      ''hotmail.'', ''outlook.'', ''live.'', ''msn.com'',
      ''yahoo.'', ''ymail.com'',
      ''aol.com'', ''icloud.com'', ''me.com'',
      ''gmx.*'', ''proton.me'', ''protonmail.com'']"

definition pattern_matches :: "string \<Rightarrow> string \<Rightarrow> bool" where
  "pattern_matches d p =
     (if p = [] then False
      else if py_endswith p ''.*'' then py_startswith d (butlast p)
      else if py_endswith p ''.'' then py_startswith d p
      else d = p)"

fun is_free_provider_loop :: "string \<Rightarrow> string list \<Rightarrow> bool" where
  "is_free_provider_loop d [] = False"
| "is_free_provider_loop d (raw # patterns) =
     (if pattern_matches d (py_lower (py_strip raw)) then True else is_free_provider_loop d patterns)"

definition is_free_provider :: "string \<Rightarrow> string list \<Rightarrow> bool" where
  "is_free_provider d patterns = is_free_provider_loop (py_lower d) patterns"

fun json_string :: "json \<Rightarrow> exn + string" where
  "json_string (JStr s) = Inr s"
| "json_string v = Inl AttributeError"

text \<open>
  A stored blocklist is a list of strings (the UI writes nothing else); any other element
  raises here, at the read, where the source raises at the first \<open>raw.strip()\<close>.
\<close>

definition get_free_provider_config :: "settings \<Rightarrow> db \<Rightarrow> exn + bool \<times> string list" where
  "get_free_provider_config st d =
     (let enabled_val =
            (case get_setting_row key_enabled d of
               None \<Rightarrow> free_provider_filter_default st
             | Some row \<Rightarrow> json_truthy (as_value row))
      in case get_setting_row key_domains d of
           None \<Rightarrow> Inr (enabled_val, default_free_provider_domains)
         | Some row \<Rightarrow>
             (case py_iter (as_value row) of
                Inl e \<Rightarrow> Inl e
              | Inr items \<Rightarrow>
                  (case map_exn json_string items of
                     Inl e \<Rightarrow> Inl e
                   | Inr patterns \<Rightarrow> Inr (enabled_val, patterns))))"

definition set_free_provider_config :: "bool \<Rightarrow> string list \<Rightarrow> db \<Rightarrow> db" where
  "set_free_provider_config enabled domains d =
     (let d1 = upsert key_enabled (JBool enabled) d;
          cleaned = map (\<lambda>x. py_lower (py_strip x)) (filter (\<lambda>x. py_strip x \<noteq> []) domains)
      in upsert key_domains (JList (map JStr cleaned)) d1)"

lemma is_free_provider_iff:
  "is_free_provider d patterns \<longleftrightarrow>
     (\<exists>raw \<in> set patterns. pattern_matches (py_lower d) (py_lower (py_strip raw)))"
proof -
  have "is_free_provider_loop e patterns \<longleftrightarrow> (\<exists>raw \<in> set patterns. pattern_matches e (py_lower (py_strip raw)))"
    for e
    by (induction patterns) auto
  then show ?thesis by (simp add: is_free_provider_def)
qed

lemma map_exn_json_string [simp]: "map_exn json_string (map JStr xs) = Inr xs"
  by (induction xs) simp_all

section \<open>Planner and warming policy\<close>

definition planner_key :: string where "planner_key = ''planner_config''"

definition planner_defaults :: "(string \<times> json) list" where
  "planner_defaults =
     [(''frequency_interval_days'', JInt 30),
      (''warming_ramp'', JList [JInt 2000, JInt 5000, JInt 7000, JInt 10000]),
      (''warming_full'', JInt 10000),
      (''send_rate_per_minute'', JInt 25),
      (''overflow_policy'', JStr ''hard_stop'')]"

fun merge_planner_config :: "json option \<Rightarrow> (string \<times> json) list" where
  "merge_planner_config (Some (JObj kvs)) = dict_update planner_defaults (filter (\<lambda>(k, v). v \<noteq> JNull) kvs)"
| "merge_planner_config _ = planner_defaults"

definition get_planner_config :: "db \<Rightarrow> (string \<times> json) list" where
  "get_planner_config d = merge_planner_config (map_option as_value (get_setting_row planner_key d))"

text \<open>\<open>cfg[k]\<close> for one of the keys \<open>planner_defaults\<close> always has, and \<open>cfg.get(k)\<close>.\<close>

definition cfg_item :: "(string \<times> json) list \<Rightarrow> string \<Rightarrow> exn + json" where
  "cfg_item cfg k = (case map_of cfg k of None \<Rightarrow> Inl KeyError | Some v \<Rightarrow> Inr v)"

definition cfg_get :: "(string \<times> json) list \<Rightarrow> string \<Rightarrow> json" where
  "cfg_get cfg k = (case map_of cfg k of None \<Rightarrow> JNull | Some v \<Rightarrow> v)"

definition cfg_int :: "(string \<times> json) list \<Rightarrow> string \<Rightarrow> exn + int" where
  "cfg_int cfg k = (case cfg_item cfg k of Inl e \<Rightarrow> Inl e | Inr v \<Rightarrow> py_int v)"

text \<open>The numeric keys of \<open>set_planner_config\<close>, coerced in the order of its loop.\<close>

fun clean_ints :: "string list \<Rightarrow> (string \<times> json) list \<Rightarrow> exn + (string \<times> json) list" where
  "clean_ints [] cfg = Inr []"
| "clean_ints (k # ks) cfg =
     (if cfg_get cfg k = JNull then clean_ints ks cfg
      else (case py_int (cfg_get cfg k) of
              Inl e \<Rightarrow> Inl e
            | Inr n \<Rightarrow> (case clean_ints ks cfg of Inl e \<Rightarrow> Inl e | Inr rest \<Rightarrow> Inr ((k, JInt n) # rest))))"

definition clean_ramp :: "(string \<times> json) list \<Rightarrow> exn + (string \<times> json) list" where
  "clean_ramp cfg =
     (if json_truthy (cfg_get cfg ''warming_ramp'')
      then (case py_iter (cfg_get cfg ''warming_ramp'') of
              Inl e \<Rightarrow> Inl e
            | Inr items \<Rightarrow>
                (case map_exn py_int items of
                   Inl e \<Rightarrow> Inl e
                 | Inr ns \<Rightarrow> Inr [(''warming_ramp'', JList (map JInt (take 4 ns)))]))
      else Inr [])"

definition clean_overflow :: "(string \<times> json) list \<Rightarrow> (string \<times> json) list" where
  "clean_overflow cfg =
     (let p = cfg_get cfg ''overflow_policy''
      in if p = JStr ''hard_stop'' \<or> p = JStr ''defer'' then [(''overflow_policy'', p)] else [])"

definition set_planner_config :: "(string \<times> json) list \<Rightarrow> db \<Rightarrow> exn + db" where
  "set_planner_config cfg d =
     (case clean_ints [''frequency_interval_days'', ''send_rate_per_minute'', ''warming_full''] cfg of
        Inl e \<Rightarrow> Inl e
      | Inr ints \<Rightarrow>
          (case clean_ramp cfg of
             Inl e \<Rightarrow> Inl e
           | Inr ramp \<Rightarrow>
               let clean = ints @ ramp @ clean_overflow cfg
               in Inr (case get_setting_row planner_key d of
                         None \<Rightarrow> upsert planner_key (JObj clean) d
                       | Some row \<Rightarrow>
                           upsert planner_key
                             (JObj (dict_update (merge_planner_config (Some (as_value row))) clean)) d)))"

lemma set_planner_config_upsert: "set_planner_config cfg d = Inr d' \<Longrightarrow> \<exists>v. d' = upsert planner_key v d"
  by (auto simp: set_planner_config_def Let_def split: sum.splits option.splits)

lemma planner_defaults_distinct [simp]: "distinct (map fst planner_defaults)"
  by (simp add: planner_defaults_def)

lemma merge_planner_config_lookup:
  "distinct (map fst kvs) \<Longrightarrow>
   map_of (merge_planner_config (Some (JObj kvs))) k =
     (case map_of kvs k of
        Some v \<Rightarrow> if v = JNull then map_of planner_defaults k else Some v
      | None \<Rightarrow> map_of planner_defaults k)"
proof -
  assume dist: "distinct (map fst kvs)"
  let ?f = "filter (\<lambda>(k, v). v \<noteq> JNull) kvs"
  have dist': "distinct (map fst ?f)" using dist by (rule distinct_map_filter)
  then have rev: "map_of (rev ?f) = map_of ?f" by (rule map_of_rev_distinct)
  have iff: "map_of ?f k = Some v \<longleftrightarrow> map_of kvs k = Some v \<and> v \<noteq> JNull" for v
    using map_of_filter_Some [OF dist, of "\<lambda>(k, v). v \<noteq> JNull" k v] by simp
  have f: "map_of ?f k = (case map_of kvs k of None \<Rightarrow> None | Some v \<Rightarrow> if v = JNull then None else Some v)"
  proof (cases "map_of ?f k")
    case None
    with iff show ?thesis by (auto split: option.split)
  next
    case (Some v)
    with iff [of v] show ?thesis by simp
  qed
  show ?thesis
    by (simp only: merge_planner_config.simps map_of_dict_update rev f) (simp split: option.split)
qed

lemma get_planner_config_default:
  "get_setting_row planner_key d = None \<Longrightarrow> get_planner_config d = planner_defaults"
  by (simp add: get_planner_config_def)

section \<open>Properties\<close>

text \<open>
  What the settings page stores for the free-provider filter is what the importer reads:
  the switch, and a blocklist that classifies every domain as the submitted lines do.
\<close>

theorem free_provider_roundtrip:
  "\<exists>patterns. get_free_provider_config st (set_free_provider_config enabled domains d) = Inr (enabled, patterns) \<and>
     (\<forall>h. is_free_provider h patterns = is_free_provider h domains)"
proof -
  let ?p = "map (\<lambda>x. py_lower (py_strip x)) (filter (\<lambda>x. py_strip x \<noteq> []) domains)"
  have read: "get_free_provider_config st (set_free_provider_config enabled domains d) = Inr (enabled, ?p)"
    by (simp add: get_free_provider_config_def set_free_provider_config_def get_setting_upsert Let_def
        key_enabled_def key_domains_def del: map_map)
  have "py_strip x = [] \<Longrightarrow> \<not> pattern_matches e (py_lower (py_strip x))" for e x
    by (simp add: pattern_matches_def)
  then have "is_free_provider h ?p = is_free_provider h domains" for h
    by (auto simp: is_free_provider_iff py_strip_lower)
  with read show ?thesis by blast
qed

end
