(* ===== verification/Warming.thy ===== *)
theory Warming
  imports Config_Store
begin

text \<open>
  IP warming (\<open>app/services/warming.py\<close>) and the routes that edit its policy and its IPs
  (\<open>app/web/planner.py\<close>): the daily cap of the pool is the sum over the active IPs of the
  ramp value for each IP's age.  The current instant is the parameter \<open>now\<close>.
\<close>

section \<open>Operations\<close>

definition ramp_of :: "(string \<times> json) list \<Rightarrow> json" where
  "ramp_of cfg =
     (if json_truthy (cfg_get cfg ''warming_ramp'') then cfg_get cfg ''warming_ramp''
      else JList [JInt 2000, JInt 5000, JInt 7000, JInt 10000])"

definition ramp_value :: "(string \<times> json) list \<Rightarrow> int \<Rightarrow> exn + int" where
  "ramp_value cfg age_days =
     (let ramp = ramp_of cfg;
          full_val = (if json_truthy (cfg_get cfg ''warming_full'')
                      then Inr (cfg_get cfg ''warming_full'') else py_getitem ramp (- 1))
      in and_then (and_then full_val py_int) (\<lambda>full.
         let week = max 0 age_days div 7 in
         and_then (py_len ramp) (\<lambda>n.
         if week < n then and_then (py_getitem ramp week) py_int else Inr full)))"

definition age_in_days :: "instant \<Rightarrow> instant \<Rightarrow> int" where
  "age_in_days now since = (now - since) div days 1"

definition current_daily_cap :: "instant \<Rightarrow> db \<Rightarrow> exn + int" where
  "current_daily_cap now d =
     (let cfg = get_planner_config d;
          states = filter iw_is_active (ip_warm_states d)
      in if states = [] then ramp_value cfg 0
         else and_then (map_exn (\<lambda>s. ramp_value cfg (age_in_days now (iw_warmed_since s))) states)
                (\<lambda>vals. Inr (sum_list vals)))"

record warming_ip =
  wi_ip :: string
  wi_pool :: "string option"
  wi_active :: bool
  wi_age_days :: int
  wi_week :: int
  wi_daily_cap :: int

definition warming_summary :: "instant \<Rightarrow> db \<Rightarrow> exn + int \<times> warming_ip list \<times> json" where
  "warming_summary now d =
     (let cfg = get_planner_config d in
      and_then (map_exn (\<lambda>s. let age = age_in_days now (iw_warmed_since s) in
                 and_then (ramp_value cfg age) (\<lambda>cap.
                 Inr \<lparr>wi_ip = iw_ip s, wi_pool = iw_pool s, wi_active = iw_is_active s,
                      wi_age_days = age, wi_week = age div 7 + 1, wi_daily_cap = cap\<rparr>))
               (ip_warm_states d)) (\<lambda>ips.
      and_then (current_daily_cap now d) (\<lambda>total. Inr (total, ips, cfg_get cfg ''warming_ramp''))))"

definition ensure_ip_warm_state ::
  "instant \<Rightarrow> string \<Rightarrow> string option \<Rightarrow> instant option \<Rightarrow> db \<Rightarrow> db" where
  "ensure_ip_warm_state now ip pool warmed_since d =
     (case row_by iw_ip ip (ip_warm_states d) of
        Some state \<Rightarrow> d
      | None \<Rightarrow>
          bump_seq TIpWarmStates (d\<lparr>ip_warm_states := ip_warm_states d @
            [\<lparr>iw_id = next_id TIpWarmStates d, iw_ip = ip, iw_pool = pool,
              iw_warmed_since = (case warmed_since of Some w \<Rightarrow> w | None \<Rightarrow> now), iw_is_active = True\<rparr>]\<rparr>))"

text \<open>
  The two IP routes.  The form's date, parsed by \<open>datetime.fromisoformat\<close> and read as UTC,
  arrives as \<open>since\<close> (\<open>None\<close>: absent or not a date).
\<close>

definition set_warming_ip :: "instant \<Rightarrow> string \<Rightarrow> string \<Rightarrow> instant option \<Rightarrow> db \<Rightarrow> db" where
  "set_warming_ip now ip pool since d =
     (let key = py_strip ip;
          d1 = ensure_ip_warm_state now key (if py_strip pool = [] then None else Some (py_strip pool)) since d
      in case since of
           None \<Rightarrow> d1
         | Some w \<Rightarrow> d1\<lparr>ip_warm_states := upd_by iw_ip key (\<lambda>s. s\<lparr>iw_warmed_since := w\<rparr>) (ip_warm_states d1)\<rparr>)"

definition delete_warming_ip :: "string \<Rightarrow> db \<Rightarrow> db" where
  "delete_warming_ip ip d = d\<lparr>ip_warm_states := del_by iw_ip ip (ip_warm_states d)\<rparr>"

definition form_config ::
  "int \<Rightarrow> int \<Rightarrow> int \<Rightarrow> int \<Rightarrow> int \<Rightarrow> int \<Rightarrow> int \<Rightarrow> string \<Rightarrow> (string \<times> json) list" where
  "form_config ramp1 ramp2 ramp3 ramp4 warming_full send_rate interval policy =
     [(''warming_ramp'', JList [JInt ramp1, JInt ramp2, JInt ramp3, JInt ramp4]),
      (''warming_full'', JInt warming_full),
      (''send_rate_per_minute'', JInt send_rate),
      (''frequency_interval_days'', JInt interval),
      (''overflow_policy'', JStr policy)]"

definition update_planner_config ::
  "int \<Rightarrow> int \<Rightarrow> int \<Rightarrow> int \<Rightarrow> int \<Rightarrow> int \<Rightarrow> int \<Rightarrow> string \<Rightarrow> db \<Rightarrow> exn + db" where
  "update_planner_config ramp1 ramp2 ramp3 ramp4 warming_full send_rate interval policy d =
     set_planner_config
       (form_config ramp1 ramp2 ramp3 ramp4 warming_full send_rate interval policy) d"

section \<open>The policy the routes leave behind\<close>

text \<open>
  A policy as the readers of the configuration need it: integers where \<open>int()\<close> is applied,
  a ramp of integers.  \<open>policy_of d p\<close> says that the configuration of \<open>d\<close> reads as \<open>p\<close>.
\<close>

record policy =
  pol_ramp :: "int list"
  pol_full :: int
  pol_rate :: int
  pol_interval :: int
  pol_overflow :: json

definition policy_of :: "db \<Rightarrow> policy \<Rightarrow> bool" where
  "policy_of d p \<longleftrightarrow>
     (let cfg = get_planner_config d in
      cfg_get cfg ''warming_ramp'' = JList (map JInt (pol_ramp p)) \<and>
      cfg_get cfg ''warming_full'' = JInt (pol_full p) \<and>
      cfg_item cfg ''send_rate_per_minute'' = Inr (JInt (pol_rate p)) \<and>
      cfg_item cfg ''frequency_interval_days'' = Inr (JInt (pol_interval p)) \<and>
      cfg_item cfg ''overflow_policy'' = Inr (pol_overflow p))"

definition default_policy :: policy where
  "default_policy = \<lparr>pol_ramp = [2000, 5000, 7000, 10000], pol_full = 10000, pol_rate = 25,
     pol_interval = 30, pol_overflow = JStr ''hard_stop''\<rparr>"

lemma policy_of_default: "get_setting_row planner_key d = None \<Longrightarrow> policy_of d default_policy"
  by (simp add: policy_of_def default_policy_def get_planner_config_default planner_defaults_def
      cfg_get_def cfg_item_def)

text \<open>What a policy promises for an IP of some age.\<close>

definition policy_cap :: "policy \<Rightarrow> int \<Rightarrow> int" where
  "policy_cap p age =
     (let ramp = (if pol_ramp p = [] then [2000, 5000, 7000, 10000] else pol_ramp p);
          week = nat (max 0 age div 7)
      in if week < length ramp then ramp ! week
         else if pol_full p \<noteq> 0 then pol_full p else last ramp)"

lemma nth_py_nth: "0 \<le> i \<Longrightarrow> i < int (length xs) \<Longrightarrow> nth_py xs i = Inr (xs ! nat i)"
  by (simp add: nth_py_def)

lemma nth_py_last: "xs \<noteq> [] \<Longrightarrow> nth_py xs (- 1) = Inr (last xs)"
  by (cases xs rule: rev_cases) (simp_all add: nth_py_def)

lemma ramp_value_list:
  assumes "ramp_of cfg = JList (map JInt ramp)" "ramp \<noteq> []" "cfg_get cfg ''warming_full'' = JInt full"
  shows "ramp_value cfg age =
    Inr (if nat (max 0 age div 7) < length ramp then ramp ! nat (max 0 age div 7)
         else if full \<noteq> 0 then full else last ramp)"
proof -
  let ?w = "max 0 age div 7"
  have w: "0 \<le> ?w" by simp
  have item: "nth_py (map JInt ramp) ?w = Inr (JInt (ramp ! nat ?w))" if "?w < int (length ramp)"
    using that w by (subst nth_py_nth) (auto simp: nat_less_iff)
  have end_item: "nth_py (map JInt ramp) (- 1) = Inr (JInt (last ramp))"
    using assms(2) by (simp add: nth_py_last last_map)
  have cond: "?w < int (length ramp) \<longleftrightarrow> nat ?w < length ramp" using w by linarith
  show ?thesis
    by (simp add: ramp_value_def assms(1,3) Let_def end_item item flip: cond)
qed

lemma ramp_value_policy:
  assumes "policy_of d p"
  shows "ramp_value (get_planner_config d) age = Inr (policy_cap p age)"
proof -
  let ?cfg = "get_planner_config d"
  let ?ramp = "if pol_ramp p = [] then [2000, 5000, 7000, 10000] else pol_ramp p"
  have "ramp_of ?cfg = JList (map JInt ?ramp)" "cfg_get ?cfg ''warming_full'' = JInt (pol_full p)"
    using assms by (simp_all add: policy_of_def ramp_of_def Let_def)
  moreover have "?ramp \<noteq> []" by simp
  ultimately show ?thesis
    using ramp_value_list [of ?cfg ?ramp "pol_full p" age] unfolding policy_cap_def Let_def by blast
qed

lemma current_daily_cap_policy:
  assumes "policy_of d p"
  shows "current_daily_cap now d =
    Inr (let states = filter iw_is_active (ip_warm_states d) in
         if states = [] then policy_cap p 0
         else sum_list (map (\<lambda>s. policy_cap p (age_in_days now (iw_warmed_since s))) states))"
  by (simp add: current_daily_cap_def ramp_value_policy [OF assms] Let_def)

text \<open>The configuration form: whatever was stored before, its five values are what is read after.\<close>

lemma cfg_simps:
  "cfg_get cfg k = (case map_of cfg k of None \<Rightarrow> JNull | Some v \<Rightarrow> v)"
  "cfg_item cfg k = (case map_of cfg k of None \<Rightarrow> Inl KeyError | Some v \<Rightarrow> Inr v)"
  by (simp_all add: cfg_get_def cfg_item_def)

lemma map_of_dict_update_key:
  assumes "distinct (map fst other)" "k \<in> fst ` set other"
  shows "map_of (dict_update kvs other) k = map_of other k"
proof -
  from assms(2) have "map_of other k \<noteq> None" by (simp add: map_of_eq_None_iff)
  then show ?thesis
    by (auto simp: map_of_dict_update map_of_rev_distinct [OF assms(1)])
qed

lemma merge_distinct [simp]: "distinct (map fst (merge_planner_config v))"
  by (cases v rule: merge_planner_config.cases) simp_all

lemma update_planner_config_policy:
  assumes "policy \<in> {''hard_stop'', ''defer''}"
  shows "\<exists>d'. update_planner_config r1 r2 r3 r4 full rate interval policy d = Inr d' \<and>
    policy_of d' \<lparr>pol_ramp = [r1, r2, r3, r4], pol_full = full, pol_rate = rate,
                  pol_interval = interval, pol_overflow = JStr policy\<rparr>"
proof -
  define clean where "clean =
    [(''frequency_interval_days'', JInt interval), (''send_rate_per_minute'', JInt rate),
     (''warming_full'', JInt full), (''warming_ramp'', JList [JInt r1, JInt r2, JInt r3, JInt r4]),
     (''overflow_policy'', JStr policy)]"
  define stored where "stored = (case get_setting_row planner_key d of
     None \<Rightarrow> clean | Some row \<Rightarrow> dict_update (merge_planner_config (Some (as_value row))) clean)"
  have ints: "clean_ints [''frequency_interval_days'', ''send_rate_per_minute'', ''warming_full'']
      (form_config r1 r2 r3 r4 full rate interval policy) =
     Inr [(''frequency_interval_days'', JInt interval), (''send_rate_per_minute'', JInt rate),
          (''warming_full'', JInt full)]"
    by (simp add: form_config_def cfg_get_def)
  have ramp: "clean_ramp (form_config r1 r2 r3 r4 full rate interval policy) =
     Inr [(''warming_ramp'', JList [JInt r1, JInt r2, JInt r3, JInt r4])]"
    by (simp add: form_config_def cfg_get_def clean_ramp_def)
  have overflow: "clean_overflow (form_config r1 r2 r3 r4 full rate interval policy) =
     [(''overflow_policy'', JStr policy)]"
    using assms by (auto simp: form_config_def cfg_get_def clean_overflow_def Let_def)
  have set: "update_planner_config r1 r2 r3 r4 full rate interval policy d =
      Inr (upsert planner_key (JObj stored) d)"
    unfolding update_planner_config_def set_planner_config_def ints ramp overflow sum.case Let_def
    by (simp add: clean_def stored_def split: option.split)
  have dc: "distinct (map fst clean)" by (simp add: clean_def)
  then have dist: "distinct (map fst stored)"
    by (simp add: stored_def split: option.split)
  have stored: "map_of stored k = map_of clean k" if "k \<in> fst ` set clean" for k
    using map_of_dict_update_key [OF dc that] by (simp add: stored_def split: option.split)
  have lookup: "map_of (get_planner_config (upsert planner_key (JObj stored) d)) k = map_of clean k"
    if "k \<in> fst ` set clean" for k
  proof -
    have "map_of clean k \<noteq> Some JNull" by (auto simp: clean_def)
    moreover from that have "map_of clean k \<noteq> None" by (simp add: map_of_eq_None_iff)
    ultimately show ?thesis
      by (auto simp: get_planner_config_def get_setting_upsert merge_planner_config_lookup [OF dist]
          stored [OF that] simp del: merge_planner_config.simps split: option.split)
  qed
  have "policy_of (upsert planner_key (JObj stored) d)
    \<lparr>pol_ramp = [r1, r2, r3, r4], pol_full = full, pol_rate = rate,
     pol_interval = interval, pol_overflow = JStr policy\<rparr>"
    unfolding policy_of_def cfg_simps Let_def by (subst lookup, simp add: clean_def)+ (simp add: clean_def)
  with set show ?thesis by blast
qed

lemma policy_of_frame: "app_settings d' = app_settings d \<Longrightarrow> policy_of d' p = policy_of d p"
  by (simp add: policy_of_def get_planner_config_def get_setting_row_def)

lemma ensure_ip_warm_state_active:
  "row_by iw_ip ip (ip_warm_states (ensure_ip_warm_state now ip pool since d)) \<noteq> None"
  by (auto simp: ensure_ip_warm_state_def row_by_append split: option.splits)

section \<open>Properties\<close>

text \<open>
  The planner's settings form is authoritative: whatever was stored before, a submission
  with a known overflow policy succeeds, and the five values it holds are the ones the sending
  pipeline and the scheduler read afterwards.
\<close>

theorem planner_form_roundtrip:
  assumes "policy \<in> {''hard_stop'', ''defer''}"
  shows "\<exists>d'. update_planner_config r1 r2 r3 r4 full rate interval policy d = Inr d' \<and>
    policy_of d' \<lparr>pol_ramp = [r1, r2, r3, r4], pol_full = full, pol_rate = rate,
                  pol_interval = interval, pol_overflow = JStr policy\<rparr>"
  using assms by (rule update_planner_config_policy)

theorem planner_form_roundtrip_witness:
  "\<exists>d'. update_planner_config 1 2 3 4 5 6 7 ''defer'' empty_db = Inr d' \<and>
    policy_of d' \<lparr>pol_ramp = [1, 2, 3, 4], pol_full = 5, pol_rate = 6, pol_interval = 7, pol_overflow = JStr ''defer''\<rparr>"
  by (rule planner_form_roundtrip) simp

text \<open>
  The daily cap is the sum, over the active IPs, of what the policy grants an IP of that
  age: the value of its week on the ramp, then the full rate; without an active IP it is the
  first week's value, so sending never stops for want of warm-up rows.
\<close>

theorem daily_cap_is_ramp_sum:
  assumes "policy_of d p"
  shows "current_daily_cap now d =
    Inr (let states = filter iw_is_active (ip_warm_states d) in
         if states = [] then policy_cap p 0
         else sum_list (map (\<lambda>s. policy_cap p (age_in_days now (iw_warmed_since s))) states))"
  using assms by (rule current_daily_cap_policy)

theorem daily_cap_is_ramp_sum_witness:
  "current_daily_cap (days 8) (empty_db\<lparr>ip_warm_states :=
     [\<lparr>iw_id = 1, iw_ip = ''i'', iw_pool = None, iw_warmed_since = 0, iw_is_active = True\<rparr>,
      \<lparr>iw_id = 2, iw_ip = ''j'', iw_pool = None, iw_warmed_since = days 8, iw_is_active = True\<rparr>]\<rparr>) = Inr 7000"
proof -
  let ?d = "empty_db\<lparr>ip_warm_states :=
     [\<lparr>iw_id = 1, iw_ip = ''i'', iw_pool = None, iw_warmed_since = 0, iw_is_active = True\<rparr>,
      \<lparr>iw_id = 2, iw_ip = ''j'', iw_pool = None, iw_warmed_since = days 8, iw_is_active = True\<rparr>]\<rparr>"
  have "policy_of ?d default_policy"
    by (rule policy_of_default) (simp add: get_setting_row_def empty_db_def)
  from daily_cap_is_ramp_sum [OF this, of "days 8"] show ?thesis
    by (simp add: policy_cap_def default_policy_def age_in_days_def days_eq)
qed

end
