(* ===== verification/Calendar.thy ===== *)
theory Calendar
  imports Py_String
begin

text \<open>
  The proleptic Gregorian calendar of Python's \<open>datetime\<close> module, as far as the sources use
  it: ordinals and their inverse, \<open>weekday()\<close>, \<open>isoformat()\<close>, \<open>strftime("%Y%m%d")\<close> and the
  UTC day of an instant.  The two conversions follow \<open>_ymd2ord\<close> and \<open>_ord2ymd\<close> of CPython.
\<close>

datatype date = Date (year: int) (month: int) (day: int)

definition is_leap :: "int \<Rightarrow> bool" where
  "is_leap y = (y mod 4 = 0 \<and> (y mod 100 \<noteq> 0 \<or> y mod 400 = 0))"

definition days_before_year :: "int \<Rightarrow> int" where
  "days_before_year y = (y - 1) * 365 + (y - 1) div 4 - (y - 1) div 100 + (y - 1) div 400"

definition month_start :: "int \<Rightarrow> int" where
  "month_start m =
     (if m = 1 then 0 else if m = 2 then 31 else if m = 3 then 59 else if m = 4 then 90
      else if m = 5 then 120 else if m = 6 then 151 else if m = 7 then 181 else if m = 8 then 212
      else if m = 9 then 243 else if m = 10 then 273 else if m = 11 then 304 else 334)"

definition days_before_month :: "int \<Rightarrow> int \<Rightarrow> int" where
  "days_before_month y m = month_start m + (if m > 2 \<and> is_leap y then 1 else 0)"

definition days_in_month :: "int \<Rightarrow> int \<Rightarrow> int" where
  "days_in_month y m =
     (if m = 2 then (if is_leap y then 29 else 28)
      else if m \<in> {4, 6, 9, 11} then 30 else 31)"

definition toordinal :: "date \<Rightarrow> int" where
  "toordinal d = days_before_year (year d) + days_before_month (year d) (month d) + day d"

definition fromordinal :: "int \<Rightarrow> date" where
  "fromordinal k =
     (let n0 = k - 1;
          n400 = n0 div 146097; a = n0 mod 146097;
          n100 = a div 36524;   b = a mod 36524;
          n4 = b div 1461;      c = b mod 1461;
          n1 = c div 365;       n = c mod 365;
          y = n400 * 400 + 1 + n100 * 100 + n4 * 4 + n1
      in if n1 = 4 \<or> n100 = 4 then Date (y - 1) 12 31
         else let leap = (n1 = 3 \<and> (n4 \<noteq> 24 \<or> n100 = 3));
                  m = (n + 50) div 32;
                  preceding = month_start m + (if m > 2 \<and> leap then 1 else 0)
              in if preceding > n
                 then let m' = m - 1;
                          p' = preceding - ((if m' = 2 then 28 else if m' \<in> {4, 6, 9, 11} then 30 else 31)
                                 + (if m' = 2 \<and> leap then 1 else 0))
                      in Date y m' (n - p' + 1)
                 else Date y m (n - preceding + 1))"

definition valid_date :: "date \<Rightarrow> bool" where
  "valid_date d \<longleftrightarrow> 1 \<le> month d \<and> month d \<le> 12 \<and> 1 \<le> day d \<and> day d \<le> days_in_month (year d) (month d)"

text \<open>Monday is 0 and Sunday is 6.\<close>

definition weekday :: "date \<Rightarrow> int" where
  "weekday d = (toordinal d + 6) mod 7"

text \<open>1970-01-01 has ordinal 719163.\<close>

definition utc_date :: "instant \<Rightarrow> date" where
  "utc_date t = fromordinal (719163 + t div 86400000000)"

definition pad :: "nat \<Rightarrow> int \<Rightarrow> string" where
  "pad width n = (let s = show_int n in replicate (width - length s) CHR ''0'' @ s)"

definition isoformat :: "date \<Rightarrow> string" where
  "isoformat d = pad 4 (year d) @ ''-'' @ pad 2 (month d) @ ''-'' @ pad 2 (day d)"

definition strftime_ymd :: "date \<Rightarrow> string" where
  "strftime_ymd d = pad 4 (year d) @ pad 2 (month d) @ pad 2 (day d)"

lemma weekday_range: "0 \<le> weekday d" "weekday d \<le> 6"
  using pos_mod_bound [of 7 "toordinal d + 6"] by (simp_all add: weekday_def)

lemma weekday_in_month:
  "weekday (Date y m k) = (weekday (Date y m 1) + (k - 1)) mod 7"
proof -
  have "((toordinal (Date y m 1) + 6) mod 7 + (k - 1)) mod 7 = (toordinal (Date y m 1) + 6 + (k - 1)) mod 7"
    by (rule mod_add_left_eq)
  moreover have "toordinal (Date y m 1) + 6 + (k - 1) = toordinal (Date y m k) + 6"
    by (simp add: toordinal_def)
  ultimately show ?thesis by (simp only: weekday_def)
qed

end
