(* ===== verification/Redis.thy ===== *)
theory Redis
  imports Calendar
begin

text \<open>
  The part of Redis the sources use (the command semantics of the server): strings with
  \<open>SET NX EX\<close>, counters with \<open>INCR\<close>, hashes with \<open>HMGET\<close> and \<open>HSET\<close>, \<open>EXPIRE\<close> and \<open>DEL\<close>.
  The three kinds of key have their own prefixes in the sources (\<open>lock:send:\<close>; \<open>ipcap:\<close> and
  \<open>warmsent:\<close>; \<open>rl:\<close>), so each kind is a map of its own.  An entry carries the instant at
  which it expires; a token bucket is a hash with the two fields \<open>tokens\<close> and \<open>ts\<close>.
\<close>

type_synonym 'v entry = "'v \<times> instant option"

record redis =
  r_strings :: "string \<rightharpoonup> string entry"
  r_counters :: "string \<rightharpoonup> int entry"
  r_hashes :: "string \<rightharpoonup> (rat \<times> rat) entry"

definition empty_redis :: redis where
  "empty_redis = \<lparr>r_strings = Map.empty, r_counters = Map.empty, r_hashes = Map.empty\<rparr>"

fun live :: "instant \<Rightarrow> 'v entry option \<Rightarrow> 'v option" where
  "live now None = None"
| "live now (Some (v, None)) = Some v"
| "live now (Some (v, Some expiry)) = (if now < expiry then Some v else None)"

text \<open>The expiry of an entry that is still there (a command on an expired key starts afresh).\<close>

fun live_ttl :: "instant \<Rightarrow> 'v entry option \<Rightarrow> instant option" where
  "live_ttl now (Some (v, Some expiry)) = (if now < expiry then Some expiry else None)"
| "live_ttl now _ = None"

definition redis_set_nx :: "instant \<Rightarrow> string \<Rightarrow> string \<Rightarrow> int \<Rightarrow> redis \<Rightarrow> bool \<times> redis" where
  "redis_set_nx now key v ex r =
     (case live now (r_strings r key) of
        Some _ \<Rightarrow> (False, r)
      | None \<Rightarrow> (True, r\<lparr>r_strings := (r_strings r)(key \<mapsto> (v, Some (now + seconds ex)))\<rparr>))"

definition redis_delete :: "string \<Rightarrow> redis \<Rightarrow> redis" where
  "redis_delete key r = r\<lparr>r_strings := (r_strings r)(key := None)\<rparr>"

definition redis_get_counter :: "instant \<Rightarrow> string \<Rightarrow> redis \<Rightarrow> int option" where
  "redis_get_counter now key r = live now (r_counters r key)"

definition redis_incr :: "instant \<Rightarrow> string \<Rightarrow> redis \<Rightarrow> int \<times> redis" where
  "redis_incr now key r =
     (let n = (case redis_get_counter now key r of None \<Rightarrow> 0 | Some n \<Rightarrow> n) + 1
      in (n, r\<lparr>r_counters := (r_counters r)(key \<mapsto> (n, live_ttl now (r_counters r key)))\<rparr>))"

fun expire_entry :: "instant \<Rightarrow> int \<Rightarrow> 'v entry option \<Rightarrow> 'v entry option" where
  "expire_entry now secs old =
     (case live now old of
        None \<Rightarrow> None
      | Some v \<Rightarrow> if secs \<le> 0 then None else Some (v, Some (now + seconds secs)))"

definition redis_expire_counter :: "instant \<Rightarrow> string \<Rightarrow> int \<Rightarrow> redis \<Rightarrow> redis" where
  "redis_expire_counter now key secs r =
     r\<lparr>r_counters := (r_counters r)(key := expire_entry now secs (r_counters r key))\<rparr>"

definition redis_hget :: "instant \<Rightarrow> string \<Rightarrow> redis \<Rightarrow> (rat \<times> rat) option" where
  "redis_hget now key r = live now (r_hashes r key)"

definition redis_hset :: "instant \<Rightarrow> string \<Rightarrow> rat \<times> rat \<Rightarrow> redis \<Rightarrow> redis" where
  "redis_hset now key v r = r\<lparr>r_hashes := (r_hashes r)(key \<mapsto> (v, live_ttl now (r_hashes r key)))\<rparr>"

definition redis_expire_hash :: "instant \<Rightarrow> string \<Rightarrow> int \<Rightarrow> redis \<Rightarrow> redis" where
  "redis_expire_hash now key secs r =
     r\<lparr>r_hashes := (r_hashes r)(key := expire_entry now secs (r_hashes r key))\<rparr>"

section \<open>Lemmas\<close>

lemma live_ttl_live: "live_ttl now e = Some x \<Longrightarrow> live now e \<noteq> None"
  by (cases "(now, e)" rule: live_ttl.cases) (auto split: if_splits)

lemma live_with_ttl [simp]: "live now (Some (v, live_ttl now e)) = Some v"
  by (cases "(now, e)" rule: live_ttl.cases) auto

text \<open>The lock: one holder at a time while the entry lives.\<close>

lemma set_nx_locked: "redis_set_nx now key v ex r = (True, r') \<Longrightarrow> 0 < ex \<Longrightarrow>
    now \<le> t \<Longrightarrow> t < now + seconds ex \<Longrightarrow> live t (r_strings r' key) = Some v"
  by (auto simp: redis_set_nx_def seconds_def split: option.splits)

lemma set_nx_other: "redis_set_nx now key v ex r = (b, r') \<Longrightarrow> k \<noteq> key \<Longrightarrow> r_strings r' k = r_strings r k"
  by (auto simp: redis_set_nx_def split: option.splits)

lemma set_nx_frame [simp]:
  "r_counters (snd (redis_set_nx now key v ex r)) = r_counters r"
  "r_hashes (snd (redis_set_nx now key v ex r)) = r_hashes r"
  by (auto simp: redis_set_nx_def split: option.splits)

lemma redis_delete_frame [simp]:
  "r_counters (redis_delete k r) = r_counters r" "r_hashes (redis_delete k r) = r_hashes r"
  "r_strings (redis_delete k r) = (r_strings r)(k := None)"
  by (simp_all add: redis_delete_def)

end
