(* ===== verification/Rate_Limit.thy ===== *)
theory Rate_Limit
  imports Redis Config
begin

text \<open>
  Redis-backed rate pacing (\<open>app/services/rate_limit.py\<close>): the two token buckets taken
  all-or-nothing in a WATCH/MULTI transaction, the per-pool daily cap and the global warming
  counter.  Floats are exact rationals.  \<open>clock i\<close> is the instant \<open>time.time()\<close> of attempt
  \<open>i\<close> of the optimistic loop and \<open>clash i = Some r\<close> says that another worker touched a
  watched key during attempt \<open>i\<close> and left the store \<open>r\<close>, so that \<open>EXEC\<close> raised
  \<open>WatchError\<close>.  The server is reachable (\<open>RedisError\<close> is not modelled).
\<close>

section \<open>Token buckets\<close>

record bucket =
  b_key :: string
  b_capacity :: rat
  b_refill_per_sec :: rat
  b_requested :: rat

record acquire_result =
  ar_allowed :: bool
  ar_retry_after :: rat

definition timestamp :: "instant \<Rightarrow> rat" where
  "timestamp t = of_int t / 1000000"

definition trunc :: "rat \<Rightarrow> int" where
  "trunc q = (if q < 0 then - \<lfloor>- q\<rfloor> else \<lfloor>q\<rfloor>)"

definition bucket_level :: "instant \<Rightarrow> redis \<Rightarrow> bucket \<Rightarrow> rat" where
  "bucket_level now r b =
     (let raw = redis_hget now (b_key b) r;
          tokens = (case raw of None \<Rightarrow> b_capacity b | Some (tk, _) \<Rightarrow> tk);
          ts = (case raw of None \<Rightarrow> timestamp now | Some (_, t) \<Rightarrow> t)
      in min (b_capacity b) (tokens + max 0 (timestamp now - ts) * b_refill_per_sec b))"

definition bucket_ttl :: "bucket \<Rightarrow> int" where
  "bucket_ttl b = trunc (b_capacity b / b_refill_per_sec b) + 60"

definition write_bucket :: "instant \<Rightarrow> bool \<Rightarrow> bucket \<times> rat \<Rightarrow> redis \<Rightarrow> redis" where
  "write_bucket now allowed bt r =
     (case bt of (b, tokens) \<Rightarrow>
        redis_expire_hash now (b_key b) (bucket_ttl b)
          (redis_hset now (b_key b) (if allowed then tokens - b_requested b else tokens, timestamp now) r))"

definition retry_after_of :: "(bucket \<times> rat) list \<Rightarrow> rat" where
  "retry_after_of computed =
     fold (\<lambda>(b, tokens) retry.
       if tokens < b_requested b then max retry ((b_requested b - tokens) / b_refill_per_sec b) else retry)
       computed 0"

definition attempt :: "instant \<Rightarrow> bucket list \<Rightarrow> redis \<Rightarrow> acquire_result \<times> redis" where
  "attempt now buckets r =
     (let computed = map (\<lambda>b. (b, bucket_level now r b)) buckets;
          allowed = (\<forall>(b, tokens) \<in> set computed. \<not> tokens < b_requested b)
      in (\<lparr>ar_allowed = allowed, ar_retry_after = retry_after_of computed\<rparr>,
          fold (write_bucket now allowed) computed r))"

text \<open>
  A bucket that refills at rate 0 raises at the division, at the latest where its time to
  live is computed, before anything is written.
\<close>

fun acquire_loop ::
  "nat \<Rightarrow> nat \<Rightarrow> (nat \<Rightarrow> instant) \<Rightarrow> (nat \<Rightarrow> redis option) \<Rightarrow> bucket list \<Rightarrow> redis \<Rightarrow>
   exn + acquire_result \<times> redis" where
  "acquire_loop 0 i clock clash buckets r =
     Inr (\<lparr>ar_allowed = False, ar_retry_after = 1\<rparr>, r)"
| "acquire_loop (Suc n) i clock clash buckets r =
     (if \<exists>b \<in> set buckets. b_refill_per_sec b = 0 then Inl ZeroDivisionError
      else case clash i of
             None \<Rightarrow> Inr (attempt (clock i) buckets r)
           | Some r' \<Rightarrow> acquire_loop n (i + 1) clock clash buckets r')"

definition acquire ::
  "nat \<Rightarrow> (nat \<Rightarrow> instant) \<Rightarrow> (nat \<Rightarrow> redis option) \<Rightarrow> bucket list \<Rightarrow> redis \<Rightarrow>
   exn + acquire_result \<times> redis" where
  "acquire max_watch_retries clock clash buckets r =
     (if buckets = [] then Inr (\<lparr>ar_allowed = True, ar_retry_after = 0\<rparr>, r)
      else acquire_loop max_watch_retries 0 clock clash buckets r)"

definition per_minute_bucket :: "string \<Rightarrow> int \<Rightarrow> bucket" where
  "per_minute_bucket key per_minute =
     (let n = max 1 per_minute
      in \<lparr>b_key = key, b_capacity = of_int n, b_refill_per_sec = of_int n / 60, b_requested = 1\<rparr>)"

definition build_send_buckets :: "settings \<Rightarrow> string \<Rightarrow> int option \<Rightarrow> bucket list" where
  "build_send_buckets st domain global_per_minute =
     [per_minute_bucket ''rl:global''
        (case global_per_minute of
           None \<Rightarrow> rate_global_per_minute st
         | Some n \<Rightarrow> if n = 0 then rate_global_per_minute st else n),
      per_minute_bucket (''rl:dom:'' @ domain) (rate_per_domain_per_minute st)]"

section \<open>Daily counters\<close>

definition seconds_until_midnight_utc :: "instant \<Rightarrow> int" where
  "seconds_until_midnight_utc now =
     max 60 (((now div days 1 + 1) * days 1 - now) div seconds 1)"

record daily_cap_result =
  dc_allowed :: bool
  dc_used :: int
  dc_cap :: int
  dc_retry_after :: int

definition daily_key :: "instant \<Rightarrow> string \<Rightarrow> string" where
  "daily_key now ip_pool = ''ipcap:'' @ ip_pool @ '':'' @ strftime_ymd (utc_date now)"

definition daily_cap_usage :: "instant \<Rightarrow> string \<Rightarrow> redis \<Rightarrow> int" where
  "daily_cap_usage now ip_pool r =
     (case redis_get_counter now (daily_key now ip_pool) r of None \<Rightarrow> 0 | Some n \<Rightarrow> n)"

definition is_under_daily_cap :: "settings \<Rightarrow> instant \<Rightarrow> string \<Rightarrow> int option \<Rightarrow> redis \<Rightarrow> daily_cap_result" where
  "is_under_daily_cap st now ip_pool cap_arg r =
     (let cap = (case cap_arg of None \<Rightarrow> per_ip_daily_cap st | Some c \<Rightarrow> c);
          used = daily_cap_usage now ip_pool r
      in if used \<ge> cap
         then \<lparr>dc_allowed = False, dc_used = used, dc_cap = cap,
               dc_retry_after = seconds_until_midnight_utc now\<rparr>
         else \<lparr>dc_allowed = True, dc_used = used, dc_cap = cap, dc_retry_after = 0\<rparr>)"

definition count_send :: "instant \<Rightarrow> string \<Rightarrow> redis \<Rightarrow> int \<times> redis" where
  "count_send now key r =
     (let (used, r1) = redis_incr now key r
      in (used, if used = 1 then redis_expire_counter now key (seconds_until_midnight_utc now + 3600) r1 else r1))"

definition record_daily_send :: "instant \<Rightarrow> string \<Rightarrow> redis \<Rightarrow> int \<times> redis" where
  "record_daily_send now ip_pool r = count_send now (daily_key now ip_pool) r"

definition global_key :: "instant \<Rightarrow> string" where
  "global_key now = ''warmsent:'' @ strftime_ymd (utc_date now)"

definition global_sent_today :: "instant \<Rightarrow> redis \<Rightarrow> int" where
  "global_sent_today now r =
     (case redis_get_counter now (global_key now) r of None \<Rightarrow> 0 | Some n \<Rightarrow> n)"

definition record_global_send :: "instant \<Rightarrow> redis \<Rightarrow> int \<times> redis" where
  "record_global_send now r = count_send now (global_key now) r"

section \<open>The token bucket bound\<close>

definition bucket_wf :: "bucket \<Rightarrow> bool" where
  "bucket_wf b \<longleftrightarrow> 0 \<le> b_capacity b \<and> 0 < b_refill_per_sec b \<and> 0 < b_requested b"

lemma per_minute_bucket_wf [simp]: "bucket_wf (per_minute_bucket k n)"
  by (auto simp: bucket_wf_def per_minute_bucket_def Let_def max_def)

text \<open>What an entry of the store promises about a bucket at instant \<open>t\<close>.\<close>

definition bucket_inv :: "instant \<Rightarrow> redis \<Rightarrow> bucket \<Rightarrow> bool" where
  "bucket_inv t r b \<longleftrightarrow>
     (case r_hashes r (b_key b) of
        None \<Rightarrow> True
      | Some ((tokens, ts), expiry) \<Rightarrow>
          0 \<le> tokens \<and> tokens \<le> b_capacity b \<and>
          (\<exists>t0 \<le> t. ts = timestamp t0 \<and> expiry = Some (t0 + seconds (bucket_ttl b))))"

lemma timestamp_diff: "timestamp (t0 + seconds n) - timestamp t0 = of_int n"
  by (simp add: timestamp_def seconds_def field_simps)

lemma timestamp_mono: "t \<le> t' \<Longrightarrow> timestamp t \<le> timestamp t'"
  by (simp add: timestamp_def divide_right_mono)

lemma bucket_ttl_pos: "bucket_wf b \<Longrightarrow> 0 < bucket_ttl b"
proof -
  assume "bucket_wf b"
  then have "0 \<le> b_capacity b / b_refill_per_sec b" by (simp add: bucket_wf_def)
  then have "0 \<le> \<lfloor>b_capacity b / b_refill_per_sec b\<rfloor>" by simp
  then have "0 < \<lfloor>b_capacity b / b_refill_per_sec b\<rfloor> + 60" by linarith
  then show ?thesis using \<open>0 \<le> b_capacity b / b_refill_per_sec b\<close> by (simp add: bucket_ttl_def trunc_def)
qed

lemma bucket_ttl_refills: "bucket_wf b \<Longrightarrow> b_capacity b \<le> of_int (bucket_ttl b) * b_refill_per_sec b"
proof -
  assume wf: "bucket_wf b"
  let ?q = "b_capacity b / b_refill_per_sec b"
  have "0 \<le> ?q" using wf by (simp add: bucket_wf_def)
  then have "of_int (bucket_ttl b) = of_int \<lfloor>?q\<rfloor> + (60 :: rat)" by (simp add: bucket_ttl_def trunc_def)
  then have "?q \<le> of_int (bucket_ttl b)" using floor_correct [of ?q] by linarith
  then show ?thesis using wf by (simp add: bucket_wf_def divide_le_eq)
qed

lemma bucket_level_range:
  assumes "bucket_wf b" "bucket_inv t r b"
  shows "0 \<le> bucket_level t r b" "bucket_level t r b \<le> b_capacity b"
proof -
  show "bucket_level t r b \<le> b_capacity b" by (simp add: bucket_level_def Let_def)
  have "0 \<le> max 0 (timestamp t - ts) * b_refill_per_sec b" for ts
    using assms(1) by (simp add: bucket_wf_def)
  then have grow: "0 \<le> x \<Longrightarrow> 0 \<le> x + max 0 (timestamp t - ts) * b_refill_per_sec b" for x ts
    by (simp add: add_nonneg_nonneg)
  show "0 \<le> bucket_level t r b"
  proof (cases "redis_hget t (b_key b) r")
    case None
    with assms(1) show ?thesis by (simp add: bucket_level_def bucket_wf_def Let_def)
  next
    case (Some v)
    then obtain tk ts e where "r_hashes r (b_key b) = Some ((tk, ts), e)" "v = (tk, ts)"
      by (cases "(t, r_hashes r (b_key b))" rule: live.cases) (auto simp: redis_hget_def split: if_splits)
    with assms(2) Some grow [of tk ts] assms(1) show ?thesis
      by (auto simp: bucket_level_def bucket_inv_def bucket_wf_def Let_def)
  qed
qed

text \<open>
  Time adds at most the refill.  An entry that expires makes no difference: its time to live
  is long enough for the bucket to be full again.
\<close>

lemma bucket_level_grows:
  assumes wf: "bucket_wf b" and inv: "bucket_inv t r b" and "t \<le> t'"
  shows "bucket_level t' r b \<le> bucket_level t r b + b_refill_per_sec b * (timestamp t' - timestamp t)"
proof -
  let ?c = "b_capacity b" and ?f = "b_refill_per_sec b"
  have f: "0 < ?f" and c: "0 \<le> ?c" using wf by (simp_all add: bucket_wf_def)
  have dt: "0 \<le> ?f * (timestamp t' - timestamp t)" using f timestamp_mono [OF assms(3)] by simp
  show ?thesis
  proof (cases "redis_hget t (b_key b) r")
    case None
    then have "bucket_level t r b = ?c" by (simp add: bucket_level_def Let_def)
    with dt show ?thesis by (simp add: bucket_level_def Let_def add_increasing2 min.coboundedI1)
  next
    case (Some v)
    then obtain tk ts e where e: "r_hashes r (b_key b) = Some ((tk, ts), e)" and v: "v = (tk, ts)"
      by (cases "(t, r_hashes r (b_key b))" rule: live.cases) (auto simp: redis_hget_def split: if_splits)
    with inv obtain t0 where t0: "t0 \<le> t" "ts = timestamp t0" "0 \<le> tk" "tk \<le> ?c"
      and ex: "e = Some (t0 + seconds (bucket_ttl b))" by (auto simp: bucket_inv_def)
    have now: "bucket_level t r b = min ?c (tk + (timestamp t - timestamp t0) * ?f)"
      using Some v t0 timestamp_mono [OF t0(1)] by (simp add: bucket_level_def Let_def)
    have step: "min ?c (tk + (timestamp t' - timestamp t0) * ?f) \<le>
        min ?c (tk + (timestamp t - timestamp t0) * ?f) + ?f * (timestamp t' - timestamp t)"
      using dt by (simp add: min_def algebra_simps)
    show ?thesis
    proof (cases "t' < t0 + seconds (bucket_ttl b)")
      case True
      then have "bucket_level t' r b = min ?c (tk + (timestamp t' - timestamp t0) * ?f)"
        using e ex t0 timestamp_mono [of t0 t'] assms(3)
        by (simp add: bucket_level_def Let_def redis_hget_def)
      with step now show ?thesis by simp
    next
      case False
      then have "of_int (bucket_ttl b) \<le> timestamp t' - timestamp t0"
        using timestamp_mono [of "t0 + seconds (bucket_ttl b)" t'] timestamp_diff [of t0 "bucket_ttl b"] by simp
      then have "of_int (bucket_ttl b) * ?f \<le> (timestamp t' - timestamp t0) * ?f"
        using f by (simp add: mult_right_mono)
      with bucket_ttl_refills [OF wf] t0(3)
      have "?c \<le> tk + (timestamp t' - timestamp t0) * ?f" by linarith
      moreover have "bucket_level t' r b \<le> ?c" by (simp add: bucket_level_def Let_def)
      ultimately show ?thesis using step now by (simp add: min_def split: if_splits)
    qed
  qed
qed

text \<open>What a transaction writes.\<close>

lemma write_bucket_hash:
  "0 < bucket_ttl b \<Longrightarrow> r_hashes (write_bucket now a (b, tk) r) =
     (r_hashes r)(b_key b \<mapsto> ((if a then tk - b_requested b else tk, timestamp now), Some (now + seconds (bucket_ttl b))))"
  by (simp add: write_bucket_def redis_expire_hash_def redis_hset_def)

lemma write_bucket_frame [simp]:
  "r_strings (write_bucket now a bt r) = r_strings r" "r_counters (write_bucket now a bt r) = r_counters r"
  by (simp_all add: write_bucket_def redis_expire_hash_def redis_hset_def split: prod.split)

lemma fold_write_frame [simp]:
  "r_strings (fold (write_bucket now a) bts r) = r_strings r"
  "r_counters (fold (write_bucket now a) bts r) = r_counters r"
  by (induction bts arbitrary: r) simp_all

lemma fold_write_hash:
  assumes "\<And>b tk. (b, tk) \<in> set bts \<Longrightarrow> 0 < bucket_ttl b" "distinct (map (b_key \<circ> fst) bts)"
  shows "r_hashes (fold (write_bucket now a) bts r) k =
    (case find (\<lambda>(b, tk). b_key b = k) bts of
       None \<Rightarrow> r_hashes r k
     | Some (b, tk) \<Rightarrow>
         Some ((if a then tk - b_requested b else tk, timestamp now), Some (now + seconds (bucket_ttl b))))"
  using assms
proof (induction bts arbitrary: r)
  case (Cons bt bts)
  obtain b tk where bt: "bt = (b, tk)" by (cases bt)
  with Cons.prems have ttl: "0 < bucket_ttl b" by auto
  have "find (\<lambda>(b', tk). b_key b' = b_key b) bts = None"
    using Cons.prems(2) by (force simp: find_None_iff bt)
  moreover have "r_hashes (fold (write_bucket now a) bts (write_bucket now a (b, tk) r)) k =
    (case find (\<lambda>(b, tk). b_key b = k) bts of
       None \<Rightarrow> r_hashes (write_bucket now a (b, tk) r) k
     | Some (b, tk) \<Rightarrow>
         Some ((if a then tk - b_requested b else tk, timestamp now), Some (now + seconds (bucket_ttl b))))"
    using Cons.prems by (intro Cons.IH) (auto simp: bt)
  ultimately show ?case
    using ttl by (auto simp: bt write_bucket_hash split: option.split)
qed simp

lemma attempt_hash:
  assumes "\<forall>b \<in> set bs. bucket_wf b" "distinct (map b_key bs)" "b \<in> set bs"
  shows "r_hashes (snd (attempt now bs r)) (b_key b) =
    Some ((if ar_allowed (fst (attempt now bs r)) then bucket_level now r b - b_requested b
           else bucket_level now r b, timestamp now), Some (now + seconds (bucket_ttl b)))"
proof -
  let ?c = "map (\<lambda>b. (b, bucket_level now r b)) bs"
  have "find (\<lambda>(b', tk). b_key b' = b_key b) ?c = Some (b, bucket_level now r b)"
    using assms(2,3) by (induction bs) (auto simp: image_iff)
  moreover have "distinct (map (b_key \<circ> fst) ?c)" using assms(2) by (simp add: comp_def)
  ultimately show ?thesis
    using fold_write_hash [of ?c now] assms(1) bucket_ttl_pos
    by (force simp: attempt_def Let_def)
qed

lemma attempt_other:
  assumes "\<forall>b \<in> set bs. bucket_wf b" "distinct (map b_key bs)" "k \<notin> b_key ` set bs"
  shows "r_hashes (snd (attempt now bs r)) k = r_hashes r k"
proof -
  let ?c = "map (\<lambda>b. (b, bucket_level now r b)) bs"
  have "find (\<lambda>(b', tk). b_key b' = k) ?c = None"
    using assms(3) by (auto simp: find_None_iff)
  moreover have "distinct (map (b_key \<circ> fst) ?c)" using assms(2) by (simp add: comp_def)
  ultimately show ?thesis
    using fold_write_hash [of ?c now] assms(1) bucket_ttl_pos
    by (force simp: attempt_def Let_def)
qed

lemma attempt_allowed:
  "ar_allowed (fst (attempt now bs r)) \<longleftrightarrow> (\<forall>b \<in> set bs. b_requested b \<le> bucket_level now r b)"
  by (auto simp: attempt_def Let_def not_less)

text \<open>All or nothing: a token leaves every bucket, or none does.\<close>

lemma attempt_level:
  assumes "\<forall>b \<in> set bs. bucket_wf b" "distinct (map b_key bs)" "b \<in> set bs"
  shows "bucket_level now (snd (attempt now bs r)) b =
    (if ar_allowed (fst (attempt now bs r)) then bucket_level now r b - b_requested b
     else bucket_level now r b)"
proof -
  from assms have "bucket_wf b" by blast
  then have "0 < bucket_ttl b" "0 < b_requested b" using bucket_ttl_pos by (simp_all add: bucket_wf_def)
  then have "0 < seconds (bucket_ttl b)" by (simp add: seconds_def)
  moreover have "bucket_level now r b \<le> b_capacity b" by (simp add: bucket_level_def Let_def)
  ultimately show ?thesis using \<open>0 < b_requested b\<close>
    by (subst bucket_level_def) (simp add: redis_hget_def attempt_hash [OF assms] Let_def)
qed

lemma attempt_inv:
  assumes "\<forall>b \<in> set bs. bucket_wf b" "distinct (map b_key bs)"
    and "bucket_wf b" "bucket_inv t r b" "t \<le> now" "\<forall>b' \<in> set bs. b_key b' = b_key b \<longrightarrow> b' = b"
  shows "bucket_inv now (snd (attempt now bs r)) b"
proof (cases "b \<in> set bs")
  case True
  from assms have inv: "bucket_inv now r b"
    by (fastforce simp: bucket_inv_def split: option.splits)
  note rng = bucket_level_range [OF assms(3) inv]
  have "ar_allowed (fst (attempt now bs r)) \<Longrightarrow> b_requested b \<le> bucket_level now r b"
    using True by (simp add: attempt_allowed)
  moreover have "0 < b_requested b" using assms(3) by (simp add: bucket_wf_def)
  ultimately show ?thesis
    using rng by (auto simp: bucket_inv_def attempt_hash [OF assms(1,2) True])
next
  case False
  then have "b_key b \<notin> b_key ` set bs" using assms(6) by auto
  then show ?thesis using assms(4,5) by (fastforce simp: bucket_inv_def attempt_other [OF assms(1,2)] split: option.splits)
qed

section \<open>Sequences of calls\<close>

text \<open>An acquisition is one transaction on the store as the last clash left it, or it gives up.\<close>

lemma acquire_loop_atomic:
  assumes "acquire_loop n i clock clash bs r = Inr (res, r')"
  shows "(\<exists>j \<ge> i. clash j = None \<and> (\<exists>r0. (res, r') = attempt (clock j) bs r0 \<and>
            (r0 = r \<or> (\<exists>k. clash k = Some r0)))) \<or>
         (\<not> ar_allowed res \<and> ar_retry_after res = 1 \<and> (r' = r \<or> (\<exists>k. clash k = Some r')))"
  using assms
proof (induction n i clock clash bs r rule: acquire_loop.induct)
  case (2 n i clock clash bs r)
  from "2.prems" have ok: "\<not> (\<exists>b \<in> set bs. b_refill_per_sec b = 0)" by (auto split: if_splits)
  show ?case
  proof (cases "clash i")
    case None
    with "2.prems" ok show ?thesis by (auto intro!: disjI1 exI [of _ i] exI [of _ r] split: if_splits)
  next
    case (Some r1)
    with "2.prems" ok have "acquire_loop n (i + 1) clock clash bs r1 = Inr (res, r')" by (auto split: if_splits)
    from "2.IH" [OF ok Some this] Some show ?thesis by (meson add_leE)
  qed
qed auto

lemma acquire_quiet:
  "bs \<noteq> [] \<Longrightarrow> \<forall>b \<in> set bs. bucket_wf b \<Longrightarrow> 0 < n \<Longrightarrow>
   acquire n (\<lambda>_. t) (\<lambda>_. None) bs r = Inr (attempt t bs r)"
  by (cases n) (auto simp: acquire_def bucket_wf_def)

fun grants :: "(instant \<times> bucket list) list \<Rightarrow> redis \<Rightarrow> bucket list list" where
  "grants [] r = []"
| "grants ((t, bs) # calls) r =
     (case acquire 25 (\<lambda>_. t) (\<lambda>_. None) bs r of
        Inl e \<Rightarrow> grants calls r
      | Inr (res, r') \<Rightarrow> (if ar_allowed res then [bs] else []) @ grants calls r')"

definition call_ok :: "bucket \<Rightarrow> bucket list \<Rightarrow> bool" where
  "call_ok b bs \<longleftrightarrow> bs \<noteq> [] \<and> (\<forall>b' \<in> set bs. bucket_wf b') \<and> distinct (map b_key bs) \<and>
     (\<forall>b' \<in> set bs. b_key b' = b_key b \<longrightarrow> b' = b)"

lemma bucket_level_other:
  "call_ok b bs \<Longrightarrow> b \<notin> set bs \<Longrightarrow> bucket_level t (snd (attempt now bs r)) b = bucket_level t r b"
  by (subst (1 2) bucket_level_def, subst redis_hget_def, subst attempt_other)
     (auto simp: call_ok_def redis_hget_def)

lemma token_bucket_bound:
  assumes "bucket_wf b" "bucket_inv t0 r b" "sorted (map fst calls)" "t0 \<le> T"
    and "\<forall>(t, bs) \<in> set calls. t0 \<le> t \<and> t \<le> T \<and> call_ok b bs"
  shows "of_nat (length (filter (\<lambda>bs. b \<in> set bs) (grants calls r))) * b_requested b
    \<le> bucket_level t0 r b + b_refill_per_sec b * (timestamp T - timestamp t0)"
  using assms
proof (induction calls arbitrary: r t0)
  case Nil
  then have "0 \<le> b_refill_per_sec b * (timestamp T - timestamp t0)"
    using timestamp_mono [of t0 T] by (simp add: bucket_wf_def)
  with Nil show ?case using bucket_level_range(1) [of b t0 r] by simp
next
  case (Cons call calls)
  obtain t bs where call: "call = (t, bs)" by (cases call)
  with Cons.prems have ok: "call_ok b bs" and t: "t0 \<le> t" "t \<le> T" by auto
  define res where "res = fst (attempt t bs r)"
  define r' where "r' = snd (attempt t bs r)"
  have acq: "acquire 25 (\<lambda>_. t) (\<lambda>_. None) bs r = Inr (res, r')"
    using acquire_quiet [of bs 25 t r] ok by (simp add: res_def r'_def call_ok_def)
  have inv: "bucket_inv t r' b"
    using attempt_inv [of bs b t0 r t] Cons.prems(1,2) ok t by (simp add: r'_def call_ok_def)
  have IH: "of_nat (length (filter (\<lambda>bs. b \<in> set bs) (grants calls r'))) * b_requested b
      \<le> bucket_level t r' b + b_refill_per_sec b * (timestamp T - timestamp t)"
    using Cons.prems inv t call by (intro Cons.IH) auto
  have spent: "bucket_level t r' b + (if ar_allowed res \<and> b \<in> set bs then b_requested b else 0) = bucket_level t r b"
  proof (cases "b \<in> set bs")
    case True
    with attempt_level [of bs b t r] ok show ?thesis by (simp add: r'_def res_def call_ok_def)
  next
    case False
    with bucket_level_other [OF ok, of t t r] show ?thesis by (simp add: r'_def)
  qed
  have "bucket_level t r b \<le> bucket_level t0 r b + b_refill_per_sec b * (timestamp t - timestamp t0)"
    using bucket_level_grows Cons.prems(1,2) t(1) by blast
  with IH spent have "of_nat (length (filter (\<lambda>bs. b \<in> set bs) (grants calls r'))) * b_requested b +
      (if ar_allowed res \<and> b \<in> set bs then b_requested b else 0)
      \<le> bucket_level t0 r b + b_refill_per_sec b * (timestamp T - timestamp t0)"
    by (simp add: algebra_simps)
  then show ?case
    by (cases "ar_allowed res"; cases "b \<in> set bs") (simp_all add: call acq algebra_simps)
qed

lemma send_buckets_ok:
  "call_ok (per_minute_bucket ''rl:global'' n) (build_send_buckets st dmn (Some n))" if "n \<noteq> 0"
  using that by (simp add: call_ok_def build_send_buckets_def) (simp add: per_minute_bucket_def Let_def)

lemma domain_buckets_ok:
  "call_ok (per_minute_bucket (''rl:dom:'' @ dmn) (rate_per_domain_per_minute st))
     (build_send_buckets st dmn' (Some n))"
  by (simp add: call_ok_def build_send_buckets_def) (auto simp: per_minute_bucket_def Let_def)

section \<open>Counting the sends of a day\<close>

definition same_day :: "instant \<Rightarrow> instant \<Rightarrow> bool" where
  "same_day t t' \<longleftrightarrow> t div days 1 = t' div days 1"

lemma same_day_keys: "same_day t t' \<Longrightarrow> daily_key t pool = daily_key t' pool \<and> global_key t = global_key t'"
  by (simp add: same_day_def daily_key_def global_key_def utc_date_def days_eq)

text \<open>A counter that counts the current day outlives the day.\<close>

definition outlives_day :: "instant \<Rightarrow> instant option \<Rightarrow> bool" where
  "outlives_day t e = (case e of None \<Rightarrow> True | Some x \<Rightarrow> (t div days 1 + 1) * days 1 \<le> x)"

lemma day_end: "same_day t t' \<Longrightarrow> t' < (t div days 1 + 1) * days 1"
  using pos_mod_bound [of "days 1" t'] div_mult_mod_eq [of t' "days 1"]
  by (simp add: same_day_def days_eq algebra_simps)

lemma midnight_ttl: "(t div days 1 + 1) * days 1 \<le> t + seconds (seconds_until_midnight_utc t + 3600)"
proof -
  let ?d = "(t div days 1 + 1) * days 1 - t"
  have "?d - 1000000 \<le> (?d div 1000000) * 1000000"
    using div_mult_mod_eq [of ?d 1000000] pos_mod_bound [of 1000000 ?d] by linarith
  then show ?thesis by (simp add: seconds_until_midnight_utc_def seconds_def max_def algebra_simps)
qed

definition counter_ok :: "instant \<Rightarrow> string \<Rightarrow> redis \<Rightarrow> bool" where
  "counter_ok t key r \<longleftrightarrow>
     (case live t (r_counters r key) of
        None \<Rightarrow> True
      | Some n \<Rightarrow> 1 \<le> n \<and> outlives_day t (live_ttl t (r_counters r key)))"

lemma live_later:
  assumes "outlives_day t (live_ttl t e)" "same_day t t'" "live t e = Some n"
  shows "live t' e = Some n" "live_ttl t' e = live_ttl t e"
  using assms day_end [OF assms(2)]
  by (cases "(t, e)" rule: live_ttl.cases; auto simp: outlives_day_def split: if_splits)+

lemma count_send_counter:
  assumes "counter_ok t key r" "same_day t t'"
  shows "counter_ok t key (snd (count_send t key r))"
    and "redis_get_counter t' key (snd (count_send t key r)) =
      Some (1 + (case redis_get_counter t key r of None \<Rightarrow> 0 | Some n \<Rightarrow> n))"
    and "fst (count_send t key r) = 1 + (case redis_get_counter t key r of None \<Rightarrow> 0 | Some n \<Rightarrow> n)"
proof -
  define n where "n = (case redis_get_counter t key r of None \<Rightarrow> 0 | Some n \<Rightarrow> n)"
  let ?e = "r_counters r key" and ?e' = "r_counters (snd (count_send t key r)) key"
  have n: "0 \<le> n" "n = 0 \<longleftrightarrow> live t ?e = None"
    using assms(1) by (auto simp: n_def counter_ok_def redis_get_counter_def split: option.splits)
  have later: "0 < seconds (seconds_until_midnight_utc t + 3600)" "\<not> seconds_until_midnight_utc t + 3600 \<le> 0"
    by (simp_all add: seconds_def seconds_until_midnight_utc_def)
  have e': "?e' = (if n = 0 then Some (1, Some (t + seconds (seconds_until_midnight_utc t + 3600)))
                  else Some (n + 1, live_ttl t ?e))"
    using later n_def by (simp add: count_send_def redis_incr_def redis_expire_counter_def Let_def)
  have outl: "outlives_day t (live_ttl t ?e') \<and> live t ?e' = Some (n + 1)"
  proof (cases "n = 0")
    case True
    with later show ?thesis using midnight_ttl [of t] by (simp add: e' outlives_day_def)
  next
    case False
    with n obtain k where "live t ?e = Some k" by auto
    with assms(1) have out: "outlives_day t (live_ttl t ?e)" by (simp add: counter_ok_def)
    have "live_ttl t (Some (n + 1, live_ttl t ?e)) = live_ttl t ?e"
      by (cases "(t, ?e)" rule: live_ttl.cases) auto
    with False out show ?thesis by (simp add: e')
  qed
  then show "counter_ok t key (snd (count_send t key r))"
    using n(1) by (simp add: counter_ok_def)
  from outl show "redis_get_counter t' key (snd (count_send t key r)) =
      Some (1 + (case redis_get_counter t key r of None \<Rightarrow> 0 | Some n \<Rightarrow> n))"
    using live_later(1) [OF _ assms(2), of ?e' "n + 1"] by (simp add: redis_get_counter_def n_def)
  show "fst (count_send t key r) = 1 + (case redis_get_counter t key r of None \<Rightarrow> 0 | Some n \<Rightarrow> n)"
    by (simp add: count_send_def redis_incr_def Let_def)
qed

lemma counter_ok_later: "counter_ok t key r \<Longrightarrow> same_day t t' \<Longrightarrow> t \<le> t' \<Longrightarrow> counter_ok t' key r"
proof -
  assume ok: "counter_ok t key r" and d: "same_day t t'" "t \<le> t'"
  let ?e = "r_counters r key"
  show ?thesis
  proof (cases "live t ?e")
    case None
    then have "live t' ?e = None" using d(2) by (cases "(t, ?e)" rule: live.cases) (auto split: if_splits)
    then show ?thesis by (simp add: counter_ok_def)
  next
    case (Some n)
    with ok have "1 \<le> n" "outlives_day t (live_ttl t ?e)" by (simp_all add: counter_ok_def)
    with live_later [OF this(2) d(1) Some] d(1) show ?thesis
      by (cases "live_ttl t ?e") (simp_all add: counter_ok_def outlives_day_def same_day_def)
  qed
qed

lemma count_send_frame [simp]:
  "r_strings (snd (count_send t key r)) = r_strings r" "r_hashes (snd (count_send t key r)) = r_hashes r"
  by (simp_all add: count_send_def redis_incr_def redis_expire_counter_def Let_def)

lemma count_send_other [simp]: "k \<noteq> key \<Longrightarrow> r_counters (snd (count_send t key r)) k = r_counters r k"
  by (simp add: count_send_def redis_incr_def redis_expire_counter_def Let_def)

lemma count_send_adds:
  "redis_get_counter now key (snd (count_send now key r)) =
     Some ((case redis_get_counter now key r of None \<Rightarrow> 0 | Some n \<Rightarrow> n) + 1)"
proof -
  have "0 < seconds_until_midnight_utc now + 3600" by (simp add: seconds_until_midnight_utc_def)
  then show ?thesis
    by (simp add: count_send_def redis_incr_def redis_expire_counter_def redis_get_counter_def Let_def seconds_def)
qed

lemma keys_differ [simp]: "global_key now \<noteq> daily_key now' pool" "daily_key now' pool \<noteq> global_key now"
  by (simp_all add: global_key_def daily_key_def)

text \<open>The two counters of a message that was sent: each is moved by its own record.\<close>

lemma global_send_adds: "global_sent_today now (snd (record_global_send now r)) = global_sent_today now r + 1"
  by (simp add: global_sent_today_def record_global_send_def count_send_adds)

lemma pool_send_adds: "daily_cap_usage now pool (snd (record_daily_send now pool r)) = daily_cap_usage now pool r + 1"
  by (simp add: daily_cap_usage_def record_daily_send_def count_send_adds)

lemma pool_send_keeps: "global_sent_today now (snd (record_daily_send now pool r)) = global_sent_today now r"
  by (simp add: global_sent_today_def record_daily_send_def redis_get_counter_def)

lemma global_send_keeps: "daily_cap_usage now pool (snd (record_global_send now r)) = daily_cap_usage now pool r"
  by (simp add: daily_cap_usage_def record_global_send_def redis_get_counter_def)

lemma same_counters:
  "r_counters r' = r_counters r \<Longrightarrow> global_sent_today now r' = global_sent_today now r"
  "r_counters r' = r_counters r \<Longrightarrow> daily_cap_usage now pool r' = daily_cap_usage now pool r"
  "r_counters r' = r_counters r \<Longrightarrow> counter_ok now key r' = counter_ok now key r"
  by (simp_all add: global_sent_today_def daily_cap_usage_def redis_get_counter_def counter_ok_def split: option.split)

lemma sent_today_delete [simp]:
  "global_sent_today now (redis_delete key r) = global_sent_today now r"
  "daily_cap_usage now pool (redis_delete key r) = daily_cap_usage now pool r"
  by (rule same_counters, simp)+

lemma attempt_counters [simp]: "r_counters (snd (attempt now bs r)) = r_counters r"
  by (simp add: attempt_def Let_def)

lemma acquire_loop_counters:
  "acquire_loop m i clock clash bs r = Inr (res, r') \<Longrightarrow> (\<forall>j s. clash j = Some s \<longrightarrow> r_counters s = c) \<Longrightarrow>
   r_counters r = c \<Longrightarrow> r_counters r' = c"
proof (induction m i clock clash bs r rule: acquire_loop.induct)
  case (2 m i clock clash bs r)
  from "2.prems"(1) have nz: "\<not> (\<exists>b \<in> set bs. b_refill_per_sec b = 0)" by (auto split: if_splits)
  show ?case
  proof (cases "clash i")
    case None
    with nz "2.prems" have "r' = snd (attempt (clock i) bs r)" by (auto split: if_splits)
    with "2.prems"(3) show ?thesis by simp
  next
    case (Some r1)
    with nz "2.prems"(1) have "acquire_loop m (i + 1) clock clash bs r1 = Inr (res, r')" by (simp split: if_splits)
    from "2.IH" [OF nz Some this "2.prems"(2)] "2.prems"(2) Some show ?thesis by blast
  qed
qed simp

lemma acquire_counters:
  "acquire m clock clash bs r = Inr (res, r') \<Longrightarrow> (\<forall>j s. clash j = Some s \<longrightarrow> r_counters s = r_counters r) \<Longrightarrow>
   r_counters r' = r_counters r"
  using acquire_loop_counters [of m 0 clock clash bs r res r' "r_counters r"]
  by (auto simp: acquire_def split: if_splits)

section \<open>Properties\<close>

lemma grants_bound:
  assumes "per_minute_bucket k n = b" "bucket_inv t0 r b" "sorted (map fst calls)" "t0 \<le> T"
    and "\<forall>(t, bs) \<in> set calls. t0 \<le> t \<and> t \<le> T \<and> call_ok b bs"
  shows "of_nat (length (filter (\<lambda>bs. b \<in> set bs) (grants calls r))) \<le>
    of_int (max 1 n) * (1 + (timestamp T - timestamp t0) / 60)"
proof -
  have b: "bucket_wf b" "b_requested b = 1" "b_refill_per_sec b = of_int (max 1 n) / 60"
    "b_capacity b = of_int (max 1 n)"
    using per_minute_bucket_wf [of k n] by (simp_all add: assms(1) [symmetric]) (simp_all add: per_minute_bucket_def Let_def)
  have "bucket_level t0 r b \<le> b_capacity b" by (simp add: bucket_level_def Let_def)
  with token_bucket_bound [OF b(1) assms(2-5)] show ?thesis
    by (simp add: b(2-4) algebra_simps add_divide_distrib)
qed

lemma grants_subset: "bs \<in> set (grants calls r) \<Longrightarrow> bs \<in> snd ` set calls"
  by (induction calls r rule: grants.induct) (auto split: sum.splits if_splits)

definition paced_calls :: "settings \<Rightarrow> int \<Rightarrow> (instant \<times> string) list \<Rightarrow> (instant \<times> bucket list) list" where
  "paced_calls st n sends = map (\<lambda>(t, dmn). (t, build_send_buckets st dmn (Some n))) sends"

lemma paced_calls_fst: "map fst (paced_calls st n sends) = map fst sends"
  by (simp add: paced_calls_def case_prod_beta' comp_def)

lemma paced_calls_global:
  assumes "n \<noteq> 0"
  shows "filter (\<lambda>bs. per_minute_bucket ''rl:global'' n \<in> set bs) (grants (paced_calls st n sends) r) =
      grants (paced_calls st n sends) r"
  using grants_subset assms by (fastforce simp: filter_id_conv paced_calls_def build_send_buckets_def)

lemma paced_calls_ok:
  assumes "\<forall>(t, dmn) \<in> set sends. t0 \<le> t \<and> t \<le> T"
    and "\<And>dmn. call_ok b (build_send_buckets st dmn (Some n))"
  shows "\<forall>(t, bs) \<in> set (paced_calls st n sends). t0 \<le> t \<and> t \<le> T \<and> call_ok b bs"
  using assms by (auto simp: paced_calls_def)

text \<open>
  C15: Whatever domains the sends go to, no more than the per-minute rate plus its refill is
  granted between any two instants: globally, and for each domain.
\<close>

theorem send_rate_bound:
  assumes "n \<noteq> 0" "sorted (map fst sends)" "\<forall>(t, dmn) \<in> set sends. t0 \<le> t \<and> t \<le> T" "t0 \<le> T"
    and "bucket_inv t0 r (per_minute_bucket ''rl:global'' n)"
    and "bucket_inv t0 r (per_minute_bucket (''rl:dom:'' @ d) (rate_per_domain_per_minute st))"
  shows "of_nat (length (grants (paced_calls st n sends) r)) \<le>
      of_int (max 1 n) * (1 + (timestamp T - timestamp t0) / 60) \<and>
    of_nat (length (filter (\<lambda>bs. per_minute_bucket (''rl:dom:'' @ d) (rate_per_domain_per_minute st) \<in> set bs)
        (grants (paced_calls st n sends) r))) \<le>
      of_int (max 1 (rate_per_domain_per_minute st)) * (1 + (timestamp T - timestamp t0) / 60)"
  using grants_bound [OF refl assms(5) _ assms(4) paced_calls_ok [OF assms(3) send_buckets_ok [OF assms(1)]]]
    grants_bound [OF refl assms(6) _ assms(4) paced_calls_ok [OF assms(3) domain_buckets_ok]]
  by (simp add: paced_calls_global [OF assms(1)] paced_calls_fst assms(2))

theorem send_rate_bound_witness:
  "of_nat (length (grants (paced_calls default_settings 25 [(0, ''a.com''), (1, ''b.com'')]) empty_redis)) \<le>
     (26 :: rat)"
  using send_rate_bound [of 25 "[(0, ''a.com''), (1, ''b.com'')]" 0 1 empty_redis "''a.com''" default_settings]
  by (simp add: bucket_inv_def empty_redis_def timestamp_def)

text \<open>
  An acquisition that meets no concurrent writer is all or nothing: it is allowed exactly
  when every bucket holds enough, and then every bucket is charged, else none is.
\<close>

theorem acquire_all_or_nothing:
  assumes "bs \<noteq> []" "\<forall>b \<in> set bs. bucket_wf b" "distinct (map b_key bs)"
  shows "\<exists>res r'. acquire 25 (\<lambda>_. t) (\<lambda>_. None) bs r = Inr (res, r') \<and>
    (ar_allowed res \<longleftrightarrow> (\<forall>b \<in> set bs. b_requested b \<le> bucket_level t r b)) \<and>
    (\<forall>b \<in> set bs. bucket_level t r' b = bucket_level t r b - (if ar_allowed res then b_requested b else 0))"
  using acquire_quiet [OF assms(1,2), of 25 t r] attempt_allowed [of t bs r] attempt_level [OF assms(2,3), of _ t r]
  by (intro exI [of _ "fst (attempt t bs r)"] exI [of _ "snd (attempt t bs r)"]) auto

theorem acquire_all_or_nothing_witness:
  "\<exists>res r'. acquire 25 (\<lambda>_. 0) (\<lambda>_. None) (build_send_buckets default_settings ''a.com'' None) empty_redis = Inr (res, r') \<and>
     (ar_allowed res \<longleftrightarrow> (\<forall>b \<in> set (build_send_buckets default_settings ''a.com'' None).
        b_requested b \<le> bucket_level 0 empty_redis b))"
  using acquire_all_or_nothing [of "build_send_buckets default_settings ''a.com'' None" 0 empty_redis]
  by (simp add: build_send_buckets_def) (auto simp: per_minute_bucket_def Let_def)

text \<open>Counting the sends of a pool over a day.\<close>

definition count_sends :: "string \<Rightarrow> instant list \<Rightarrow> redis \<Rightarrow> redis" where
  "count_sends pool ts r = fold (\<lambda>t r. snd (record_daily_send t pool r)) ts r"

lemma daily_usage_counter:
  "daily_cap_usage t pool r = (case redis_get_counter t (daily_key t pool) r of None \<Rightarrow> 0 | Some n \<Rightarrow> n)"
  by (simp add: daily_cap_usage_def)

lemma usage_later:
  assumes "counter_ok t (daily_key t pool) r" "same_day t t'" "t \<le> t'"
  shows "daily_cap_usage t' pool r = daily_cap_usage t pool r"
proof -
  let ?e = "r_counters r (daily_key t pool)"
  have key: "daily_key t' pool = daily_key t pool" using same_day_keys [OF assms(2)] by simp
  show ?thesis
  proof (cases "live t ?e")
    case None
    then have "live t' ?e = None" using assms(3) by (cases "(t, ?e)" rule: live.cases) (auto split: if_splits)
    with None key show ?thesis by (simp add: daily_cap_usage_def redis_get_counter_def)
  next
    case (Some n)
    with assms(1) have "outlives_day t (live_ttl t ?e)" by (simp add: counter_ok_def)
    from live_later(1) [OF this assms(2) Some] Some key show ?thesis
      by (simp add: daily_cap_usage_def redis_get_counter_def)
  qed
qed

text \<open>
  Within one UTC day the counter of a pool is the exact number of sends recorded for it,
  whatever the instants of the sends.
\<close>

theorem daily_counter_exact:
  assumes "counter_ok t0 (daily_key t0 pool) r" "sorted (t0 # ts @ [T])" "same_day t0 T"
  shows "daily_cap_usage T pool (count_sends pool ts r) = daily_cap_usage t0 pool r + int (length ts)"
  using assms
proof (induction ts arbitrary: t0 r)
  case Nil
  then show ?case using usage_later [of t0 pool r T] by (simp add: count_sends_def)
next
  case (Cons t ts)
  have le: "t0 \<le> t" "t \<le> T" using Cons.prems(2) by auto
  have day: "same_day t0 t"
    using Cons.prems(3) le zdiv_mono1 [of t0 t "days 1"] zdiv_mono1 [of t T "days 1"]
    by (simp add: same_day_def days_eq)
  have day': "same_day t T" using day Cons.prems(3) by (simp add: same_day_def)
  have key: "daily_key t pool = daily_key t0 pool" using same_day_keys [OF day] by simp
  have ok: "counter_ok t (daily_key t pool) r"
    using counter_ok_later [OF Cons.prems(1) day le(1)] by (simp add: key)
  let ?r = "snd (record_daily_send t pool r)"
  have refl: "same_day t t" by (simp add: same_day_def)
  have one: "daily_cap_usage t pool ?r = daily_cap_usage t pool r + 1"
    using count_send_counter(2) [OF ok refl] by (simp add: daily_cap_usage_def record_daily_send_def)
  have "daily_cap_usage T pool (count_sends pool ts ?r) = daily_cap_usage t pool ?r + int (length ts)"
    using Cons.IH [of t ?r] count_send_counter(1) [OF ok refl] Cons.prems(2) day'
    by (simp add: record_daily_send_def)
  then show ?case
    using one usage_later [OF Cons.prems(1) day le(1)] by (simp add: count_sends_def)
qed

theorem daily_counter_exact_witness:
  "daily_cap_usage 5 ''p'' (count_sends ''p'' [1, 2] empty_redis) = 2"
  using daily_counter_exact [of 0 "''p''" empty_redis "[1, 2]" 5]
  by (simp add: counter_ok_def empty_redis_def same_day_def days_eq daily_cap_usage_def redis_get_counter_def)

end
