(* ===== verification/Postal.thy ===== *)
theory Postal
  imports Config
begin

text \<open>
  The mail provider (\<open>app/integrations/postal/\<close>): the message and result types of \<open>base.py\<close>,
  the MIME message and the classification of HTTP answers of \<open>client.py\<close>, and the mock of
  \<open>mock.py\<close>.  An outcome is acceptance, one of the two Postal errors, or an exception the
  client does not translate.  The HTTP exchange is the parameter \<open>post\<close>; \<open>date\<close> and \<open>msgid\<close>
  are what \<open>formatdate\<close> and \<open>make_msgid\<close> return, and \<open>uuid\<close> the mock's random token.
\<close>

record send_message =
  sm_to :: string
  sm_from_email :: string
  sm_from_name :: string
  sm_subject :: string
  sm_plain_body :: "string option"
  sm_html_body :: "string option"
  sm_reply_to :: "string option"
  sm_headers :: "(string \<times> string) list"
  sm_tag :: "string option"

definition from_full :: "send_message \<Rightarrow> string" where
  "from_full m =
     (if sm_from_name m \<noteq> [] then sm_from_name m @ '' <'' @ sm_from_email m @ ''>'' else sm_from_email m)"

record send_result =
  sr_message_token :: json
  sr_message_id :: json
  sr_raw :: json

datatype send_outcome = Accepted send_result | Transient string | Permanent string | Crashed exn

section \<open>The raw message\<close>

text \<open>\<open>str.splitlines()\<close>; \<open>"\r\n"\<close> is one line break.\<close>

definition is_line_break :: "char \<Rightarrow> bool" where
  "is_line_break c =
     (c \<in> {CHR 0x0A, CHR 0x0D, CHR 0x0B, CHR 0x0C, CHR 0x1C, CHR 0x1D, CHR 0x1E, CHR 0x85})"

fun py_splitlines :: "string \<Rightarrow> string \<Rightarrow> string list" where
  "py_splitlines cur [] = (if cur = [] then [] else [rev cur])"
| "py_splitlines cur [c] = (if is_line_break c then [rev cur] else [rev (c # cur)])"
| "py_splitlines cur (c # c' # cs) =
     (if c = CHR 0x0D \<and> c' = CHR 0x0A then rev cur # py_splitlines [] cs
      else if is_line_break c then rev cur # py_splitlines [] (c' # cs)
      else py_splitlines (c # cur) (c' # cs))"

text \<open>Storing a header under \<open>email.policy\<close>: a value of more than one line is a \<open>ValueError\<close>.\<close>

definition header_ok :: "string \<times> string \<Rightarrow> bool" where
  "header_ok h = (length (py_splitlines [] (snd h)) \<le> 1)"

datatype mime_body =
    TextPlain string
  | TextHtml string
  | Alternative string string

record raw_message =
  rm_headers :: "(string \<times> string) list"
  rm_body :: mime_body

definition message_headers :: "string \<Rightarrow> (string \<Rightarrow> string) \<Rightarrow> send_message \<Rightarrow> (string \<times> string) list" where
  "message_headers date msgid m =
     [(''From'', from_full m), (''To'', sm_to m), (''Subject'', sm_subject m)] @
     (case sm_reply_to m of None \<Rightarrow> [] | Some r \<Rightarrow> if r = [] then [] else [(''Reply-To'', r)]) @
     [(''Date'', date), (''Message-ID'', msgid (py_after_last CHR ''@'' (sm_from_email m)))] @
     sm_headers m"

definition message_body :: "send_message \<Rightarrow> mime_body" where
  "message_body m =
     (let plain = (case sm_plain_body m of None \<Rightarrow> [] | Some p \<Rightarrow> p) in
      case sm_html_body m of
        Some html \<Rightarrow> if plain \<noteq> [] then Alternative plain html else TextHtml html
      | None \<Rightarrow> TextPlain plain)"

definition build_raw_message ::
  "string \<Rightarrow> (string \<Rightarrow> string) \<Rightarrow> send_message \<Rightarrow> exn + raw_message" where
  "build_raw_message date msgid m =
     (if list_all header_ok (message_headers date msgid m)
      then Inr \<lparr>rm_headers = message_headers date msgid m, rm_body = message_body m\<rparr>
      else Inl ValueError)"

section \<open>The HTTP client\<close>

datatype http_reply = NetworkError string | Reply int "json option"

definition permanent_codes :: "string set" where
  "permanent_codes =
     {''ValidationError'', ''NoRecipients'', ''NoContent'', ''TooManyToAddresses'', ''FromAddressMissing'',
      ''UnauthenticatedFromAddress'', ''AttachmentMissingName'', ''AttachmentMissingData''}"

text \<open>\<open>v.get(k, default)\<close> and \<open>x or default\<close> on decoded JSON.\<close>

fun json_get :: "json \<Rightarrow> string \<Rightarrow> json \<Rightarrow> exn + json" where
  "json_get (JObj kvs) k dflt = Inr (case map_of kvs k of None \<Rightarrow> dflt | Some v \<Rightarrow> v)"
| "json_get v k dflt = Inl AttributeError"

definition json_or :: "json \<Rightarrow> json \<Rightarrow> json" where
  "json_or v dflt = (if json_truthy v then v else dflt)"

fun json_values :: "json \<Rightarrow> exn + json list" where
  "json_values (JObj kvs) = Inr (map snd kvs)"
| "json_values v = Inl AttributeError"

fun unhashable :: "json \<Rightarrow> bool" where
  "unhashable (JList xs) = True"
| "unhashable (JObj kvs) = True"
| "unhashable v = False"

definition first_message_token :: "json list \<Rightarrow> exn + json" where
  "first_message_token infos =
     (case infos of [] \<Rightarrow> Inr JNull | info # _ \<Rightarrow> json_get info ''token'' JNull)"

definition read_success :: "json \<Rightarrow> exn + send_outcome" where
  "read_success data =
     and_then (json_get data ''data'' (JObj [])) (\<lambda>body.
     and_then (json_get body ''messages'' (JObj [])) (\<lambda>ms.
     and_then (json_values (json_or ms (JObj []))) (\<lambda>infos.
     and_then (first_message_token infos) (\<lambda>token.
     if \<not> json_truthy token then Inr (Transient ''Postal success without a message token'')
     else and_then (json_get body ''message_id'' JNull) (\<lambda>mid.
       Inr (Accepted \<lparr>sr_message_token = token, sr_message_id = mid, sr_raw = data\<rparr>))))))"

definition read_error :: "(json \<Rightarrow> string) \<Rightarrow> json \<Rightarrow> exn + send_outcome" where
  "read_error rep data =
     and_then (json_get data ''data'' (JObj [])) (\<lambda>err0.
     let err = json_or err0 (JObj []) in
     and_then (json_get err ''code'' (JStr ''Unknown'')) (\<lambda>code.
     and_then (json_get err ''message'' (JStr [])) (\<lambda>detail.
     if unhashable code then Inl TypeError
     else let text = py_str rep code @ '': '' @ py_str rep detail in
       if code \<in> JStr ` permanent_codes then Inr (Permanent text) else Inr (Transient text))))"

definition read_reply :: "(json \<Rightarrow> string) \<Rightarrow> http_reply \<Rightarrow> send_outcome" where
  "read_reply rep reply =
     (case reply of
        NetworkError exc \<Rightarrow> Transient (''network error contacting Postal: '' @ exc)
      | Reply code parsed \<Rightarrow>
          if code \<ge> 500 \<or> code = 429 then Transient (''Postal returned HTTP '' @ show_int code)
          else if code = 401 \<or> code = 403 then Permanent (''Postal auth failed: HTTP '' @ show_int code)
          else if code \<ge> 400 then Permanent (''Postal rejected request: HTTP '' @ show_int code)
          else case parsed of
                 None \<Rightarrow> Transient ''Postal returned non-JSON response''
               | Some data \<Rightarrow>
                   (case and_then (json_get data ''status'' JNull) (\<lambda>status.
                            if status = JStr ''success'' then read_success data else read_error rep data) of
                      Inl e \<Rightarrow> Crashed e
                    | Inr outcome \<Rightarrow> outcome))"

record http_request =
  hr_rcpt_to :: "string list"
  hr_mail_from :: string
  hr_data :: raw_message

definition http_send_message ::
  "(json \<Rightarrow> string) \<Rightarrow> string \<Rightarrow> (string \<Rightarrow> string) \<Rightarrow> (http_request \<Rightarrow> http_reply) \<Rightarrow> send_message \<Rightarrow> send_outcome"
where
  "http_send_message rep date msgid post m =
     (case build_raw_message date msgid m of
        Inl e \<Rightarrow> Crashed e
      | Inr raw \<Rightarrow>
          read_reply rep (post \<lparr>hr_rcpt_to = [sm_to m], hr_mail_from = sm_from_email m, hr_data = raw\<rparr>))"

section \<open>The mock client\<close>

definition mock_send_message :: "string \<Rightarrow> send_message \<Rightarrow> send_message list \<Rightarrow> send_outcome \<times> send_message list" where
  "mock_send_message uuid m sent =
     (let dmn = py_lower (py_after_last CHR ''@'' (sm_to m)) in
      if dmn = ''transient.test'' then (Transient ''mock transient failure'', sent)
      else if dmn = ''permanent.test'' then (Permanent ''mock permanent failure'', sent)
      else let token = ''mock-'' @ uuid in
        (Accepted \<lparr>sr_message_token = JStr token, sr_message_id = JStr (token @ ''@mock.local''),
                   sr_raw = JObj [(''status'', JStr ''success''), (''mock'', JBool True)]\<rparr>,
         sent @ [m]))"

definition mock_reset :: "send_message list \<Rightarrow> send_message list" where
  "mock_reset sent = []"

text \<open>\<open>get_postal_client\<close>: the settings choose the client of the send task.\<close>

definition get_postal_client ::
  "settings \<Rightarrow> (json \<Rightarrow> string) \<times> string \<times> (string \<Rightarrow> string) \<times> (http_request \<Rightarrow> http_reply) \<Rightarrow>
   string \<times> send_message list \<Rightarrow> send_message \<Rightarrow> send_outcome"
where
  "get_postal_client st net mock m =
     (if postal_use_mock st
      then (case mock of (uuid, sent) \<Rightarrow> fst (mock_send_message uuid m sent))
      else (case net of (rep, date, msgid, post) \<Rightarrow> http_send_message rep date msgid post m))"

section \<open>The interface the pipeline relies on\<close>

text \<open>
  A provider turns a message into an outcome in some environment \<open>'e\<close> (the network, the
  random source).  An accepted message carries a token that reconciliation can match, and
  what has been handed over is only ever added to.
\<close>

locale provider =
  fixes submit :: "'e \<Rightarrow> send_message \<Rightarrow> send_outcome"
    and token_ok :: "json \<Rightarrow> bool"
  assumes accepted_token: "submit env m = Accepted res \<Longrightarrow> token_ok (sr_message_token res)"
begin

lemma accepted_tokens:
  "list_all (\<lambda>out. case out of Accepted res \<Rightarrow> token_ok (sr_message_token res) | _ \<Rightarrow> True)
     (map (\<lambda>(env, m). submit env m) calls)"
  by (auto simp: list_all_iff dest: accepted_token split: send_outcome.split)

end

lemma read_success_token:
  "read_success data = Inr (Accepted res) \<Longrightarrow> json_truthy (sr_message_token res)"
  by (auto simp: read_success_def and_then_Inr_iff split: if_splits)

lemma read_error_not_accepted: "read_error rep data \<noteq> Inr (Accepted res)"
  by (auto simp: read_error_def and_then_Inr_iff Let_def split: if_splits)

lemma read_reply_token: "read_reply rep reply = Accepted res \<Longrightarrow> json_truthy (sr_message_token res)"
  by (auto simp: read_reply_def and_then_def read_error_not_accepted dest: read_success_token
      split: http_reply.splits if_splits option.splits sum.splits)

lemma http_send_token:
  "http_send_message rep date msgid post m = Accepted res \<Longrightarrow> json_truthy (sr_message_token res)"
  by (auto simp: http_send_message_def dest: read_reply_token split: sum.splits)

lemma mock_send_token:
  "fst (mock_send_message uuid m sent) = Accepted res \<Longrightarrow> json_truthy (sr_message_token res)"
  by (auto simp: mock_send_message_def Let_def split: if_splits)

interpretation http: provider "\<lambda>(rep, date, msgid, post). http_send_message rep date msgid post" json_truthy
  by unfold_locales (auto dest: http_send_token)

interpretation mock: provider "\<lambda>(uuid, sent) m. fst (mock_send_message uuid m sent)" json_truthy
  by unfold_locales (auto dest: mock_send_token)

interpretation client: provider "\<lambda>(st, net, mock). get_postal_client st net mock" json_truthy
  by unfold_locales (auto simp: get_postal_client_def dest: http_send_token mock_send_token split: if_splits prod.splits)

text \<open>A retried outcome is one the network, an overload or an unknown error code caused.\<close>

lemma read_reply_transient_http:
  "read_reply rep (Reply code parsed) = Transient msg \<Longrightarrow> code < 400 \<or> code = 429 \<or> code \<ge> 500"
  by (auto simp: read_reply_def split: if_splits)

lemma read_reply_http_error:
  "400 \<le> code \<Longrightarrow> read_reply rep (Reply code parsed) =
     (if code \<ge> 500 \<or> code = 429 then Transient (''Postal returned HTTP '' @ show_int code)
      else if code = 401 \<or> code = 403 then Permanent (''Postal auth failed: HTTP '' @ show_int code)
      else Permanent (''Postal rejected request: HTTP '' @ show_int code))"
  by (simp add: read_reply_def)

lemma build_raw_message_Inr:
  "build_raw_message date msgid m = Inr raw \<Longrightarrow>
     list_all header_ok (rm_headers raw) \<and> set (sm_headers m) \<subseteq> set (rm_headers raw)"
  by (auto simp: build_raw_message_def message_headers_def split: if_splits)

section \<open>Properties\<close>

text \<open>
  Every message either client accepts comes back with a token, so a webhook can be matched
  to its recipient.
\<close>

theorem accepted_has_token:
  assumes "http_send_message rep date msgid post m = Accepted res \<or> fst (mock_send_message uuid m sent) = Accepted res"
  shows "json_truthy (sr_message_token res)"
  using assms http.accepted_token [of "(rep, date, msgid, post)" m res] mock.accepted_token [of "(uuid, sent)" m res]
  by auto

theorem accepted_has_token_witness:
  "json_truthy (JStr ''mock-7'')"
proof -
  let ?m = "\<lparr>sm_to = ''a@x.com'', sm_from_email = ''n@y.com'', sm_from_name = [], sm_subject = ''s'',
     sm_plain_body = None, sm_html_body = None, sm_reply_to = None, sm_headers = [], sm_tag = None\<rparr>"
  have "fst (mock_send_message ''7'' ?m []) = Accepted \<lparr>sr_message_token = JStr ''mock-7'',
      sr_message_id = JStr ''mock-7@mock.local'', sr_raw = JObj [(''status'', JStr ''success''), (''mock'', JBool True)]\<rparr>"
    by code_simp
  from accepted_has_token [OF disjI2, OF this] show ?thesis by simp
qed

text \<open>
  A reply that did not accept the message is retried exactly when it was an overload or a
  server error; a client error, authentication included, is permanent. A body that cannot be
  read never crashes the task on these statuses.
\<close>

theorem http_errors_classified:
  assumes "400 \<le> code"
  shows "(\<exists>msg. read_reply rep (Reply code parsed) = Transient msg) = (code \<ge> 500 \<or> code = 429) \<and>
    (\<exists>msg. read_reply rep (Reply code parsed) = Permanent msg) = (code < 500 \<and> code \<noteq> 429)"
  using read_reply_http_error [OF assms, of rep parsed] by auto

theorem http_errors_classified_witness:
  "\<exists>msg. read_reply (\<lambda>_. []) (Reply 429 None) = Transient msg"
  using http_errors_classified [of 429 "\<lambda>_. []" None] by simp

text \<open>
  A header value of two lines is refused: the message never reaches the network, and the
  exception is not one the pipeline handles.
\<close>

lemma newline_subject_crashes:
  "http_send_message rep ''d'' (\<lambda>_. ''i'') post
     \<lparr>sm_to = ''a@x.com'', sm_from_email = ''n@y.com'', sm_from_name = [], sm_subject = [CHR ''a'', CHR 0x0A, CHR ''b''],
      sm_plain_body = Some ''t'', sm_html_body = None, sm_reply_to = None, sm_headers = [], sm_tag = None\<rparr> =
   Crashed ValueError"
  by (simp add: http_send_message_def build_raw_message_def message_headers_def header_ok_def is_line_break_def
      from_full_def)

end
