(* ===== verification/Webhook.thy ===== *)
theory Webhook
  imports Postal
begin

text \<open>
  Inbound Postal webhooks: verification and normalization
  (\<open>app/integrations/postal/webhook.py\<close>) and the endpoint (\<open>app/api/webhooks.py\<close>).  The
  hexadecimal HMAC-SHA256 of a body under a secret is the parameter \<open>hmac_hex\<close>, the JSON
  decoder of the standard library the parameter \<open>decode\<close>; \<open>rep\<close> renders JSON floats, lists
  and objects as \<open>str()\<close> does.
\<close>

section \<open>Verification\<close>

definition is_ascii :: "string \<Rightarrow> bool" where
  "is_ascii s = list_all (\<lambda>c. (of_char c :: nat) < 128) s"

text \<open>\<open>hmac.compare_digest\<close> on two strings refuses anything outside ASCII.\<close>

definition compare_digest :: "string \<Rightarrow> string \<Rightarrow> exn + bool" where
  "compare_digest a b = (if is_ascii a \<and> is_ascii b then Inr (a = b) else Inl TypeError)"

definition present :: "string option \<Rightarrow> bool" where
  "present h = (case h of None \<Rightarrow> False | Some s \<Rightarrow> s \<noteq> [])"

definition verify_webhook ::
  "(string \<Rightarrow> string \<Rightarrow> string) \<Rightarrow> string \<Rightarrow> string \<Rightarrow> string option \<Rightarrow> string option \<Rightarrow> string option \<Rightarrow>
   exn + bool" where
  "verify_webhook hmac_hex raw_body secret signature_header secret_header query_token =
     (if secret = [] then Inr False
      else and_then (if present signature_header
                     then compare_digest (hmac_hex secret raw_body) (py_strip (the signature_header))
                     else Inr False) (\<lambda>by_signature.
           if by_signature then Inr True
           else and_then (if present secret_header
                          then compare_digest (py_strip (the secret_header)) secret
                          else Inr False) (\<lambda>by_secret.
                if by_secret then Inr True
                else if present query_token then compare_digest (py_strip (the query_token)) secret
                else Inr False)))"

definition verify_rsa_signature :: "string \<Rightarrow> string \<Rightarrow> string \<Rightarrow> exn + bool" where
  "verify_rsa_signature raw_body signature_header public_key_pem = Inl NotImplementedError"

text \<open>The endpoint: the status code, and the body handed to the queue.\<close>

definition postal_webhook ::
  "(string \<Rightarrow> string \<Rightarrow> string) \<Rightarrow> (string \<Rightarrow> json option) \<Rightarrow> settings \<Rightarrow> string \<Rightarrow>
   string option \<Rightarrow> string option \<Rightarrow> string option \<Rightarrow> exn + int \<times> json option" where
  "postal_webhook hmac_hex decode st raw signature_header secret_header query_token =
     and_then (verify_webhook hmac_hex raw (postal_webhook_shared_secret st)
                 signature_header secret_header query_token) (\<lambda>ok.
     if \<not> ok then Inr (401, None)
     else case decode raw of None \<Rightarrow> Inr (400, None) | Some body \<Rightarrow> Inr (200, Some body))"

section \<open>Numbers and timestamps\<close>

datatype pyfloat = Finite rat | Infinite | NotANumber

text \<open>\<open>float(text)\<close>: sign, decimal digits with a point, exponent; \<open>inf\<close> and \<open>nan\<close> by name.\<close>

definition decimal_of_string :: "string \<Rightarrow> rat option" where
  "decimal_of_string s =
     (let whole = takeWhile (\<lambda>c. c \<noteq> CHR ''.'') s;
          frac = drop 1 (dropWhile (\<lambda>c. c \<noteq> CHR ''.'') s);
          w = (if whole = [] then Some 0 else int_digits 0 False whole);
          f = (if frac = [] then Some 0 else int_digits 0 False frac)
      in if whole = [] \<and> frac = [] then None
         else case (w, f) of
                (Some a, Some b) \<Rightarrow> Some (of_int a + of_int b / 10 ^ length (filter is_digit frac))
              | _ \<Rightarrow> None)"

definition signed :: "('a \<Rightarrow> 'a) \<Rightarrow> (string \<Rightarrow> 'a option) \<Rightarrow> string \<Rightarrow> 'a option" where
  "signed neg parse s =
     (case s of
        [] \<Rightarrow> parse []
      | c # cs \<Rightarrow> if c = CHR ''-'' then map_option neg (parse cs)
                  else if c = CHR ''+'' then parse cs else parse s)"

definition unsigned_float :: "string \<Rightarrow> pyfloat option" where
  "unsigned_float s =
     (if s = ''inf'' \<or> s = ''infinity'' then Some Infinite
      else if s = ''nan'' then Some NotANumber
      else let mant = takeWhile (\<lambda>c. c \<noteq> CHR ''e'') s; ex = dropWhile (\<lambda>c. c \<noteq> CHR ''e'') s;
               e = (if ex = [] then Some 0 else signed uminus (int_digits 0 False) (drop 1 ex))
           in case (decimal_of_string mant, e) of
                (Some m, Some k) \<Rightarrow>
                  Some (Finite (if k \<ge> 0 then m * 10 ^ nat k else m / 10 ^ nat (- k)))
              | _ \<Rightarrow> None)"

fun float_neg :: "pyfloat \<Rightarrow> pyfloat" where
  "float_neg (Finite q) = Finite (- q)"
| "float_neg x = x"

fun py_float :: "json \<Rightarrow> exn + pyfloat" where
  "py_float (JInt n) = Inr (Finite (of_int n))"
| "py_float (JFloat q) = Inr (Finite q)"
| "py_float (JBool b) = Inr (Finite (if b then 1 else 0))"
| "py_float (JStr s) =
     (case signed float_neg unsigned_float (py_lower (py_strip s)) of
        None \<Rightarrow> Inl ValueError | Some f \<Rightarrow> Inr f)"
| "py_float v = Inl TypeError"

definition round_half_even :: "rat \<Rightarrow> int" where
  "round_half_even q =
     (let f = \<lfloor>q\<rfloor>; r = q - of_int f in
      if r < 1 / 2 then f else if r > 1 / 2 then f + 1 else if even f then f else f + 1)"

text \<open>\<open>datetime.fromtimestamp(x, tz=utc)\<close>: years 1 to 9999, and \<open>OverflowError\<close> beyond 64 bits.\<close>

fun from_timestamp :: "pyfloat \<Rightarrow> exn + instant" where
  "from_timestamp Infinite = Inl OverflowError"
| "from_timestamp NotANumber = Inl ValueError"
| "from_timestamp (Finite q) =
     (if \<bar>q\<bar> \<ge> 2 ^ 63 then Inl OverflowError
      else let us = round_half_even (q * 1000000) in
        if us < -62135596800000000 \<or> us \<ge> 253402300800000000 then Inl ValueError else Inr us)"

section \<open>Events\<close>

record postal_event =
  pe_event_type :: string
  pe_event_uuid :: "string option"
  pe_message_token :: "string option"
  pe_recipient_email :: "string option"
  pe_status :: "string option"
  pe_detail :: "string option"
  pe_occurred_at :: instant
  pe_raw :: json

definition delivery_events :: "string set" where
  "delivery_events = {''MessageSent'', ''MessageDelivered''}"
definition failure_events :: "string set" where
  "failure_events = {''MessageDeliveryFailed'', ''MessageBounced'', ''MessageHeld''}"
definition complaint_events :: "string set" where
  "complaint_events = {''MessageSpamReport'', ''MessageComplaint''}"

definition is_delivery :: "postal_event \<Rightarrow> bool" where
  "is_delivery e = (pe_event_type e \<in> delivery_events)"
definition is_failure :: "postal_event \<Rightarrow> bool" where
  "is_failure e = (pe_event_type e \<in> failure_events)"
definition is_complaint :: "postal_event \<Rightarrow> bool" where
  "is_complaint e = (pe_event_type e \<in> complaint_events)"

text \<open>The first truthy value of a key among the candidates that are dicts.\<close>

fun first_field :: "string \<Rightarrow> json list \<Rightarrow> json option" where
  "first_field k [] = None"
| "first_field k (JObj kvs # cs) =
     (case map_of kvs k of
        Some v \<Rightarrow> if json_truthy v then Some v else first_field k cs
      | None \<Rightarrow> first_field k cs)"
| "first_field k (c # cs) = first_field k cs"

definition first_token :: "(json \<Rightarrow> string) \<Rightarrow> json list \<Rightarrow> string option" where
  "first_token rep candidates = map_option (py_str rep) (first_field ''token'' candidates)"

definition first_to :: "(json \<Rightarrow> string) \<Rightarrow> json list \<Rightarrow> string option" where
  "first_to rep candidates =
     map_option (\<lambda>v. py_lower (py_strip (py_str rep v))) (first_field ''to'' candidates)"

definition event_detail :: "(json \<Rightarrow> string) \<Rightarrow> json \<Rightarrow> json" where
  "event_detail rep detail =
     (case detail of
        JObj kvs \<Rightarrow> json_or (case map_of kvs ''token'' of None \<Rightarrow> JNull | Some v \<Rightarrow> v)
                     (JStr (py_str rep detail))
      | _ \<Rightarrow> detail)"

definition event_time :: "instant \<Rightarrow> json \<Rightarrow> exn + instant" where
  "event_time now ts =
     (if ts = JNull then Inr now
      else case and_then (py_float ts) from_timestamp of
             Inr t \<Rightarrow> Inr t
           | Inl OverflowError \<Rightarrow> Inl OverflowError
           | Inl _ \<Rightarrow> Inr now)"

definition opt_str :: "(json \<Rightarrow> string) \<Rightarrow> json \<Rightarrow> string option" where
  "opt_str rep v = (if v = JNull then None else Some (py_str rep v))"

definition parse_event :: "(json \<Rightarrow> string) \<Rightarrow> instant \<Rightarrow> json \<Rightarrow> exn + postal_event" where
  "parse_event rep now body =
     and_then (json_get body ''event'' (JStr [])) (\<lambda>ev.
     and_then (json_get body ''uuid'' JNull) (\<lambda>uuid.
     and_then (json_get body ''payload'' (JObj [])) (\<lambda>payload0.
     let payload = json_or payload0 (JObj []); et = py_str rep ev in
     and_then (json_get payload ''message'' JNull) (\<lambda>message.
     and_then (json_get payload ''original_message'' JNull) (\<lambda>original.
     and_then (json_get payload ''status'' JNull) (\<lambda>status.
     and_then (json_get payload ''details'' JNull) (\<lambda>details.
     and_then (json_get payload ''output'' JNull) (\<lambda>output.
     let detail = event_detail rep (json_or (json_or details output) message) in
     and_then (json_get body ''timestamp'' JNull) (\<lambda>ts1.
     and_then (json_get payload ''timestamp'' JNull) (\<lambda>ts2.
     and_then (event_time now (json_or ts1 ts2)) (\<lambda>occurred.
     Inr \<lparr>pe_event_type = (if et = [] then ''Unknown'' else et),
          pe_event_uuid = (if json_truthy uuid then Some (py_str rep uuid) else None),
          pe_message_token = first_token rep [message, original],
          pe_recipient_email = first_to rep [message, original],
          pe_status = opt_str rep status,
          pe_detail = opt_str rep detail,
          pe_occurred_at = occurred,
          pe_raw = body\<rparr>)))))))))))"

section \<open>Lemmas\<close>

lemma compare_digest_True: "compare_digest a b = Inr True \<longleftrightarrow> is_ascii a \<and> a = b"
  by (auto simp: compare_digest_def)

lemma verify_webhook_True:
  "verify_webhook hmac_hex body secret sig hdr tok = Inr True \<Longrightarrow>
     secret \<noteq> [] \<and>
     ((\<exists>s. sig = Some s \<and> py_strip s = hmac_hex secret body) \<or>
      (\<exists>s. hdr = Some s \<and> py_strip s = secret) \<or>
      (\<exists>s. tok = Some s \<and> py_strip s = secret))"
  by (auto simp: verify_webhook_def and_then_Inr_iff compare_digest_True present_def
      split: if_splits option.splits)

lemma verify_webhook_secret:
  assumes "secret \<noteq> []" "is_ascii secret" "py_strip secret = secret"
  shows "verify_webhook hmac_hex body secret None (Some secret) tok = Inr True"
  using assms by (simp add: verify_webhook_def present_def compare_digest_def)

lemma parse_event_total_on_objects:
  assumes "map_of kvs ''payload'' = Some (JObj pl)" "map_of kvs ''timestamp'' = None" "map_of pl ''timestamp'' = None"
  shows "\<exists>e. parse_event rep now (JObj kvs) = Inr e \<and> pe_occurred_at e = now \<and> pe_raw e = JObj kvs"
  using assms
  by (cases "pl = []") (simp_all add: parse_event_def json_or_def event_time_def Let_def)

lemma event_classes_disjoint:
  "is_delivery e \<Longrightarrow> \<not> is_failure e" "is_delivery e \<Longrightarrow> \<not> is_complaint e" "is_failure e \<Longrightarrow> \<not> is_complaint e"
  by (auto simp: is_delivery_def is_failure_def is_complaint_def delivery_events_def failure_events_def
      complaint_events_def)

section \<open>Properties\<close>

text \<open>
  C34: The webhook endpoint hands a body to the queue only when a secret is configured and the
  request carries the HMAC of the body or the secret itself; any other request gets a 401, a
  body that is not JSON a 400.
\<close>

theorem webhook_authenticated:
  assumes "postal_webhook hmac_hex decode st raw sig hdr tok = Inr (code, queued)"
  shows "(queued = None \<longrightarrow> code = 401 \<or> code = 400) \<and>
    (\<forall>body. queued = Some body \<longrightarrow> code = 200 \<and> decode raw = Some body \<and>
      postal_webhook_shared_secret st \<noteq> [] \<and>
      ((\<exists>s. sig = Some s \<and> py_strip s = hmac_hex (postal_webhook_shared_secret st) raw) \<or>
       (\<exists>s. hdr = Some s \<and> py_strip s = postal_webhook_shared_secret st) \<or>
       (\<exists>s. tok = Some s \<and> py_strip s = postal_webhook_shared_secret st)))"
  using assms verify_webhook_True [of hmac_hex raw "postal_webhook_shared_secret st" sig hdr tok]
  by (auto simp: postal_webhook_def and_then_Inr_iff split: if_splits option.splits)

theorem webhook_authenticated_witness:
  "postal_webhook_shared_secret default_settings \<noteq> []"
proof -
  have "postal_webhook (\<lambda>_ _. []) (\<lambda>_. Some JNull) default_settings [] None (Some ''CHANGE_ME'') None = Inr (200, Some JNull)"
    by code_simp
  from webhook_authenticated [OF this] show ?thesis by blast
qed

end
