(* ===== verification/Suppression.thy ===== *)
theory Suppression
  imports Normalize
begin

text \<open>
  The global suppression service (\<open>app/services/suppression.py\<close>).  A call runs inside the
  caller's transaction on the database it sees.  The insert can lose a race with another
  worker: \<open>race = Some d'\<close> says that the flush raised \<open>IntegrityError\<close>, where \<open>d'\<close> is the
  committed state that the rollback returns to (with the winner's row in it); \<open>race = None\<close>
  is the ordinary case.  The reason is the enum member (a caller's string goes through
  \<open>suppression_reason_of\<close> first).  The asynchronous functions are second copies in the
  source and are translated as such.
\<close>

section \<open>Operations\<close>

fun reason_to_contact_status :: "suppression_reason \<Rightarrow> contact_status" where
  "reason_to_contact_status HardBounce = CBounced"
| "reason_to_contact_status Complaint = Complained"
| "reason_to_contact_status Unsubscribe = Unsubscribed"
| "reason_to_contact_status InvalidAddress = CBounced"
| "reason_to_contact_status Manual = Unsubscribed"

definition insert_suppression :: "string \<Rightarrow> suppression_reason \<Rightarrow> string option \<Rightarrow> db \<Rightarrow> db" where
  "insert_suppression email reason detail d =
     bump_seq TSuppressions
       (d\<lparr>suppressions := suppressions d @
            [\<lparr>s_id = next_id TSuppressions d, s_email = email, s_reason = reason, s_detail = detail\<rparr>]\<rparr>)"

definition mark_contact :: "string \<Rightarrow> suppression_reason \<Rightarrow> db \<Rightarrow> db" where
  "mark_contact nrm reason d =
     (case row_by ct_email nrm (contacts d) of
        None \<Rightarrow> d
      | Some contact \<Rightarrow>
          upd_contact (ct_id contact) (\<lambda>c. c\<lparr>ct_status := reason_to_contact_status reason\<rparr>) d)"

definition is_suppressed_sync :: "db \<Rightarrow> string \<Rightarrow> bool" where
  "is_suppressed_sync d email =
     (case normalize_email (Some email) of
        None \<Rightarrow> True
      | Some nrm \<Rightarrow> row_by s_email nrm (suppressions d) \<noteq> None)"

definition suppress_sync ::
  "db option \<Rightarrow> db \<Rightarrow> string \<Rightarrow> suppression_reason \<Rightarrow> string option \<Rightarrow> bool \<Rightarrow> bool \<times> db" where
  "suppress_sync race d email reason detail update_contact =
     (case normalize_email (Some email) of
        None \<Rightarrow> (False, d)
      | Some nrm \<Rightarrow>
          let (newly_added, d1) =
                (if row_by s_email nrm (suppressions d) = None
                 then (case race of
                         None \<Rightarrow> (True, insert_suppression nrm reason detail d)
                       | Some d' \<Rightarrow> (False, d'))
                 else (False, d))
          in (newly_added, if update_contact then mark_contact nrm reason d1 else d1))"

definition is_suppressed_async :: "db \<Rightarrow> string \<Rightarrow> bool" where
  "is_suppressed_async d email =
     (let nrm = normalize_email (Some email) in
      if nrm = None then True
      else row_by s_email (the nrm) (suppressions d) \<noteq> None)"

definition suppress_async ::
  "db option \<Rightarrow> db \<Rightarrow> string \<Rightarrow> suppression_reason \<Rightarrow> string option \<Rightarrow> bool \<Rightarrow> bool \<times> db" where
  "suppress_async race d email reason detail update_contact =
     (case normalize_email (Some email) of
        None \<Rightarrow> (False, d)
      | Some nrm \<Rightarrow>
          let absent = (row_by s_email nrm (suppressions d) = None);
              d1 = (if absent
                    then (case race of
                            None \<Rightarrow> insert_suppression nrm reason detail d
                          | Some d' \<Rightarrow> d')
                    else d);
              d2 = (if update_contact then mark_contact nrm reason d1 else d1)
          in (absent \<and> race = None, d2))"

section \<open>The interface other components rely on\<close>

text \<open>
  A suppression list answers whether an address may be mailed and takes new addresses.
  \<open>same\<close> is the identity of addresses (case and outer space do not matter); \<open>ok\<close> are the
  addresses that can be recorded at all.  Once suppressed, an address stays suppressed, and
  a call suppresses the address it names and no other.
\<close>

locale suppression_list =
  fixes is_suppressed :: "'s \<Rightarrow> 'e \<Rightarrow> bool"
    and suppress :: "'s \<Rightarrow> 'e \<Rightarrow> 'r \<Rightarrow> 's"
    and same :: "'e \<Rightarrow> 'e \<Rightarrow> bool"
  assumes suppress_self: "is_suppressed (suppress s e r) e"
    and suppress_keeps: "is_suppressed s e' \<Longrightarrow> is_suppressed (suppress s e r) e'"
    and suppress_only: "is_suppressed (suppress s e r) e' \<Longrightarrow> is_suppressed s e' \<or> same e e'"
    and same_suppressed: "same e e' \<Longrightarrow> is_suppressed s e = is_suppressed s e'"
begin

lemma suppress_iff: "is_suppressed (suppress s e r) e' \<longleftrightarrow> is_suppressed s e' \<or> same e e'"
  using suppress_self suppress_keeps suppress_only same_suppressed by blast

lemma suppress_all_iff:
  "is_suppressed (fold (\<lambda>(e, r) s. suppress s e r) ers s) e' \<longleftrightarrow>
     is_suppressed s e' \<or> (\<exists>(e, r) \<in> set ers. same e e')"
  by (induction ers arbitrary: s) (auto simp: suppress_iff)

lemma suppress_all_keeps:
  "is_suppressed s e' \<Longrightarrow> is_suppressed (fold (\<lambda>(e, r) s. suppress s e r) ers s) e'"
  by (simp add: suppress_all_iff)

text \<open>The order in which addresses are suppressed does not matter to what may be mailed.\<close>

lemma suppress_commute:
  "is_suppressed (suppress (suppress s e1 r1) e2 r2) e' =
   is_suppressed (suppress (suppress s e2 r2) e1 r1) e'"
  by (auto simp: suppress_iff)

end

section \<open>Lemmas\<close>

definition same_address :: "string \<Rightarrow> string \<Rightarrow> bool" where
  "same_address e e' \<longleftrightarrow> normalize_email (Some e) = normalize_email (Some e')"

definition suppressed_set :: "db \<Rightarrow> string set" where
  "suppressed_set d = s_email ` set (suppressions d)"

lemma row_by_suppressed: "row_by s_email n (suppressions d) \<noteq> None \<longleftrightarrow> n \<in> suppressed_set d"
  by (simp add: row_by_None_iff suppressed_set_def)

lemma is_suppressed_sync_iff:
  "is_suppressed_sync d e \<longleftrightarrow>
     (case normalize_email (Some e) of None \<Rightarrow> True | Some n \<Rightarrow> n \<in> suppressed_set d)"
  by (simp add: is_suppressed_sync_def row_by_suppressed [symmetric] split: option.splits)

lemma is_suppressed_sync_canonical: "canonical e \<Longrightarrow> is_suppressed_sync d e \<longleftrightarrow> e \<in> suppressed_set d"
  by (simp add: is_suppressed_sync_iff)

lemma is_suppressed_async_eq: "is_suppressed_async d e = is_suppressed_sync d e"
  by (auto simp: is_suppressed_async_def is_suppressed_sync_def Let_def split: option.splits)

lemma suppress_async_eq: "suppress_async race d e r det upd = suppress_sync race d e r det upd"
  by (auto simp: suppress_async_def suppress_sync_def Let_def split: option.splits)

lemma suppressions_insert_suppression [simp]:
  "suppressions (insert_suppression e r det d) = suppressions d @
     [\<lparr>s_id = seqs d TSuppressions + 1, s_email = e, s_reason = r, s_detail = det\<rparr>]"
  by (simp add: insert_suppression_def next_id_def)

lemma suppressed_set_insert [simp]:
  "suppressed_set (insert_suppression e r det d) = insert e (suppressed_set d)"
  by (simp add: suppressed_set_def)

lemma mark_contact_suppressions [frame, simp]: "suppressions (mark_contact n r d) = suppressions d"
  by (simp add: mark_contact_def split: option.split)

lemma suppressed_set_mark [simp]: "suppressed_set (mark_contact n r d) = suppressed_set d"
  by (simp add: suppressed_set_def)

lemma suppress_sync_set:
  "suppressed_set (snd (suppress_sync None d e r det upd)) =
     (case normalize_email (Some e) of None \<Rightarrow> suppressed_set d | Some n \<Rightarrow> insert n (suppressed_set d))"
  using row_by_suppressed [of _ d]
  by (auto simp: suppress_sync_def Let_def split: option.splits)

lemma insert_suppression_frame [frame, simp]:
  "campaigns (insert_suppression e r det d) = campaigns d"
  "recipients (insert_suppression e r det d) = recipients d"
  "email_events (insert_suppression e r det d) = email_events d"
  "contacts (insert_suppression e r det d) = contacts d"
  "contact_lists (insert_suppression e r det d) = contact_lists d"
  "templates (insert_suppression e r det d) = templates d"
  "app_settings (insert_suppression e r det d) = app_settings d"
  "campaign_lists (insert_suppression e r det d) = campaign_lists d"
  "placements (insert_suppression e r det d) = placements d"
  "contact_sends (insert_suppression e r det d) = contact_sends d"
  "ip_warm_states (insert_suppression e r det d) = ip_warm_states d"
  by (simp_all add: insert_suppression_def)

lemma mark_contact_frame [frame, simp]:
  "campaigns (mark_contact n r d) = campaigns d" "recipients (mark_contact n r d) = recipients d"
  "email_events (mark_contact n r d) = email_events d"
  "contact_lists (mark_contact n r d) = contact_lists d" "templates (mark_contact n r d) = templates d"
  "app_settings (mark_contact n r d) = app_settings d"
  "campaign_lists (mark_contact n r d) = campaign_lists d"
  "placements (mark_contact n r d) = placements d"
  "contact_sends (mark_contact n r d) = contact_sends d"
  "ip_warm_states (mark_contact n r d) = ip_warm_states d" "seqs (mark_contact n r d) = seqs d"
  by (simp_all add: mark_contact_def split: option.split)

lemma suppress_sync_frame [frame, simp]:
  "campaigns (snd (suppress_sync None d e r det upd)) = campaigns d"
  "recipients (snd (suppress_sync None d e r det upd)) = recipients d"
  "email_events (snd (suppress_sync None d e r det upd)) = email_events d"
  "contact_lists (snd (suppress_sync None d e r det upd)) = contact_lists d"
  "templates (snd (suppress_sync None d e r det upd)) = templates d"
  "app_settings (snd (suppress_sync None d e r det upd)) = app_settings d"
  "campaign_lists (snd (suppress_sync None d e r det upd)) = campaign_lists d"
  "placements (snd (suppress_sync None d e r det upd)) = placements d"
  "contact_sends (snd (suppress_sync None d e r det upd)) = contact_sends d"
  "ip_warm_states (snd (suppress_sync None d e r det upd)) = ip_warm_states d"
  by (simp_all add: suppress_sync_def Let_def split: option.split)

lemma map_ct_mark_contact:
  assumes "\<And>c s. g (c\<lparr>ct_status := s\<rparr>) = g c"
  shows "map g (contacts (mark_contact n r d)) = map g (contacts d)"
  by (simp add: mark_contact_def map_upd_by assms split: option.split)

lemma map_ct_suppress_sync:
  assumes "\<And>c s. g (c\<lparr>ct_status := s\<rparr>) = g c"
  shows "map g (contacts (snd (suppress_sync None d e r det upd))) = map g (contacts d)"
  by (simp add: suppress_sync_def Let_def map_ct_mark_contact assms split: option.split)

interpretation sync: suppression_list is_suppressed_sync
  "\<lambda>d e rd. snd (suppress_sync None d e (fst rd) (snd rd) True)" same_address
  by unfold_locales
     (auto simp: is_suppressed_sync_iff suppress_sync_set same_address_def split: option.splits)

interpretation async: suppression_list is_suppressed_async
  "\<lambda>d e rd. snd (suppress_async None d e (fst rd) (snd rd) True)" same_address
  unfolding is_suppressed_async_eq suppress_async_eq by (rule sync.suppression_list_axioms)

text \<open>A contact that exists is flipped to the status its reason implies.\<close>

lemma suppress_sync_contact_status:
  assumes "normalize_email (Some e) = Some n" "row_by ct_email n (contacts d) = Some c"
    and "distinct (map ct_id (contacts d))"
  shows "get_contact_row (ct_id c) (snd (suppress_sync None d e r det True)) =
    Some (c\<lparr>ct_status := reason_to_contact_status r\<rparr>)"
proof -
  have "row_by ct_id (ct_id c) (contacts d) = Some c"
    using assms(2,3) row_by_SomeD row_by_unique by metis
  with assms(1,2) show ?thesis
    by (auto simp: suppress_sync_def Let_def mark_contact_def get_contact_row_def row_by_upd_by
        split: option.splits)
qed

text \<open>Suppressing again changes nothing.\<close>

lemma mark_contact_idem: "mark_contact n r (mark_contact n r d) = mark_contact n r d"
proof (cases "row_by ct_email n (contacts d)")
  case (Some c)
  let ?f = "\<lambda>c. c\<lparr>ct_status := reason_to_contact_status r\<rparr>"
  have m: "mark_contact n r d = upd_contact (ct_id c) ?f d" by (simp add: mark_contact_def Some)
  have "row_by ct_email n (contacts (upd_contact (ct_id c) ?f d)) = Some (?f c)"
    by (simp add: row_by_upd_other Some)
  then have "mark_contact n r (upd_contact (ct_id c) ?f d) = upd_contact (ct_id c) ?f (upd_contact (ct_id c) ?f d)"
    by (simp add: mark_contact_def)
  also have "\<dots> = upd_contact (ct_id c) ?f d"
    by (simp add: upd_contact_def upd_by_upd_by comp_def)
  finally show ?thesis by (simp add: m)
qed (simp add: mark_contact_def)

lemma suppress_sync_present:
  "normalize_email (Some e) = Some n \<Longrightarrow> n \<in> suppressed_set d \<Longrightarrow>
   snd (suppress_sync race d e r det upd) = (if upd then mark_contact n r d else d)"
  unfolding row_by_suppressed [symmetric] by (auto simp: suppress_sync_def Let_def)

lemma suppress_sync_idem:
  "snd (suppress_sync None (snd (suppress_sync None d e r det upd)) e r det upd) =
   snd (suppress_sync None d e r det upd)"
proof (cases "normalize_email (Some e)")
  case (Some n)
  have "n \<in> suppressed_set (snd (suppress_sync None d e r det upd))"
    by (simp add: suppress_sync_set Some)
  from suppress_sync_present [OF Some this, of None r det upd]
  have again: "snd (suppress_sync None (snd (suppress_sync None d e r det upd)) e r det upd) =
      (if upd then mark_contact n r (snd (suppress_sync None d e r det upd))
       else snd (suppress_sync None d e r det upd))" .
  have "\<exists>d1. snd (suppress_sync None d e r det upd) = (if upd then mark_contact n r d1 else d1)"
    by (auto simp: suppress_sync_def Some Let_def)
  then obtain d1 where "snd (suppress_sync None d e r det upd) = (if upd then mark_contact n r d1 else d1)"
    by blast
  then show ?thesis unfolding again by (cases upd) (simp_all add: mark_contact_idem)
qed (simp add: suppress_sync_def)

end
