(* ===== verification/Campaign_Store.thy ===== *)
theory Campaign_Store
  imports Models
begin

text \<open>
  What the campaign components share: the atomic counter update
  (\<open>app/services/counters.py\<close>) and the lists of a campaign
  (\<open>app/services/campaign_lists.py\<close>).
\<close>

section \<open>Saving a recipient row\<close>

text \<open>
  \<open>updated_at\<close> has \<open>onupdate=utcnow\<close>: a row that really changed is stamped with the instant
  of the transaction.
\<close>

definition touch :: "instant \<Rightarrow> (campaign_recipient \<Rightarrow> campaign_recipient) \<Rightarrow> campaign_recipient \<Rightarrow> campaign_recipient" where
  "touch now f r = (if f r = r then r else (f r)\<lparr>cr_updated_at := now\<rparr>)"

definition save_recipient :: "instant \<Rightarrow> id \<Rightarrow> (campaign_recipient \<Rightarrow> campaign_recipient) \<Rightarrow> db \<Rightarrow> db" where
  "save_recipient now i f d = upd_recipient i (touch now f) d"

lemma touch_keeps:
  assumes "\<And>r t. g (r\<lparr>cr_updated_at := t\<rparr>) = g r"
  shows "g (touch now f r) = g (f r)"
  by (simp add: touch_def assms)

lemma touch_fields [simp]:
  "cr_id (touch now f r) = cr_id (f r)" "cr_campaign_id (touch now f r) = cr_campaign_id (f r)"
  "cr_contact_id (touch now f r) = cr_contact_id (f r)" "cr_status (touch now f r) = cr_status (f r)"
  "cr_email_snapshot (touch now f r) = cr_email_snapshot (f r)"
  "cr_postal_message_id (touch now f r) = cr_postal_message_id (f r)"
  "cr_error_detail (touch now f r) = cr_error_detail (f r)" "cr_ip_pool (touch now f r) = cr_ip_pool (f r)"
  "cr_last_event_at (touch now f r) = cr_last_event_at (f r)"
  "cr_merge_snapshot (touch now f r) = cr_merge_snapshot (f r)"
  by (simp_all add: touch_def)

lemma save_recipient_frame [frame, simp]:
  "campaigns (save_recipient now i f d) = campaigns d" "email_events (save_recipient now i f d) = email_events d"
  "contacts (save_recipient now i f d) = contacts d" "contact_lists (save_recipient now i f d) = contact_lists d"
  "suppressions (save_recipient now i f d) = suppressions d" "templates (save_recipient now i f d) = templates d"
  "app_settings (save_recipient now i f d) = app_settings d"
  "campaign_lists (save_recipient now i f d) = campaign_lists d" "placements (save_recipient now i f d) = placements d"
  "contact_sends (save_recipient now i f d) = contact_sends d"
  "ip_warm_states (save_recipient now i f d) = ip_warm_states d" "seqs (save_recipient now i f d) = seqs d"
  "recipients (save_recipient now i f d) = upd_by cr_id i (touch now f) (recipients d)"
  by (simp_all add: save_recipient_def)

section \<open>Counters\<close>

datatype counter = TotalRecipients | QueuedCount | SentCount | DeliveredCount | BouncedCount
  | FailedCount | SkippedCount

fun add_counter :: "counter \<Rightarrow> int \<Rightarrow> campaign \<Rightarrow> campaign" where
  "add_counter TotalRecipients n c = c\<lparr>c_total_recipients := c_total_recipients c + n\<rparr>"
| "add_counter QueuedCount n c = c\<lparr>c_queued_count := c_queued_count c + n\<rparr>"
| "add_counter SentCount n c = c\<lparr>c_sent_count := c_sent_count c + n\<rparr>"
| "add_counter DeliveredCount n c = c\<lparr>c_delivered_count := c_delivered_count c + n\<rparr>"
| "add_counter BouncedCount n c = c\<lparr>c_bounced_count := c_bounced_count c + n\<rparr>"
| "add_counter FailedCount n c = c\<lparr>c_failed_count := c_failed_count c + n\<rparr>"
| "add_counter SkippedCount n c = c\<lparr>c_skipped_count := c_skipped_count c + n\<rparr>"

definition bump_campaign :: "id \<Rightarrow> (counter \<times> int) list \<Rightarrow> db \<Rightarrow> db" where
  "bump_campaign campaign_id deltas d =
     (if deltas = [] then d
      else upd_campaign campaign_id (\<lambda>c. fold (\<lambda>(k, v). add_counter k v) deltas c) d)"

lemma add_counter_keeps [simp]:
  "c_id (add_counter k n c) = c_id c" "c_status (add_counter k n c) = c_status c"
  "c_list_id (add_counter k n c) = c_list_id c" "c_template_id (add_counter k n c) = c_template_id c"
  "c_scheduled_at (add_counter k n c) = c_scheduled_at c"
  "c_parent_campaign_id (add_counter k n c) = c_parent_campaign_id c"
  by (cases k; simp)+

lemma fold_add_counter_keeps [simp]:
  "c_id (fold (\<lambda>(k, v). add_counter k v) deltas c) = c_id c"
  "c_status (fold (\<lambda>(k, v). add_counter k v) deltas c) = c_status c"
  "c_list_id (fold (\<lambda>(k, v). add_counter k v) deltas c) = c_list_id c"
  "c_template_id (fold (\<lambda>(k, v). add_counter k v) deltas c) = c_template_id c"
  "c_parent_campaign_id (fold (\<lambda>(k, v). add_counter k v) deltas c) = c_parent_campaign_id c"
  by (induction deltas arbitrary: c) auto

lemma bump_campaign_frame [frame, simp]:
  "recipients (bump_campaign i ds d) = recipients d" "email_events (bump_campaign i ds d) = email_events d"
  "contacts (bump_campaign i ds d) = contacts d" "suppressions (bump_campaign i ds d) = suppressions d"
  "contact_lists (bump_campaign i ds d) = contact_lists d" "templates (bump_campaign i ds d) = templates d"
  "app_settings (bump_campaign i ds d) = app_settings d"
  "campaign_lists (bump_campaign i ds d) = campaign_lists d"
  "contact_sends (bump_campaign i ds d) = contact_sends d" "placements (bump_campaign i ds d) = placements d"
  "ip_warm_states (bump_campaign i ds d) = ip_warm_states d" "seqs (bump_campaign i ds d) = seqs d"
  by (simp_all add: bump_campaign_def)

lemma get_campaign_bump:
  "get_campaign_row i (bump_campaign j ds d) =
     (if i = j then map_option (\<lambda>c. fold (\<lambda>(k, v). add_counter k v) ds c) (get_campaign_row i d)
      else get_campaign_row i d)"
  by (simp add: bump_campaign_def get_campaign_row_def row_by_upd_by option.map_id0 split: option.split)
     (cases "row_by c_id j (campaigns d)"; simp)

lemma map_bump_campaign:
  assumes "\<And>k n c. g (add_counter k n c) = g c"
  shows "map g (campaigns (bump_campaign i ds d)) = map g (campaigns d)"
proof -
  have "g (fold (\<lambda>(k, v). add_counter k v) ds c) = g c" for c
    by (induction ds arbitrary: c) (auto simp: assms)
  then show ?thesis by (simp add: bump_campaign_def map_upd_by)
qed

text \<open>Two updates commute: no increment is lost, whatever the order of the workers.\<close>

lemma add_counter_commute: "add_counter k m (add_counter l n c) = add_counter l n (add_counter k m c)"
  by (cases k; cases l) simp_all

lemma fold_counters_commute1:
  "add_counter k m (fold (\<lambda>(k, v). add_counter k v) ds c) = fold (\<lambda>(k, v). add_counter k v) ds (add_counter k m c)"
  by (induction ds arbitrary: c) (auto simp: add_counter_commute [of k])

lemma fold_counters_commute:
  "fold (\<lambda>(k, v). add_counter k v) ds (fold (\<lambda>(k, v). add_counter k v) es c) =
   fold (\<lambda>(k, v). add_counter k v) es (fold (\<lambda>(k, v). add_counter k v) ds c)"
  by (induction ds arbitrary: c) (auto simp: fold_counters_commute1)

section \<open>Lists of a campaign\<close>

definition get_campaign_list_ids :: "db \<Rightarrow> id \<Rightarrow> id list" where
  "get_campaign_list_ids d campaign_id =
     map cl_list_id (filter (\<lambda>r. cl_campaign_id r = campaign_id) (campaign_lists d))"

definition campaign_list_ids_sync :: "db \<Rightarrow> id \<Rightarrow> id list" where
  "campaign_list_ids_sync d campaign_id =
     (let ids = get_campaign_list_ids d campaign_id in
      if ids \<noteq> [] then ids
      else case get_campaign_row campaign_id d of
             None \<Rightarrow> []
           | Some c \<Rightarrow> (case c_list_id c of None \<Rightarrow> [] | Some legacy \<Rightarrow> if legacy \<noteq> 0 then [legacy] else []))"

fun add_campaign_lists :: "id \<Rightarrow> id list \<Rightarrow> id set \<Rightarrow> db \<Rightarrow> db" where
  "add_campaign_lists campaign_id [] seen d = d"
| "add_campaign_lists campaign_id (lid # lids) seen d =
     (if lid \<noteq> 0 \<and> lid \<notin> seen
      then add_campaign_lists campaign_id lids (insert lid seen)
             (bump_seq TCampaignLists (d\<lparr>campaign_lists := campaign_lists d @
                [\<lparr>cl_id = next_id TCampaignLists d, cl_campaign_id = campaign_id, cl_list_id = lid\<rparr>]\<rparr>))
      else add_campaign_lists campaign_id lids seen d)"

definition set_campaign_lists :: "id \<Rightarrow> id list \<Rightarrow> db \<Rightarrow> db" where
  "set_campaign_lists campaign_id list_ids d =
     add_campaign_lists campaign_id list_ids {}
       (d\<lparr>campaign_lists := filter (\<lambda>r. cl_campaign_id r \<noteq> campaign_id) (campaign_lists d)\<rparr>)"

lemma add_campaign_lists_frame [frame, simp]:
  "campaigns (add_campaign_lists i ls seen d) = campaigns d"
  "recipients (add_campaign_lists i ls seen d) = recipients d"
  "contacts (add_campaign_lists i ls seen d) = contacts d"
  "suppressions (add_campaign_lists i ls seen d) = suppressions d"
  "contact_lists (add_campaign_lists i ls seen d) = contact_lists d"
  "templates (add_campaign_lists i ls seen d) = templates d"
  "placements (add_campaign_lists i ls seen d) = placements d"
  "app_settings (add_campaign_lists i ls seen d) = app_settings d"
  "contact_sends (add_campaign_lists i ls seen d) = contact_sends d"
  "email_events (add_campaign_lists i ls seen d) = email_events d"
  "ip_warm_states (add_campaign_lists i ls seen d) = ip_warm_states d"
  by (induction i ls seen d rule: add_campaign_lists.induct) simp_all

lemma set_campaign_lists_frame [frame, simp]:
  "campaigns (set_campaign_lists i ls d) = campaigns d" "recipients (set_campaign_lists i ls d) = recipients d"
  "contacts (set_campaign_lists i ls d) = contacts d" "suppressions (set_campaign_lists i ls d) = suppressions d"
  "contact_lists (set_campaign_lists i ls d) = contact_lists d"
  "templates (set_campaign_lists i ls d) = templates d" "placements (set_campaign_lists i ls d) = placements d"
  "app_settings (set_campaign_lists i ls d) = app_settings d"
  "contact_sends (set_campaign_lists i ls d) = contact_sends d"
  "email_events (set_campaign_lists i ls d) = email_events d"
  "ip_warm_states (set_campaign_lists i ls d) = ip_warm_states d"
  by (simp_all add: set_campaign_lists_def)

lemma add_campaign_lists_ids:
  "get_campaign_list_ids (add_campaign_lists i ls seen d) j =
     get_campaign_list_ids d j @
       (if j = i then rev (remdups (rev (filter (\<lambda>l. l \<noteq> 0 \<and> l \<notin> seen) ls))) else [])"
proof (induction i ls seen d rule: add_campaign_lists.induct)
  case (2 i l ls seen d)
  have rd: "rev (remdups (rev ys @ [y])) = y # rev (remdups (rev (filter (\<lambda>z. z \<noteq> y) ys)))"
    for y and ys :: "id list"
  proof -
    have "remdups (zs @ [y]) = remdups (filter (\<lambda>z. z \<noteq> y) zs) @ [y]" for zs :: "id list"
      by (induction zs) auto
    from this [of "rev ys"] show ?thesis by (simp add: rev_filter)
  qed
  have eq: "filter (\<lambda>z. z \<noteq> l) (filter (\<lambda>z. z \<noteq> 0 \<and> z \<notin> seen) ls) =
      filter (\<lambda>z. z \<noteq> 0 \<and> z \<notin> insert l seen) ls"
    by (simp add: conj_commute conj_left_commute)
  show ?case
  proof (cases "l \<noteq> 0 \<and> l \<notin> seen")
    case True
    with 2 show ?thesis
      by (auto simp: get_campaign_list_ids_def rd eq [simplified])
  next
    case False
    with 2 show ?thesis by auto
  qed
qed (simp add: get_campaign_list_ids_def)

text \<open>The lists of a campaign after a save: the given ones, without repeats, in order.\<close>

lemma set_campaign_lists_ids:
  "get_campaign_list_ids (set_campaign_lists i ls d) j =
     (if j = i then rev (remdups (rev (filter (\<lambda>l. l \<noteq> 0) ls))) else get_campaign_list_ids d j)"
  unfolding set_campaign_lists_def add_campaign_lists_ids
  by (auto simp: get_campaign_list_ids_def intro!: arg_cong [where f = "map cl_list_id"] filter_cong)

section \<open>Inserting and deleting a campaign\<close>

text \<open>
  The foreign keys of the database: a campaign's list and template must exist when it is
  inserted.  Deleting a campaign cascades to its recipients, their events, its list links,
  placements and frequency log, and clears \<open>parent_campaign_id\<close> of its runs.
\<close>

definition refs_ok :: "db \<Rightarrow> campaign \<Rightarrow> bool" where
  "refs_ok d c \<longleftrightarrow>
     (case c_list_id c of None \<Rightarrow> True | Some l \<Rightarrow> get_list_row l d \<noteq> None) \<and>
     (case c_template_id c of None \<Rightarrow> True | Some t \<Rightarrow> get_template_row t d \<noteq> None)"

definition insert_campaign :: "campaign \<Rightarrow> db \<Rightarrow> exn + campaign \<times> db" where
  "insert_campaign c d =
     (if refs_ok d c
      then Inr (c, bump_seq TCampaigns (d\<lparr>campaigns := campaigns d @ [c]\<rparr>))
      else Inl IntegrityError)"

definition delete_recipients :: "(campaign_recipient \<Rightarrow> bool) \<Rightarrow> db \<Rightarrow> db" where
  "delete_recipients P d =
     (let gone = set (map cr_id (filter P (recipients d)))
      in d\<lparr>recipients := filter (\<lambda>r. \<not> P r) (recipients d),
           email_events := filter (\<lambda>e. ev_campaign_recipient_id e \<notin> gone) (email_events d)\<rparr>)"

definition clear_parent :: "id \<Rightarrow> campaign \<Rightarrow> campaign" where
  "clear_parent cid c = (if c_parent_campaign_id c = Some cid then c\<lparr>c_parent_campaign_id := None\<rparr> else c)"

definition delete_campaign_row :: "id \<Rightarrow> db \<Rightarrow> db" where
  "delete_campaign_row cid d =
     (let d1 = delete_recipients (\<lambda>r. cr_campaign_id r = cid) d
      in d1\<lparr>campaigns :=
              map (clear_parent cid) (del_by c_id cid (campaigns d1)),
            campaign_lists := filter (\<lambda>r. cl_campaign_id r \<noteq> cid) (campaign_lists d1),
            placements := filter (\<lambda>p. p_campaign_id p \<noteq> cid) (placements d1),
            contact_sends := filter (\<lambda>r. cs_campaign_id r \<noteq> cid) (contact_sends d1)\<rparr>)"

lemma row_by_map_keep:
  assumes "\<And>c. key (g c) = key c"
  shows "row_by key k (map g rows) = map_option g (row_by key k rows)"
  by (induction rows) (auto simp: assms)

lemma clear_parent_keeps [simp]:
  "c_id (clear_parent cid c) = c_id c" "c_status (clear_parent cid c) = c_status c"
  by (simp_all add: clear_parent_def)

lemma get_campaign_delete:
  "get_campaign_row i (delete_campaign_row cid d) =
     (if i = cid then None else map_option (clear_parent cid) (get_campaign_row i d))"
  by (simp add: delete_campaign_row_def delete_recipients_def get_campaign_row_def row_by_map_keep
      row_by_del_by Let_def)

lemma delete_campaign_row_clean:
  "r \<in> set (recipients (delete_campaign_row cid d)) \<Longrightarrow> cr_campaign_id r \<noteq> cid"
  "l \<in> set (campaign_lists (delete_campaign_row cid d)) \<Longrightarrow> cl_campaign_id l \<noteq> cid"
  "p \<in> set (placements (delete_campaign_row cid d)) \<Longrightarrow> p_campaign_id p \<noteq> cid"
  "s \<in> set (contact_sends (delete_campaign_row cid d)) \<Longrightarrow> cs_campaign_id s \<noteq> cid"
  by (auto simp: delete_campaign_row_def delete_recipients_def Let_def)

lemma delete_campaign_row_frame [frame, simp]:
  "contacts (delete_campaign_row cid d) = contacts d" "suppressions (delete_campaign_row cid d) = suppressions d"
  "contact_lists (delete_campaign_row cid d) = contact_lists d" "templates (delete_campaign_row cid d) = templates d"
  "app_settings (delete_campaign_row cid d) = app_settings d" "seqs (delete_campaign_row cid d) = seqs d"
  by (simp_all add: delete_campaign_row_def delete_recipients_def Let_def)

end
