(* ===== verification/Bounce.thy ===== *)
theory Bounce
  imports Webhook Suppression Campaign_Store
begin

text \<open>
  Webhook reconciliation (\<open>app/services/bounce.py\<close>) and its task
  (\<open>app/tasks/webhooks.py\<close>).  \<open>race\<close> is the state a lost race of the suppression insert rolls
  back to (see \<open>Suppression\<close>).  A recipient is matched by the first row, in table order,
  whose stored Postal token is the event's.
\<close>

section \<open>Operations\<close>

definition permanent_statuses :: "string set" where
  "permanent_statuses = {''hardfail'', ''hard_fail'', ''permanent''}"

definition status_word :: "postal_event \<Rightarrow> string" where
  "status_word e = py_lower (py_strip (case pe_status e of None \<Rightarrow> [] | Some s \<Rightarrow> s))"

definition is_deferral :: "postal_event \<Rightarrow> bool" where
  "is_deferral e =
     (if \<not> is_failure e \<or> is_complaint e then False
      else if pe_event_type e = ''MessageBounced'' then False
      else status_word e \<notin> permanent_statuses)"

definition classify_bounce :: "postal_event \<Rightarrow> bool" where
  "classify_bounce e =
     (if is_complaint e then True
      else if pe_event_type e = ''MessageBounced'' then True
      else status_word e \<in> permanent_statuses)"

definition is_duplicate :: "db \<Rightarrow> postal_event \<Rightarrow> bool" where
  "is_duplicate d e =
     (if \<not> present (pe_event_uuid e) then False
      else row_by ev_provider_event_id (pe_event_uuid e) (email_events d) \<noteq> None)"

definition suppress_reason :: "postal_event \<Rightarrow> suppression_reason" where
  "suppress_reason e = (if is_complaint e then Complaint else HardBounce)"

definition match_recipient :: "db \<Rightarrow> postal_event \<Rightarrow> campaign_recipient option" where
  "match_recipient d e =
     (if present (pe_message_token e)
      then row_by cr_postal_message_id (pe_message_token e) (recipients d) else None)"

definition log_event :: "id \<Rightarrow> postal_event \<Rightarrow> db \<Rightarrow> db" where
  "log_event rid e d =
     bump_seq TEmailEvents (d\<lparr>email_events := email_events d @
       [\<lparr>ev_id = next_id TEmailEvents d, ev_campaign_recipient_id = rid, ev_type = pe_event_type e,
         ev_status = pe_status e, ev_provider_event_id = pe_event_uuid e, ev_raw_payload = pe_raw e,
         ev_occurred_at = pe_occurred_at e\<rparr>]\<rparr>)"

definition apply_event :: "instant \<Rightarrow> db option \<Rightarrow> db \<Rightarrow> postal_event \<Rightarrow> string \<times> db" where
  "apply_event now race d e =
     (if is_duplicate d e then (''duplicate'', d)
      else case match_recipient d e of
        None \<Rightarrow>
          (''unmatched'',
           if (is_failure e \<or> is_complaint e) \<and> present (pe_recipient_email e) \<and> classify_bounce e
           then snd (suppress_sync race d (the (pe_recipient_email e)) (suppress_reason e) (pe_detail e) True)
           else d)
      | Some cr \<Rightarrow>
          let d1 = save_recipient now (cr_id cr) (\<lambda>r. r\<lparr>cr_last_event_at := Some (pe_occurred_at e)\<rparr>)
                     (log_event (cr_id cr) e d)
          in if is_delivery e then
               (''delivered'',
                if cr_status cr \<noteq> RDelivered
                then bump_campaign (cr_campaign_id cr) [(DeliveredCount, 1)]
                       (save_recipient now (cr_id cr) (\<lambda>r. r\<lparr>cr_status := RDelivered\<rparr>) d1)
                else d1)
             else if is_failure e \<or> is_complaint e then
               if is_deferral e then (''deferred'', d1)
               else
                 let already_bounced = (cr_status cr = RBounced);
                     d2 = save_recipient now (cr_id cr) (\<lambda>r. r\<lparr>cr_status := RBounced\<rparr>) d1;
                     d3 = (if cr_error_detail cr = None \<and> present (pe_detail e)
                           then save_recipient now (cr_id cr)
                                  (\<lambda>r. r\<lparr>cr_error_detail := Some (take 1000 (the (pe_detail e)))\<rparr>) d2
                           else d2);
                     d4 = (if \<not> already_bounced
                           then bump_campaign (cr_campaign_id cr) [(BouncedCount, 1)] d3 else d3);
                     d5 = (if classify_bounce e
                           then snd (suppress_sync race d4 (cr_email_snapshot cr) (suppress_reason e)
                                       (pe_detail e) True)
                           else d4)
                 in (if is_complaint e then ''complaint'' else ''bounced'', d5)
             else (''ignored'', d1))"

definition process_webhook ::
  "(json \<Rightarrow> string) \<Rightarrow> instant \<Rightarrow> db option \<Rightarrow> json \<Rightarrow> db \<Rightarrow> exn + string \<times> db" where
  "process_webhook rep now race body d =
     and_then (parse_event rep now body) (\<lambda>e. Inr (apply_event now race d e))"

section \<open>Lemmas\<close>

lemma log_event_frame [frame, simp]:
  "campaigns (log_event i e d) = campaigns d" "recipients (log_event i e d) = recipients d"
  "contacts (log_event i e d) = contacts d" "suppressions (log_event i e d) = suppressions d"
  "contact_lists (log_event i e d) = contact_lists d" "app_settings (log_event i e d) = app_settings d"
  "contact_sends (log_event i e d) = contact_sends d" "templates (log_event i e d) = templates d"
  "campaign_lists (log_event i e d) = campaign_lists d"
  by (simp_all add: log_event_def)

lemma suppressed_set_cong: "suppressions d' = suppressions d \<Longrightarrow> suppressed_set d' = suppressed_set d"
  by (simp add: suppressed_set_def)

lemma suppressed_set_frame [simp]:
  "suppressed_set (upd_recipient i f d) = suppressed_set d"
  "suppressed_set (save_recipient now i f d) = suppressed_set d" "suppressed_set (log_event i e d) = suppressed_set d"
  "suppressed_set (bump_campaign i ds d) = suppressed_set d" "suppressed_set (upd_campaign i g d) = suppressed_set d"
  by (simp_all add: suppressed_set_def)

text \<open>The address an event puts on the suppression list, if any.\<close>

definition event_address :: "db \<Rightarrow> postal_event \<Rightarrow> string option" where
  "event_address d e =
     (if is_duplicate d e \<or> \<not> (is_failure e \<or> is_complaint e) \<or> \<not> classify_bounce e then None
      else case match_recipient d e of
             None \<Rightarrow> (if present (pe_recipient_email e) then normalize_email (pe_recipient_email e) else None)
           | Some cr \<Rightarrow> normalize_email (Some (cr_email_snapshot cr)))"

lemma deferral_not_classified: "is_deferral e \<Longrightarrow> \<not> classify_bounce e"
  by (auto simp: is_deferral_def classify_bounce_def split: if_splits)

lemma deferral_iff: "is_failure e \<Longrightarrow> is_deferral e \<longleftrightarrow> \<not> classify_bounce e"
  using event_classes_disjoint(3) by (auto simp: is_deferral_def classify_bounce_def)

lemma apply_event_suppressed_set:
  "suppressed_set (snd (apply_event now None d e)) =
     (case event_address d e of None \<Rightarrow> suppressed_set d | Some n \<Rightarrow> insert n (suppressed_set d))"
proof -
  have dis: "is_delivery e \<Longrightarrow> \<not> (is_failure e \<or> is_complaint e)"
    using event_classes_disjoint by blast
  have pr: "present (pe_recipient_email e) \<Longrightarrow> Some (the (pe_recipient_email e)) = pe_recipient_email e"
    by (auto simp: present_def split: option.splits)
  show ?thesis
  proof (cases "is_duplicate d e")
    case True
    then show ?thesis by (simp add: apply_event_def event_address_def)
  next
    case new: False
    show ?thesis
    proof (cases "match_recipient d e")
      case None
      with new show ?thesis by (auto simp: apply_event_def event_address_def suppress_sync_set pr)
    next
      case (Some cr)
      show ?thesis
      proof (cases "(is_failure e \<or> is_complaint e) \<and> classify_bounce e")
        case True
        then have "\<not> is_delivery e" "\<not> is_deferral e" using dis deferral_not_classified by blast+
        with True new Some show ?thesis
          by (cases "normalize_email (Some (cr_email_snapshot cr))")
             (simp_all add: apply_event_def event_address_def Let_def suppress_sync_set)
      next
        case False
        then have "event_address d e = None" by (auto simp: event_address_def)
        moreover have "suppressed_set (snd (apply_event now None d e)) = suppressed_set d"
          using False new Some by (auto simp: apply_event_def Let_def)
        ultimately show ?thesis by simp
      qed
    qed
  qed
qed

text \<open>A matched event is logged under its uuid, so a redelivery is recognised.\<close>

lemma apply_event_logged:
  assumes "\<not> is_duplicate d e" "match_recipient d e = Some cr"
  shows "email_events (snd (apply_event now None d e)) = email_events (log_event (cr_id cr) e d)"
  using assms by (simp add: apply_event_def Let_def)

lemma apply_event_unmatched:
  assumes "\<not> is_duplicate d e" "match_recipient d e = None"
  shows "email_events (snd (apply_event now None d e)) = email_events d"
    "recipients (snd (apply_event now None d e)) = recipients d"
    "campaigns (snd (apply_event now None d e)) = campaigns d"
  using assms by (simp_all add: apply_event_def Let_def)

lemma redelivery_unchanged:
  assumes "present (pe_event_uuid e)"
  shows "snd (apply_event later None (snd (apply_event now None d e)) e) = snd (apply_event now None d e)"
proof (cases "is_duplicate d e")
  case True
  then show ?thesis by (simp add: apply_event_def)
next
  case new: False
  let ?d = "snd (apply_event now None d e)"
  show ?thesis
  proof (cases "match_recipient d e")
    case (Some cr)
    have "row_by ev_provider_event_id (pe_event_uuid e) (email_events ?d) \<noteq> None"
      by (auto simp: apply_event_logged [OF new Some] log_event_def row_by_append split: option.splits)
    with assms have "is_duplicate ?d e" by (simp add: is_duplicate_def)
    then show ?thesis by (simp add: apply_event_def [of later None ?d])
  next
    case None
    note same = apply_event_unmatched [OF new None]
    have "\<not> is_duplicate ?d e" "match_recipient ?d e = None"
      using new None unfolding is_duplicate_def match_recipient_def same .
    with new None show ?thesis
      by (auto simp: apply_event_def suppress_sync_idem)
  qed
qed

text \<open>
  The whole effect on a matched recipient's row, and the fact that every other row stays as
  it is.
\<close>

definition event_row :: "instant \<Rightarrow> postal_event \<Rightarrow> campaign_recipient \<Rightarrow> campaign_recipient" where
  "event_row now e r =
     (let r1 = touch now (\<lambda>r. r\<lparr>cr_last_event_at := Some (pe_occurred_at e)\<rparr>) r in
      if is_delivery e then
        (if cr_status r \<noteq> RDelivered then touch now (\<lambda>r. r\<lparr>cr_status := RDelivered\<rparr>) r1 else r1)
      else if (is_failure e \<or> is_complaint e) \<and> \<not> is_deferral e then
        (let r2 = touch now (\<lambda>r. r\<lparr>cr_status := RBounced\<rparr>) r1
         in if cr_error_detail r = None \<and> present (pe_detail e)
            then touch now (\<lambda>r. r\<lparr>cr_error_detail := Some (take 1000 (the (pe_detail e)))\<rparr>) r2 else r2)
      else r1)"

lemma event_row_keeps [simp]:
  "cr_id (event_row now e r) = cr_id r" "cr_campaign_id (event_row now e r) = cr_campaign_id r"
  "cr_contact_id (event_row now e r) = cr_contact_id r"
  "cr_email_snapshot (event_row now e r) = cr_email_snapshot r"
  "cr_postal_message_id (event_row now e r) = cr_postal_message_id r"
  by (simp_all add: event_row_def Let_def)

lemma event_row_status:
  "cr_status (event_row now e r) =
     (if is_delivery e then RDelivered
      else if (is_failure e \<or> is_complaint e) \<and> \<not> is_deferral e then RBounced else cr_status r)"
  by (simp add: event_row_def Let_def)

lemma match_recipientD:
  "match_recipient d e = Some cr \<Longrightarrow> cr \<in> set (recipients d)"
  by (auto simp: match_recipient_def dest: row_by_SomeD split: if_splits)

lemma upd_by_cong_row:
  assumes "distinct (map key rows)" "r \<in> set rows" "f r = g r"
  shows "upd_by key (key r) f rows = upd_by key (key r) g rows"
  using assms by (auto simp: upd_by_def distinct_map inj_on_def)

lemma apply_event_recipients:
  assumes ids: "distinct (map cr_id (recipients d))"
  shows "recipients (snd (apply_event now None d e)) =
    (if is_duplicate d e then recipients d
     else case match_recipient d e of
            None \<Rightarrow> recipients d
          | Some cr \<Rightarrow> upd_by cr_id (cr_id cr) (event_row now e) (recipients d))"
proof (cases "is_duplicate d e \<or> match_recipient d e = None")
  case True
  then show ?thesis by (auto simp: apply_event_def split: option.splits)
next
  case False
  then obtain cr where cr: "match_recipient d e = Some cr" and new: "\<not> is_duplicate d e" by auto
  note cong = upd_by_cong_row [OF ids match_recipientD [OF cr]]
  have dis: "is_delivery e \<Longrightarrow> \<not> is_failure e" "is_delivery e \<Longrightarrow> \<not> is_complaint e"
    using event_classes_disjoint by blast+
  have "recipients (snd (apply_event now None d e)) = upd_by cr_id (cr_id cr) (event_row now e) (recipients d)"
  proof (cases "is_delivery e")
    case True
    then show ?thesis
      by (cases "cr_status cr = RDelivered")
         (simp_all add: apply_event_def cr new Let_def upd_by_upd_by, (rule cong, simp add: event_row_def Let_def)+)
  next
    case deliv: False
    show ?thesis
    proof (cases "(is_failure e \<or> is_complaint e) \<and> \<not> is_deferral e")
      case True
      with deliv show ?thesis
        by (cases "cr_error_detail cr = None \<and> present (pe_detail e)"; cases "is_complaint e"; cases "cr_status cr = RBounced")
           (auto simp: apply_event_def cr new Let_def upd_by_upd_by event_row_def intro!: cong)
    next
      case False
      with deliv have "recipients (snd (apply_event now None d e)) =
          upd_by cr_id (cr_id cr) (touch now (\<lambda>r. r\<lparr>cr_last_event_at := Some (pe_occurred_at e)\<rparr>)) (recipients d)"
        by (auto simp: apply_event_def cr new Let_def)
      moreover have "event_row now e = touch now (\<lambda>r. r\<lparr>cr_last_event_at := Some (pe_occurred_at e)\<rparr>)"
        using False deliv by (intro ext) (auto simp: event_row_def Let_def)
      ultimately show ?thesis by simp
    qed
  qed
  then show ?thesis using cr new by simp
qed

text \<open>The counters: a recipient that becomes delivered, or bounced, is counted once for it.\<close>

definition event_deltas :: "db \<Rightarrow> postal_event \<Rightarrow> (id \<times> (counter \<times> int) list) option" where
  "event_deltas d e =
     (case match_recipient d e of
        None \<Rightarrow> None
      | Some cr \<Rightarrow>
          if is_duplicate d e then None
          else if is_delivery e \<and> cr_status cr \<noteq> RDelivered then Some (cr_campaign_id cr, [(DeliveredCount, 1)])
          else if (is_failure e \<or> is_complaint e) \<and> \<not> is_deferral e \<and> cr_status cr \<noteq> RBounced
          then Some (cr_campaign_id cr, [(BouncedCount, 1)]) else None)"

lemma apply_event_campaigns:
  "campaigns (snd (apply_event now None d e)) =
     (case event_deltas d e of
        None \<Rightarrow> campaigns d
      | Some (cid, ds) \<Rightarrow> campaigns (bump_campaign cid ds d))"
proof (cases "match_recipient d e")
  case None
  then show ?thesis by (simp add: apply_event_def event_deltas_def)
next
  case (Some cr)
  show ?thesis
  proof (cases "is_duplicate d e")
    case True
    with Some show ?thesis by (simp add: apply_event_def event_deltas_def)
  next
    case False
    with Some event_classes_disjoint(1,2) [of e] show ?thesis
      by (cases "is_delivery e") (simp_all add: apply_event_def event_deltas_def bump_campaign_def Let_def)
  qed
qed

section \<open>Properties\<close>

text \<open>For the witnesses: a campaign's one recipient, and the events of its message.\<close>

definition mailed_db :: db where
  "mailed_db = empty_db\<lparr>recipients :=
     [\<lparr>cr_id = 1, cr_campaign_id = 1, cr_contact_id = None, cr_email_snapshot = ''a@x.com'',
       cr_merge_snapshot = \<lparr>ms_first_name = None, ms_last_name = None, ms_custom_fields = []\<rparr>,
       cr_status = RSent, cr_postal_message_id = Some ''tok'', cr_ip_pool = None, cr_last_event_at = None,
       cr_error_detail = None, cr_updated_at = 0\<rparr>]\<rparr>"

definition event_named :: "string \<Rightarrow> string \<Rightarrow> postal_event" where
  "event_named ty uuid = \<lparr>pe_event_type = ty, pe_event_uuid = Some uuid, pe_message_token = Some ''tok'',
     pe_recipient_email = Some ''a@x.com'', pe_status = None, pe_detail = None, pe_occurred_at = 0, pe_raw = JNull\<rparr>"

text \<open>
  C16: A redelivered event that carries an event uuid changes nothing: Postal may retry its webhook any
  number of times.  (Without a uuid no event is recognised as a duplicate.)
\<close>

theorem redelivery_idempotent:
  assumes "present (pe_event_uuid e)"
  shows "snd (apply_event later None (snd (apply_event now None d e)) e) = snd (apply_event now None d e)"
  using assms by (rule redelivery_unchanged)

theorem redelivery_idempotent_witness:
  "snd (apply_event 9 None (snd (apply_event 5 None mailed_db (event_named ''MessageBounced'' ''u1''))) (event_named ''MessageBounced'' ''u1'')) =
   snd (apply_event 5 None mailed_db (event_named ''MessageBounced'' ''u1''))"
  by (rule redelivery_idempotent) (simp add: event_named_def present_def)

text \<open>
  C23: An event that was not seen before suppresses the address of the recipient it matches (else the
  address of its message) exactly when it is a complaint, a bounce message, or a failure whose status is
  permanent, and it suppresses no other address.  A soft failure or a held message suppresses nothing,
  although the documents of the repository promise it for every failure.
\<close>

theorem event_suppression_exact:
  "is_suppressed_sync (snd (apply_event now None d e)) a \<longleftrightarrow>
     is_suppressed_sync d a \<or>
     \<not> is_duplicate d e \<and>
     (is_complaint e \<or> pe_event_type e = ''MessageBounced'' \<or>
      is_failure e \<and> status_word e \<in> {''hardfail'', ''hard_fail'', ''permanent''}) \<and>
     (case match_recipient d e of
        None \<Rightarrow> present (pe_recipient_email e) \<and> same_address (the (pe_recipient_email e)) a
      | Some cr \<Rightarrow> same_address (cr_email_snapshot cr) a)"
proof -
  have kinds: "(is_failure e \<or> is_complaint e) \<and> classify_bounce e \<longleftrightarrow>
      is_complaint e \<or> pe_event_type e = ''MessageBounced'' \<or>
      is_failure e \<and> status_word e \<in> {''hardfail'', ''hard_fail'', ''permanent''}"
    by (auto simp: classify_bounce_def permanent_statuses_def is_failure_def failure_events_def)
  show ?thesis
  proof (cases "normalize_email (Some a)")
    case None
    then show ?thesis by (simp add: is_suppressed_sync_iff)
  next
    case (Some n)
    have "is_suppressed_sync (snd (apply_event now None d e)) a \<longleftrightarrow> is_suppressed_sync d a \<or> event_address d e = Some n"
      by (auto simp: is_suppressed_sync_iff Some apply_event_suppressed_set split: option.splits)
    also have "event_address d e = Some n \<longleftrightarrow>
        \<not> is_duplicate d e \<and> ((is_failure e \<or> is_complaint e) \<and> classify_bounce e) \<and>
        (case match_recipient d e of
           None \<Rightarrow> present (pe_recipient_email e) \<and> same_address (the (pe_recipient_email e)) a
         | Some cr \<Rightarrow> same_address (cr_email_snapshot cr) a)"
      by (auto simp: event_address_def same_address_def present_def Some split: option.splits)
    finally show ?thesis unfolding kinds .
  qed
qed

text \<open>
  A deferral (a delayed or soft failure) leaves the suppression list, every recipient's
  status and every campaign as they were.
\<close>

theorem deferral_harmless:
  assumes "is_deferral e" "distinct (map cr_id (recipients d))"
  shows "suppressed_set (snd (apply_event now None d e)) = suppressed_set d \<and>
    campaigns (snd (apply_event now None d e)) = campaigns d \<and>
    map (\<lambda>r. (cr_id r, cr_status r)) (recipients (snd (apply_event now None d e))) =
    map (\<lambda>r. (cr_id r, cr_status r)) (recipients d)"
proof -
  have f: "\<not> is_delivery e" "\<not> is_complaint e" "\<not> classify_bounce e"
    using assms(1) event_classes_disjoint deferral_not_classified by (auto simp: is_deferral_def split: if_splits)
  have "event_deltas d e = None" using assms(1) f by (simp add: event_deltas_def split: option.split)
  moreover have "event_address d e = None" using f by (simp add: event_address_def)
  moreover have "(\<lambda>r. (cr_id r, cr_status r)) (event_row now e r) = (cr_id r, cr_status r)" for r
    using f assms(1) by (simp add: event_row_status)
  ultimately show ?thesis
    by (auto simp: apply_event_suppressed_set apply_event_campaigns apply_event_recipients [OF assms(2)] map_upd_by
        split: option.split)
qed

theorem deferral_harmless_witness:
  "campaigns (snd (apply_event 5 None mailed_db (event_named ''MessageDeliveryFailed'' ''u1''))) = campaigns mailed_db"
proof -
  have "is_deferral (event_named ''MessageDeliveryFailed'' ''u1'')"
    by (simp add: event_named_def is_deferral_def is_failure_def is_complaint_def failure_events_def
        complaint_events_def status_word_def permanent_statuses_def py_strip_def py_lower_def
        py_rstrip_where_def py_lstrip_def)
  moreover have "distinct (map cr_id (recipients mailed_db))" by (simp add: mailed_db_def)
  ultimately show ?thesis using deferral_harmless by blast
qed

text \<open>
  A new event that matches a recipient closes that row alone: it becomes delivered,
  bounced or keeps its status, its campaign's counter moves by one exactly when the status
  really changes, and no other row or campaign is touched.
\<close>

theorem matched_event_effect:
  assumes "distinct (map cr_id (recipients d))" "\<not> is_duplicate d e" "match_recipient d e = Some cr"
  shows "get_recipient_row i (snd (apply_event now None d e)) =
      (if i = cr_id cr then Some (event_row now e cr) else get_recipient_row i d) \<and>
    get_campaign_row j (snd (apply_event now None d e)) =
      (if j = cr_campaign_id cr \<and> cr_status (event_row now e cr) \<noteq> cr_status cr
       then map_option (add_counter (if is_delivery e then DeliveredCount else BouncedCount) 1) (get_campaign_row j d)
       else get_campaign_row j d)"
proof -
  have row: "row_by cr_id (cr_id cr) (recipients d) = Some cr"
    using row_by_unique [OF assms(1) match_recipientD [OF assms(3)]] .
  have "get_recipient_row i (snd (apply_event now None d e)) =
      (if i = cr_id cr then Some (event_row now e cr) else get_recipient_row i d)"
    using row by (simp add: get_recipient_row_def apply_event_recipients [OF assms(1)] assms(2,3) row_by_upd_by)
  moreover have "get_campaign_row j (snd (apply_event now None d e)) =
      (case event_deltas d e of None \<Rightarrow> get_campaign_row j d
       | Some (cid, ds) \<Rightarrow> get_campaign_row j (bump_campaign cid ds d))"
    by (auto simp: get_campaign_row_def apply_event_campaigns split: option.split)
  ultimately show ?thesis
    using event_classes_disjoint(1,2) [of e]
    by (auto simp: event_deltas_def assms(2,3) event_row_status get_campaign_bump option.map_id0 split: option.split)
qed

theorem matched_event_effect_witness:
  "map_option cr_status (get_recipient_row 1 (snd (apply_event 5 None mailed_db (event_named ''MessageBounced'' ''u1'')))) =
   Some RBounced"
proof -
  have m: "match_recipient mailed_db (event_named ''MessageBounced'' ''u1'') = Some (hd (recipients mailed_db))"
    by (simp add: match_recipient_def mailed_db_def event_named_def present_def)
  show ?thesis
    using matched_event_effect [OF _ _ m, of 1 5 1]
    by (simp add: mailed_db_def empty_db_def event_named_def is_duplicate_def present_def event_row_status is_delivery_def
        is_failure_def is_deferral_def is_complaint_def delivery_events_def failure_events_def complaint_events_def)
qed

text \<open>
  A message that bounces, is delivered after all, and bounces again is counted twice in
  \<open>bounced_count\<close> although it is one recipient.
\<close>

definition counted_db :: db where
  "counted_db = mailed_db\<lparr>campaigns :=
     [\<lparr>c_id = 1, c_name = [], c_subject = [], c_from_name = [], c_from_email = [], c_reply_to = None,
      c_template_id = None, c_list_id = None, c_send_time = None, c_send_timezone = None,
      c_is_planner = False, c_parent_campaign_id = None, c_scheduled_at = None, c_status = Sending,
      c_ip_pool = None, c_total_recipients = 1, c_queued_count = 0, c_sent_count = 1,
      c_delivered_count = 0, c_bounced_count = 0, c_failed_count = 0, c_skipped_count = 0,
      c_created_at = 0\<rparr>]\<rparr>"

lemma bounced_count_exceeds_recipients:
  "map c_bounced_count (campaigns (fold (\<lambda>e d. snd (apply_event 5 None d e))
     [event_named ''MessageBounced'' ''u1'', event_named ''MessageSent'' ''u2'', event_named ''MessageBounced'' ''u3'']
     counted_db)) = [2] \<and>
   map c_total_recipients (campaigns counted_db) = [1]"
  by code_simp

end
