(* ===== verification/Templates.thy ===== *)
theory Templates
  imports Merge "HOL-Library.List_Lexorder" "HOL-Library.Char_ord"
begin

text \<open>
  Template management (\<open>app/services/templates.py\<close>).  The database refuses to delete a
  template that a campaign refers to (\<open>ON DELETE RESTRICT\<close>); the commit of the route then
  raises.  \<open>updated_at\<close> is stamped when a row really changes.
\<close>

section \<open>Validation and preview\<close>

definition sample_context :: context_map where
  "sample_context =
     build_context ''jane.doe@example-corp.com'' (Some ''Jane'') (Some ''Doe'')
       ''https://dashboard.cod-st.com/u/SAMPLE'' [(''company'', JStr ''Example Corp'')]"

record template_validation =
  tv_has_unsubscribe :: bool
  tv_unknown_tags :: "string list"

definition tv_ok :: "template_validation \<Rightarrow> bool" where
  "tv_ok v = tv_has_unsubscribe v"

definition validate_template :: "string \<Rightarrow> string set option \<Rightarrow> template_validation" where
  "validate_template body allowed_custom =
     (let allowed = base_tags \<union> (case allowed_custom of None \<Rightarrow> {} | Some a \<Rightarrow> a)
      in \<lparr>tv_has_unsubscribe = has_unsubscribe body,
          tv_unknown_tags = sorted_list_of_set (unknown_tags body (Some allowed))\<rparr>)"

definition preview :: "(json \<Rightarrow> string) \<Rightarrow> (string \<Rightarrow> string) \<Rightarrow> string \<Rightarrow> bool \<Rightarrow> string" where
  "preview rep esc body html = render rep esc body sample_context html"

section \<open>Create, update, delete\<close>

definition list_templates :: "db \<Rightarrow> template list" where
  "list_templates d = rev (sort_key t_updated_at (templates d))"

definition get_template :: "db \<Rightarrow> id \<Rightarrow> template option" where
  "get_template d template_id = get_template_row template_id d"

definition create_template ::
  "instant \<Rightarrow> string \<Rightarrow> string \<Rightarrow> string option \<Rightarrow> string \<Rightarrow> db \<Rightarrow> template \<times> db" where
  "create_template now name ty subject_default body d =
     (let tmpl = \<lparr>t_id = next_id TTemplates d,
                  t_name = (if py_strip name = [] then ''Untitled'' else py_strip name),
                  t_type = (case template_type_of ty of Inr t \<Rightarrow> template_type_value t | Inl _ \<Rightarrow> ''plain''),
                  t_subject_default = subject_default,
                  t_body = body,
                  t_updated_at = now\<rparr>
      in (tmpl, bump_seq TTemplates (d\<lparr>templates := templates d @ [tmpl]\<rparr>)))"

text \<open>A field that is not given, or given as \<open>None\<close>, is left alone.\<close>

definition set_template_fields ::
  "string option \<Rightarrow> string option \<Rightarrow> string option \<Rightarrow> string option \<Rightarrow> template \<Rightarrow> template" where
  "set_template_fields name ty subject_default body t =
     t\<lparr>t_name := (case name of None \<Rightarrow> t_name t | Some v \<Rightarrow> v),
       t_type := (case ty of None \<Rightarrow> t_type t | Some v \<Rightarrow> v),
       t_subject_default := (case subject_default of None \<Rightarrow> t_subject_default t | Some v \<Rightarrow> Some v),
       t_body := (case body of None \<Rightarrow> t_body t | Some v \<Rightarrow> v)\<rparr>"

definition update_template ::
  "instant \<Rightarrow> id \<Rightarrow> string option \<Rightarrow> string option \<Rightarrow> string option \<Rightarrow> string option \<Rightarrow> db \<Rightarrow>
   template option \<times> db" where
  "update_template now template_id name ty subject_default body d =
     (case get_template_row template_id d of
        None \<Rightarrow> (None, d)
      | Some tmpl \<Rightarrow>
          let t1 = set_template_fields name ty subject_default body tmpl;
              t2 = (if t1 = tmpl then tmpl else t1\<lparr>t_updated_at := now\<rparr>)
          in (Some t2, d\<lparr>templates := upd_by t_id template_id (\<lambda>_. t2) (templates d)\<rparr>))"

definition delete_template :: "id \<Rightarrow> db \<Rightarrow> exn + bool \<times> db" where
  "delete_template template_id d =
     (case get_template_row template_id d of
        None \<Rightarrow> Inr (False, d)
      | Some tmpl \<Rightarrow>
          if \<exists>c \<in> set (campaigns d). c_template_id c = Some template_id then Inl IntegrityError
          else Inr (True, d\<lparr>templates := del_by t_id template_id (templates d)\<rparr>))"

section \<open>Lemmas\<close>

lemma create_template_row:
  assumes "next_id TTemplates d \<notin> t_id ` set (templates d)"
  shows "get_template_row (t_id (fst (create_template now n ty s b d))) (snd (create_template now n ty s b d)) =
    Some (fst (create_template now n ty s b d))"
proof -
  have "row_by t_id (next_id TTemplates d) (templates d) = None"
    using assms by (simp add: row_by_None_iff)
  then show ?thesis
    by (simp add: create_template_def get_template_row_def row_by_append Let_def)
qed

lemma template_types [simp]: "template_type_of t = Inr v \<Longrightarrow> template_type_value v = t"
  by (auto simp: template_type_of_def enum_of_value_def split: if_splits)

lemma create_template_type:
  "t_type (fst (create_template now n ty s b d)) \<in> {''plain'', ''html''}"
proof -
  have "template_type_value v \<in> {''plain'', ''html''}" for v by (cases v) simp_all
  then show ?thesis
    by (cases "template_type_of ty") (simp_all only: create_template_def Let_def fst_conv template.simps sum.case insertI1)
qed

lemma finite_tags: "finite (unknown_tags body a)"
  by (simp add: unknown_tags_def find_tags_code)

lemma validate_template_exact:
  "set (tv_unknown_tags (validate_template body custom)) =
     find_tags body - base_tags - (case custom of None \<Rightarrow> {} | Some a \<Rightarrow> a)"
  by (auto simp: validate_template_def Let_def finite_tags) (auto simp: unknown_tags_def)

end
