(* ===== verification/Frequency.thy ===== *)
theory Frequency
  imports Models
begin

text \<open>
  The per-(contact, campaign) frequency rule (\<open>app/services/frequency.py\<close>): the log of the
  last time a contact received a recurring campaign, and the contacts that received it
  within the interval.  \<open>datetime\<close> arithmetic that leaves the range of years 1 to 9999 is
  not modelled.
\<close>

section \<open>Operations\<close>

definition log_row :: "id \<Rightarrow> id \<Rightarrow> db \<Rightarrow> campaign_contact_send option" where
  "log_row campaign_id contact_id d =
     find (\<lambda>r. cs_campaign_id r = campaign_id \<and> cs_contact_id r = contact_id) (contact_sends d)"

definition ineligible_contact_ids :: "instant \<Rightarrow> db \<Rightarrow> id \<Rightarrow> int \<Rightarrow> id set" where
  "ineligible_contact_ids now d frequency_campaign_id interval_days =
     (let cutoff = now - days interval_days in
      set (map cs_contact_id
            (filter (\<lambda>r. cs_campaign_id r = frequency_campaign_id \<and> cutoff \<le> cs_last_sent_at r)
               (contact_sends d))))"

definition record_send :: "instant \<Rightarrow> id \<Rightarrow> id \<Rightarrow> db \<Rightarrow> db" where
  "record_send when_sent frequency_campaign_id contact_id d =
     (case log_row frequency_campaign_id contact_id d of
        Some existing \<Rightarrow>
          d\<lparr>contact_sends :=
              upd_by cs_id (cs_id existing) (\<lambda>r. r\<lparr>cs_last_sent_at := when_sent\<rparr>) (contact_sends d)\<rparr>
      | None \<Rightarrow>
          bump_seq TContactSends (d\<lparr>contact_sends := contact_sends d @
            [\<lparr>cs_id = next_id TContactSends d, cs_campaign_id = frequency_campaign_id,
              cs_contact_id = contact_id, cs_last_sent_at = when_sent\<rparr>]\<rparr>))"

section \<open>The log as a map\<close>

text \<open>
  The table promises one row per (campaign, contact) and distinct primary keys below the
  sequence; its contents are then a partial map from the pair to the last instant.
\<close>

definition log_wf :: "db \<Rightarrow> bool" where
  "log_wf d \<longleftrightarrow>
     distinct (map cs_id (contact_sends d)) \<and>
     distinct (map (\<lambda>r. (cs_campaign_id r, cs_contact_id r)) (contact_sends d)) \<and>
     (\<forall>r \<in> set (contact_sends d). cs_id r \<le> seqs d TContactSends)"

definition last_sent :: "db \<Rightarrow> id \<Rightarrow> id \<Rightarrow> instant option" where
  "last_sent d campaign_id contact_id = map_option cs_last_sent_at (log_row campaign_id contact_id d)"

lemma find_app: "find P (xs @ ys) = (case find P xs of Some z \<Rightarrow> Some z | None \<Rightarrow> find P ys)"
  by (induction xs) auto

lemma find_key_unique:
  "distinct (map f xs) \<Longrightarrow> x \<in> set xs \<Longrightarrow> find (\<lambda>y. f y = f x) xs = Some x"
  by (induction xs) (auto simp: image_iff)

lemma find_upd_by:
  assumes "\<And>r. P (f r) = P r"
  shows "find P (upd_by key k f rows) = map_option (\<lambda>r. if key r = k then f r else r) (find P rows)"
  by (induction rows) (auto simp: assms)

locale send_log =
  fixes wf :: "'s \<Rightarrow> bool"
    and last_at :: "'s \<Rightarrow> 'k \<Rightarrow> 'c \<Rightarrow> int option"
    and put :: "int \<Rightarrow> 'k \<Rightarrow> 'c \<Rightarrow> 's \<Rightarrow> 's"
    and blocked :: "int \<Rightarrow> 's \<Rightarrow> 'k \<Rightarrow> int \<Rightarrow> 'c set"
    and unit_len :: int
  assumes put_wf: "wf s \<Longrightarrow> wf (put t k c s)"
    and put_last: "wf s \<Longrightarrow> last_at (put t k c s) k' c' = (if k' = k \<and> c' = c then Some t else last_at s k' c')"
    and blocked_iff: "wf s \<Longrightarrow>
      c \<in> blocked now s k n \<longleftrightarrow> (\<exists>t. last_at s k c = Some t \<and> now - unit_len * n \<le> t)"
begin

lemma put_blocks: "wf s \<Longrightarrow> now \<le> t + unit_len * n \<Longrightarrow> c \<in> blocked now (put t k c s) k n"
  by (simp add: blocked_iff put_wf put_last)

lemma put_other: "wf s \<Longrightarrow> k' \<noteq> k \<or> c' \<noteq> c \<Longrightarrow>
    c' \<in> blocked now (put t k c s) k' n \<longleftrightarrow> c' \<in> blocked now s k' n"
  by (auto simp: blocked_iff put_wf put_last)

lemma unblocked_again: "wf s \<Longrightarrow> t + unit_len * n < now \<Longrightarrow> c \<notin> blocked now (put t k c s) k n"
  by (simp add: blocked_iff put_wf put_last)

text \<open>A list of records leaves the newest one of each pair.\<close>

lemma put_all_last:
  "wf s \<Longrightarrow> last_at (fold (\<lambda>(t, k, c) s. put t k c s) xs s) k c =
     (case find (\<lambda>(t, k', c'). k' = k \<and> c' = c) (rev xs) of
        Some (t, _) \<Rightarrow> Some t | None \<Rightarrow> last_at s k c)"
proof (induction xs arbitrary: s)
  case (Cons x xs)
  obtain t k' c' where x: "x = (t, k', c')" by (cases x) auto
  with Cons put_wf [of s t k' c'] show ?case
    by (auto simp: x put_last find_app split: option.splits)
qed simp

end

section \<open>Lemmas\<close>

lemma log_row_SomeD:
  "log_row k c d = Some r \<Longrightarrow> r \<in> set (contact_sends d) \<and> cs_campaign_id r = k \<and> cs_contact_id r = c"
  by (auto simp: log_row_def find_Some_iff)

lemma log_row_unique:
  assumes "log_wf d" "r \<in> set (contact_sends d)"
  shows "log_row (cs_campaign_id r) (cs_contact_id r) d = Some r"
proof -
  from assms have "distinct (map (\<lambda>r. (cs_campaign_id r, cs_contact_id r)) (contact_sends d))"
    by (simp add: log_wf_def)
  from find_key_unique [OF this assms(2)] show ?thesis by (simp add: log_row_def)
qed

lemma ineligible_iff:
  assumes "log_wf d"
  shows "c \<in> ineligible_contact_ids now d k n \<longleftrightarrow> (\<exists>t. last_sent d k c = Some t \<and> now - days n \<le> t)"
proof
  assume "c \<in> ineligible_contact_ids now d k n"
  then obtain r where "r \<in> set (contact_sends d)" "cs_campaign_id r = k" "cs_contact_id r = c"
    "now - days n \<le> cs_last_sent_at r"
    by (auto simp: ineligible_contact_ids_def Let_def)
  with log_row_unique [OF assms] show "\<exists>t. last_sent d k c = Some t \<and> now - days n \<le> t"
    by (auto simp: last_sent_def)
next
  assume "\<exists>t. last_sent d k c = Some t \<and> now - days n \<le> t"
  then show "c \<in> ineligible_contact_ids now d k n"
    by (auto simp: last_sent_def ineligible_contact_ids_def Let_def image_iff dest!: log_row_SomeD)
qed

lemma record_send_last:
  assumes "log_wf d"
  shows "last_sent (record_send t k c d) k' c' = (if k' = k \<and> c' = c then Some t else last_sent d k' c')"
proof (cases "log_row k c d")
  case None
  then show ?thesis
    by (auto simp: record_send_def last_sent_def log_row_def find_app split: option.splits)
next
  case (Some r)
  then have r: "r \<in> set (contact_sends d)" "cs_campaign_id r = k" "cs_contact_id r = c"
    by (auto dest: log_row_SomeD)
  have upd: "log_row k' c' (record_send t k c d) =
      map_option (\<lambda>x. if cs_id x = cs_id r then x\<lparr>cs_last_sent_at := t\<rparr> else x) (log_row k' c' d)"
  proof -
    have "contact_sends (record_send t k c d) =
        upd_by cs_id (cs_id r) (\<lambda>r. r\<lparr>cs_last_sent_at := t\<rparr>) (contact_sends d)"
      by (simp add: record_send_def Some)
    then show ?thesis by (simp add: log_row_def find_upd_by)
  qed
  have "x = r" if "log_row k' c' d = Some x" "cs_id x = cs_id r" for x
    using assms r(1) log_row_SomeD [OF that(1)] that(2) by (auto simp: log_wf_def distinct_map inj_on_def)
  with Some r upd show ?thesis
    by (cases "log_row k' c' d") (auto simp: last_sent_def dest: log_row_SomeD)
qed

lemma record_send_wf: "log_wf d \<Longrightarrow> log_wf (record_send t k c d)"
proof (cases "log_row k c d")
  case None
  assume "log_wf d"
  moreover from None have "(k, c) \<notin> (\<lambda>r. (cs_campaign_id r, cs_contact_id r)) ` set (contact_sends d)"
    by (auto simp: log_row_def find_None_iff)
  ultimately show ?thesis
    by (auto simp: log_wf_def record_send_def None next_id_def)
next
  case (Some r)
  assume "log_wf d"
  then show ?thesis
    by (auto simp: log_wf_def record_send_def Some map_upd_by set_upd_by)
qed

lemma record_send_frame [frame, simp]:
  "campaigns (record_send t k c d) = campaigns d" "recipients (record_send t k c d) = recipients d"
  "contacts (record_send t k c d) = contacts d" "suppressions (record_send t k c d) = suppressions d"
  "email_events (record_send t k c d) = email_events d" "templates (record_send t k c d) = templates d"
  "app_settings (record_send t k c d) = app_settings d"
  "campaign_lists (record_send t k c d) = campaign_lists d"
  "contact_lists (record_send t k c d) = contact_lists d" "placements (record_send t k c d) = placements d"
  "ip_warm_states (record_send t k c d) = ip_warm_states d"
  by (simp_all add: record_send_def split: option.split)

interpretation freq: send_log log_wf last_sent record_send ineligible_contact_ids "days 1"
  by unfold_locales (simp_all add: record_send_wf record_send_last ineligible_iff days_eq)

section \<open>Properties\<close>

text \<open>
  C38: A recorded send makes its contact ineligible for that recurring campaign for the whole
  interval and not a microsecond longer, and says nothing about other contacts or campaigns.
\<close>

theorem frequency_window:
  assumes "log_wf d"
  shows "(c' \<in> ineligible_contact_ids now (record_send t k c d) k' n) =
    (if k' = k \<and> c' = c then now \<le> t + days n else c' \<in> ineligible_contact_ids now d k' n)"
proof (cases "k' = k \<and> c' = c")
  case True
  then show ?thesis
    using freq.put_blocks [OF assms, of now t n c k] freq.unblocked_again [OF assms, of t n now c k]
    by (cases "t + days 1 * n < now") (auto simp: days_eq)
next
  case False
  then show ?thesis using freq.put_other [OF assms, of k' k c' c now t n] by auto
qed

theorem frequency_window_witness:
  "7 \<in> ineligible_contact_ids (days 30) (record_send 0 1 7 empty_db) 1 30 \<and>
   7 \<notin> ineligible_contact_ids (days 30 + 1) (record_send 0 1 7 empty_db) 1 30"
proof -
  have "log_wf empty_db" by (simp add: log_wf_def empty_db_def)
  from frequency_window [OF this, of 7 _ 0 1 7 1 30] show ?thesis by simp
qed

text \<open>
  However many sends are recorded, in whatever order, the log keeps one row for each pair:
  the last one recorded.
\<close>

theorem frequency_log_last:
  assumes "log_wf d"
  shows "last_sent (fold (\<lambda>(t, k, c) d. record_send t k c d) xs d) k c =
     (case find (\<lambda>(t, k', c'). k' = k \<and> c' = c) (rev xs) of
        Some (t, _) \<Rightarrow> Some t | None \<Rightarrow> last_sent d k c)"
  using assms by (rule freq.put_all_last)

theorem frequency_log_last_witness:
  "last_sent (fold (\<lambda>(t, k, c) d. record_send t k c d) [(5, 1, 7), (9, 1, 8), (6, 1, 7)] empty_db) 1 7 = Some 6"
proof -
  have "log_wf empty_db" by (simp add: log_wf_def empty_db_def)
  from frequency_log_last [OF this, of "[(5, 1, 7), (9, 1, 8), (6, 1, 7)]" 1 7] show ?thesis by simp
qed

end
