(* ===== verification/Ledger.thy ===== *)
theory Ledger
  imports Campaign_Store Suppression Frequency Warming
begin

text \<open>
  The recipient ledger of a campaign: counting what is pending, finalizing, and
  materialization (the database side of \<open>app/tasks/sending.py\<close>).  A transaction is a
  function on the database; its instant is \<open>now\<close>.
\<close>

section \<open>Counting and finalizing\<close>

definition pending_row :: "id \<Rightarrow> campaign_recipient \<Rightarrow> bool" where
  "pending_row campaign_id r = (cr_campaign_id r = campaign_id \<and> cr_status r = RPending)"

definition pending_count :: "db \<Rightarrow> id \<Rightarrow> int" where
  "pending_count d campaign_id = count_rows (pending_row campaign_id) (recipients d)"

definition maybe_finalize :: "id \<Rightarrow> db \<Rightarrow> db" where
  "maybe_finalize campaign_id d =
     (if pending_count d campaign_id = 0 then
        (case get_campaign_row campaign_id d of
           None \<Rightarrow> d
         | Some c \<Rightarrow> if c_status c = Sending
                     then upd_campaign campaign_id (\<lambda>c. c\<lparr>c_status := Completed\<rparr>) d else d)
      else d)"

text \<open>The recipients \<open>enqueue_pending_for_campaign\<close> makes a send task for.\<close>

definition pending_ids :: "db \<Rightarrow> id \<Rightarrow> id list" where
  "pending_ids d campaign_id = map cr_id (filter (pending_row campaign_id) (recipients d))"

section \<open>Materialization\<close>

record join_row =
  j_contact :: contact
  j_suppressed :: bool

text \<open>The outer join on the address: one row for each match, or one row without a match.\<close>

definition contact_join :: "db \<Rightarrow> id list \<Rightarrow> join_row list" where
  "contact_join d list_ids =
     concat (map (\<lambda>ct.
         let matches = filter (\<lambda>s. s_email s = ct_email ct) (suppressions d) in
         if matches = [] then [\<lparr>j_contact = ct, j_suppressed = False\<rparr>]
         else map (\<lambda>_. \<lparr>j_contact = ct, j_suppressed = True\<rparr>) matches)
       (filter (\<lambda>ct. (case ct_list_id ct of None \<Rightarrow> False | Some l \<Rightarrow> l \<in> set list_ids) \<and> ct_status ct = Active)
          (contacts d)))"

definition row_status :: "id set \<Rightarrow> join_row \<Rightarrow> recipient_status" where
  "row_status ineligible j =
     (if j_suppressed j then RSkippedSuppressed
      else if ct_id (j_contact j) \<in> ineligible then RSkippedFrequency
      else RPending)"

definition add_recipient :: "instant \<Rightarrow> campaign \<Rightarrow> recipient_status \<Rightarrow> contact \<Rightarrow> db \<Rightarrow> db" where
  "add_recipient now c status ct d =
     bump_seq TRecipients (d\<lparr>recipients := recipients d @
       [\<lparr>cr_id = next_id TRecipients d, cr_campaign_id = c_id c, cr_contact_id = Some (ct_id ct),
         cr_email_snapshot = ct_email ct,
         cr_merge_snapshot = \<lparr>ms_first_name = ct_first_name ct, ms_last_name = ct_last_name ct,
                              ms_custom_fields = ct_custom_fields ct\<rparr>,
         cr_status = status, cr_postal_message_id = None, cr_ip_pool = c_ip_pool c,
         cr_last_event_at = None, cr_error_detail = None, cr_updated_at = now\<rparr>]\<rparr>)"

record tally =
  n_created :: int
  n_skipped :: int
  n_freq_skipped :: int

fun count_status :: "recipient_status \<Rightarrow> tally \<Rightarrow> tally" where
  "count_status RSkippedSuppressed n = n\<lparr>n_skipped := n_skipped n + 1\<rparr>"
| "count_status RSkippedFrequency n = n\<lparr>n_freq_skipped := n_freq_skipped n + 1\<rparr>"
| "count_status _ n = n\<lparr>n_created := n_created n + 1\<rparr>"

fun add_rows ::
  "instant \<Rightarrow> campaign \<Rightarrow> id set \<Rightarrow> join_row list \<Rightarrow> id option set \<Rightarrow> tally \<Rightarrow> db \<Rightarrow> tally \<times> db" where
  "add_rows now c ineligible [] existing n d = (n, d)"
| "add_rows now c ineligible (j # js) existing n d =
     (if Some (ct_id (j_contact j)) \<in> existing then add_rows now c ineligible js existing n d
      else let status = row_status ineligible j in
        add_rows now c ineligible js (insert (Some (ct_id (j_contact j))) existing)
          (count_status status n) (add_recipient now c status (j_contact j) d))"

definition existing_contacts :: "db \<Rightarrow> id \<Rightarrow> id option set" where
  "existing_contacts d campaign_id =
     set (map cr_contact_id (filter (\<lambda>r. cr_campaign_id r = campaign_id) (recipients d)))"

definition recount :: "id \<Rightarrow> db \<Rightarrow> db" where
  "recount campaign_id d =
     (let total = count_rows (\<lambda>r. cr_campaign_id r = campaign_id) (recipients d);
          pending = pending_count d campaign_id
      in upd_campaign campaign_id
           (\<lambda>c. c\<lparr>c_total_recipients := total, c_skipped_count := total - pending, c_queued_count := pending\<rparr>) d)"

datatype materialized =
    MatError string
  | MatSkipped campaign_status
  | MatDone tally

definition ineligible_of :: "instant \<Rightarrow> db \<Rightarrow> campaign \<Rightarrow> exn + id set" where
  "ineligible_of now d c =
     (case c_parent_campaign_id c of
        None \<Rightarrow> Inr {}
      | Some freq_campaign_id \<Rightarrow>
          and_then (cfg_int (get_planner_config d) ''frequency_interval_days'') (\<lambda>interval.
          Inr (ineligible_contact_ids now d freq_campaign_id interval)))"

text \<open>The transaction of \<open>materialize_campaign\<close>; the enqueueing follows the commit (\<open>Sending\<close>).\<close>

definition materialize_db :: "instant \<Rightarrow> id \<Rightarrow> db \<Rightarrow> exn + materialized \<times> db" where
  "materialize_db now campaign_id d =
     (case get_campaign_row campaign_id d of
        None \<Rightarrow> Inr (MatError ''campaign not found'', d)
      | Some c \<Rightarrow>
          if c_status c \<noteq> Sending then Inr (MatSkipped (c_status c), d)
          else let list_ids = campaign_list_ids_sync d campaign_id in
            if list_ids = []
            then Inr (MatError ''campaign has no list'',
                      upd_campaign campaign_id (\<lambda>c. c\<lparr>c_status := Failed\<rparr>) d)
            else and_then (ineligible_of now d c) (\<lambda>ineligible.
              let (n, d1) = add_rows now c ineligible (contact_join d list_ids)
                              (existing_contacts d campaign_id)
                              \<lparr>n_created = 0, n_skipped = 0, n_freq_skipped = 0\<rparr> d
              in Inr (MatDone n, recount campaign_id d1)))"

section \<open>Lemmas: counting\<close>

lemma pending_count_zero: "pending_count d cid = 0 \<longleftrightarrow> pending_ids d cid = []"
  by (simp add: pending_count_def pending_ids_def count_rows_def)

lemma maybe_finalize_frame [frame, simp]:
  "recipients (maybe_finalize i d) = recipients d" "contacts (maybe_finalize i d) = contacts d"
  "suppressions (maybe_finalize i d) = suppressions d" "email_events (maybe_finalize i d) = email_events d"
  "templates (maybe_finalize i d) = templates d" "app_settings (maybe_finalize i d) = app_settings d"
  "campaign_lists (maybe_finalize i d) = campaign_lists d" "contact_lists (maybe_finalize i d) = contact_lists d"
  "contact_sends (maybe_finalize i d) = contact_sends d" "ip_warm_states (maybe_finalize i d) = ip_warm_states d"
  "seqs (maybe_finalize i d) = seqs d" "placements (maybe_finalize i d) = placements d"
  by (simp_all add: maybe_finalize_def split: option.split)

lemma get_campaign_maybe_finalize:
  "get_campaign_row i (maybe_finalize j d) =
     map_option (\<lambda>c. if i = j \<and> pending_count d j = 0 \<and> c_status c = Sending then c\<lparr>c_status := Completed\<rparr> else c)
       (get_campaign_row i d)"
  by (cases "get_campaign_row j d"; cases "get_campaign_row i d")
     (auto simp: maybe_finalize_def get_campaign_row_def row_by_upd_by)

lemma get_upd_campaign_row:
  assumes "\<And>c. c_id (f c) = c_id c"
  shows "get_campaign_row i (upd_campaign j f d) =
    (if i = j then map_option f (get_campaign_row i d) else get_campaign_row i d)"
  by (simp add: get_campaign_row_def row_by_upd_by assms)

section \<open>Lemmas: materialization\<close>

lemma add_recipient_frame [frame, simp]:
  "campaigns (add_recipient now c s ct d) = campaigns d" "contacts (add_recipient now c s ct d) = contacts d"
  "suppressions (add_recipient now c s ct d) = suppressions d"
  "campaign_lists (add_recipient now c s ct d) = campaign_lists d"
  "contact_sends (add_recipient now c s ct d) = contact_sends d"
  "app_settings (add_recipient now c s ct d) = app_settings d"
  "templates (add_recipient now c s ct d) = templates d"
  "email_events (add_recipient now c s ct d) = email_events d"
  "contact_lists (add_recipient now c s ct d) = contact_lists d"
  by (simp_all add: add_recipient_def)

lemma add_rows_frame [frame, simp]:
  "campaigns (snd (add_rows now c inel js ex n d)) = campaigns d"
  "contacts (snd (add_rows now c inel js ex n d)) = contacts d"
  "suppressions (snd (add_rows now c inel js ex n d)) = suppressions d"
  "campaign_lists (snd (add_rows now c inel js ex n d)) = campaign_lists d"
  "contact_sends (snd (add_rows now c inel js ex n d)) = contact_sends d"
  "app_settings (snd (add_rows now c inel js ex n d)) = app_settings d"
  "templates (snd (add_rows now c inel js ex n d)) = templates d"
  "email_events (snd (add_rows now c inel js ex n d)) = email_events d"
  "contact_lists (snd (add_rows now c inel js ex n d)) = contact_lists d"
  by (induction now c inel js ex n d rule: add_rows.induct) (simp_all add: Let_def)

text \<open>The rows that the loop turns into recipients: the first one of each new contact.\<close>

fun fresh_rows :: "id option set \<Rightarrow> join_row list \<Rightarrow> join_row list" where
  "fresh_rows existing [] = []"
| "fresh_rows existing (j # js) =
     (if Some (ct_id (j_contact j)) \<in> existing then fresh_rows existing js
      else j # fresh_rows (insert (Some (ct_id (j_contact j))) existing) js)"

definition ledger_entry :: "campaign_recipient \<Rightarrow> id \<times> id option \<times> string \<times> recipient_status" where
  "ledger_entry r = (cr_campaign_id r, cr_contact_id r, cr_email_snapshot r, cr_status r)"

lemma add_rows_ledger:
  "map ledger_entry (recipients (snd (add_rows now c inel js ex n d))) =
     map ledger_entry (recipients d) @
     map (\<lambda>j. (c_id c, Some (ct_id (j_contact j)), ct_email (j_contact j), row_status inel j)) (fresh_rows ex js)"
  by (induction now c inel js ex n d rule: add_rows.induct)
     (simp_all add: Let_def add_recipient_def ledger_entry_def)

lemma fresh_rows_new:
  "j \<in> set (fresh_rows ex js) \<Longrightarrow> j \<in> set js \<and> Some (ct_id (j_contact j)) \<notin> ex"
  by (induction ex js rule: fresh_rows.induct) (auto split: if_splits)

lemma fresh_rows_distinct: "distinct (map (\<lambda>j. ct_id (j_contact j)) (fresh_rows ex js))"
  by (induction ex js rule: fresh_rows.induct) (auto dest: fresh_rows_new)

lemma fresh_rows_append:
  "fresh_rows ex (xs @ ys) = fresh_rows ex xs @ fresh_rows (ex \<union> (\<lambda>j. Some (ct_id (j_contact j))) ` set xs) ys"
proof (induction ex xs rule: fresh_rows.induct)
  case (2 ex j js)
  have eq: "insert (Some (ct_id (j_contact j))) ex \<union> (\<lambda>j. Some (ct_id (j_contact j))) ` set js =
      insert (Some (ct_id (j_contact j))) (ex \<union> (\<lambda>j. Some (ct_id (j_contact j))) ` set js)" by blast
  with 2 show ?case by (auto simp: insert_absorb)
qed simp

lemma fresh_rows_same:
  assumes "xs \<noteq> []" "\<forall>x \<in> set xs. x = j"
  shows "fresh_rows ex xs = (if Some (ct_id (j_contact j)) \<in> ex then [] else [j])"
proof -
  have same: "\<forall>x \<in> set ys. x = j \<Longrightarrow> Some (ct_id (j_contact j)) \<in> ex' \<Longrightarrow> fresh_rows ex' ys = []" for ex' ys
    by (induction ex' ys rule: fresh_rows.induct) auto
  from assms obtain ys where "xs = j # ys" by (cases xs) auto
  with assms(2) same show ?thesis by auto
qed

definition join_of :: "db \<Rightarrow> contact \<Rightarrow> join_row" where
  "join_of d ct = \<lparr>j_contact = ct, j_suppressed = (ct_email ct \<in> suppressed_set d)\<rparr>"

definition sendable_contacts :: "db \<Rightarrow> id list \<Rightarrow> contact list" where
  "sendable_contacts d list_ids =
     filter (\<lambda>ct. (case ct_list_id ct of None \<Rightarrow> False | Some l \<Rightarrow> l \<in> set list_ids) \<and> ct_status ct = Active)
       (contacts d)"

lemma fresh_rows_join:
  assumes "distinct (map ct_id cts)"
  shows "fresh_rows ex (concat (map (\<lambda>ct.
           let matches = filter (\<lambda>s. s_email s = ct_email ct) (suppressions d) in
           if matches = [] then [\<lparr>j_contact = ct, j_suppressed = False\<rparr>]
           else map (\<lambda>_. \<lparr>j_contact = ct, j_suppressed = True\<rparr>) matches) cts)) =
    map (join_of d) (filter (\<lambda>ct. Some (ct_id ct) \<notin> ex) cts)"
  using assms
proof (induction cts arbitrary: ex)
  case (Cons ct cts)
  let ?g = "\<lambda>ct. let matches = filter (\<lambda>s. s_email s = ct_email ct) (suppressions d) in
           if matches = [] then [\<lparr>j_contact = ct, j_suppressed = False\<rparr>]
           else map (\<lambda>_. \<lparr>j_contact = ct, j_suppressed = True\<rparr>) matches"
  have g: "?g ct \<noteq> []" "\<forall>x \<in> set (?g ct). x = join_of d ct"
    by (auto simp: Let_def join_of_def suppressed_set_def filter_empty_conv split: if_splits) (metis image_eqI)
  then have ids: "(\<lambda>j. Some (ct_id (j_contact j))) ` set (?g ct) = {Some (ct_id ct)}"
    by (cases "?g ct") (auto simp: join_of_def)
  have head: "fresh_rows ex (?g ct) = (if Some (ct_id ct) \<in> ex then [] else [join_of d ct])"
    using fresh_rows_same [OF g] by (simp add: join_of_def)
  have rest: "filter (\<lambda>x. Some (ct_id x) \<notin> ex \<union> {Some (ct_id ct)}) cts = filter (\<lambda>x. Some (ct_id x) \<notin> ex) cts"
    using Cons.prems by (intro filter_cong refl) (auto, metis image_eqI)
  have "fresh_rows ex (concat (map ?g (ct # cts))) =
      fresh_rows ex (?g ct) @ fresh_rows (ex \<union> {Some (ct_id ct)}) (concat (map ?g cts))"
    by (simp only: list.map concat.simps fresh_rows_append ids)
  also have "\<dots> = map (join_of d) (filter (\<lambda>ct. Some (ct_id ct) \<notin> ex) (ct # cts))"
    using Cons.IH [of "ex \<union> {Some (ct_id ct)}"] Cons.prems unfolding head rest by simp
  finally show ?case .
qed simp

lemma fresh_contact_join:
  "distinct (map ct_id (contacts d)) \<Longrightarrow>
   fresh_rows ex (contact_join d ls) = map (join_of d) (filter (\<lambda>ct. Some (ct_id ct) \<notin> ex) (sendable_contacts d ls))"
  unfolding contact_join_def sendable_contacts_def by (rule fresh_rows_join) (rule distinct_map_filter)

definition new_entry :: "db \<Rightarrow> id \<Rightarrow> id set \<Rightarrow> contact \<Rightarrow> id \<times> id option \<times> string \<times> recipient_status" where
  "new_entry d cid inel ct =
     (cid, Some (ct_id ct), ct_email ct,
      if ct_email ct \<in> suppressed_set d then RSkippedSuppressed
      else if ct_id ct \<in> inel then RSkippedFrequency else RPending)"

lemma row_status_join: "row_status inel (join_of d ct) = snd (snd (snd (new_entry d cid inel ct)))"
  by (simp add: row_status_def join_of_def new_entry_def)

text \<open>The whole ledger after a materialization.\<close>

lemma materialize_ledger:
  assumes "get_campaign_row cid d = Some c" "c_status c = Sending" "campaign_list_ids_sync d cid \<noteq> []"
    and "ineligible_of now d c = Inr inel" "distinct (map ct_id (contacts d))"
  shows "\<exists>n d'. materialize_db now cid d = Inr (MatDone n, d') \<and>
    map ledger_entry (recipients d') = map ledger_entry (recipients d) @
      map (new_entry d cid inel)
        (filter (\<lambda>ct. Some (ct_id ct) \<notin> existing_contacts d cid)
          (sendable_contacts d (campaign_list_ids_sync d cid)))"
proof -
  have cid: "c_id c = cid" using assms(1) by (auto simp: get_campaign_row_def dest: row_by_SomeD)
  obtain n d1 where nd: "add_rows now c inel (contact_join d (campaign_list_ids_sync d cid))
      (existing_contacts d cid) \<lparr>n_created = 0, n_skipped = 0, n_freq_skipped = 0\<rparr> d = (n, d1)"
    by fastforce
  have "map ledger_entry (recipients d1) = map ledger_entry (recipients d) @
      map (new_entry d cid inel)
        (filter (\<lambda>ct. Some (ct_id ct) \<notin> existing_contacts d cid)
          (sendable_contacts d (campaign_list_ids_sync d cid)))"
    using add_rows_ledger [of now c inel "contact_join d (campaign_list_ids_sync d cid)"
        "existing_contacts d cid" "\<lparr>n_created = 0, n_skipped = 0, n_freq_skipped = 0\<rparr>" d]
    by (simp add: nd cid fresh_contact_join [OF assms(5)] comp_def row_status_join [of inel d _ cid])
       (simp add: join_of_def new_entry_def)
  then show ?thesis
    by (simp add: materialize_db_def assms nd Let_def recount_def)
qed

end
