(* ===== verification/Tokens.thy ===== *)
theory Tokens
  imports Config Suppression
begin

text \<open>
  Signed unsubscribe tokens (\<open>app/services/tokens.py\<close>) and the public endpoint
  (\<open>app/api/unsubscribe.py\<close>).  The serializer of the third-party \<open>itsdangerous\<close>, under the
  configured secret and the salt, is a pair of parameters: \<open>dumps\<close> signs a JSON value and
  \<open>loads\<close> returns it, or nothing when the signature is bad.
\<close>

definition make_unsubscribe_token :: "(json \<Rightarrow> string) \<Rightarrow> string \<Rightarrow> string" where
  "make_unsubscribe_token dumps email =
     dumps (JStr (case normalize_email (Some email) of None \<Rightarrow> email | Some n \<Rightarrow> n))"

definition read_unsubscribe_token :: "(string \<Rightarrow> json option) \<Rightarrow> string \<Rightarrow> string option" where
  "read_unsubscribe_token loads token =
     (case loads token of Some (JStr s) \<Rightarrow> normalize_email (Some s) | _ \<Rightarrow> None)"

definition unsubscribe_url :: "(json \<Rightarrow> string) \<Rightarrow> settings \<Rightarrow> string \<Rightarrow> string" where
  "unsubscribe_url dumps st email = app_base_url_clean st @ ''/u/'' @ make_unsubscribe_token dumps email"

text \<open>\<open>GET /u/{token}\<close>: the address the confirmation page shows; nothing is written.\<close>

definition unsubscribe_confirm :: "(string \<Rightarrow> json option) \<Rightarrow> string \<Rightarrow> string option" where
  "unsubscribe_confirm loads token = read_unsubscribe_token loads token"

text \<open>\<open>POST /u/{token}\<close>: whether the page reports success, and the address.\<close>

definition unsubscribe ::
  "(string \<Rightarrow> json option) \<Rightarrow> db option \<Rightarrow> string \<Rightarrow> db \<Rightarrow> (bool \<times> string option) \<times> db" where
  "unsubscribe loads race token d =
     (case read_unsubscribe_token loads token of
        None \<Rightarrow> ((False, None), d)
      | Some email \<Rightarrow>
          ((True, Some email), snd (suppress_async race d email Unsubscribe (Some ''unsubscribe link'') True)))"

text \<open>Documented behaviour of the serializer: a string it signed it reads back.\<close>

definition serializer_ok :: "(json \<Rightarrow> string) \<Rightarrow> (string \<Rightarrow> json option) \<Rightarrow> bool" where
  "serializer_ok dumps loads \<longleftrightarrow> (\<forall>s. loads (dumps (JStr s)) = Some (JStr s))"

lemma read_make_token:
  "serializer_ok dumps loads \<Longrightarrow>
     read_unsubscribe_token loads (make_unsubscribe_token dumps email) = normalize_email (Some email)"
  by (auto simp: read_unsubscribe_token_def make_unsubscribe_token_def serializer_ok_def
      normalize_email_idem split: option.split)

lemma read_token_canonical: "read_unsubscribe_token loads t = Some e \<Longrightarrow> canonical e"
  by (auto simp: read_unsubscribe_token_def dest: normalize_email_canonical split: option.splits json.splits)

lemma unsubscribe_effect:
  "suppressed_set (snd (unsubscribe loads None token d)) =
     (case read_unsubscribe_token loads token of None \<Rightarrow> suppressed_set d | Some e \<Rightarrow> insert e (suppressed_set d))"
  by (auto simp: unsubscribe_def suppress_async_eq suppress_sync_set dest: read_token_canonical split: option.splits)

lemma unsubscribe_frame [frame, simp]:
  "campaigns (snd (unsubscribe loads None token d)) = campaigns d"
  "recipients (snd (unsubscribe loads None token d)) = recipients d"
  "templates (snd (unsubscribe loads None token d)) = templates d"
  by (simp_all add: unsubscribe_def suppress_async_eq split: option.split)

section \<open>Properties\<close>

text \<open>
  C32: The link put into a message unsubscribes its recipient: when the signer reads back what
  it signed, posting the token of an address that normalizes suppresses exactly that address
  and reports success.
\<close>

theorem unsubscribe_link_works:
  assumes "serializer_ok dumps loads" "normalize_email (Some email) = Some n"
  shows "fst (unsubscribe loads None (make_unsubscribe_token dumps email) d) = (True, Some n) \<and>
    (\<forall>a. is_suppressed_sync (snd (unsubscribe loads None (make_unsubscribe_token dumps email) d)) a \<longleftrightarrow>
       is_suppressed_sync d a \<or> same_address email a)"
proof -
  have tok: "read_unsubscribe_token loads (make_unsubscribe_token dumps email) = Some n"
    using read_make_token [OF assms(1), of email] assms(2) by simp
  show ?thesis
    using assms(2) by (auto simp: unsubscribe_effect tok is_suppressed_sync_iff same_address_def split: option.splits)
      (simp_all add: unsubscribe_def tok)
qed

text \<open>A signer for the witness: a signed string carries a leading mark.\<close>

fun mark_dumps :: "json \<Rightarrow> string" where
  "mark_dumps (JStr s) = CHR ''s'' # s"
| "mark_dumps _ = []"

fun mark_loads :: "string \<Rightarrow> json option" where
  "mark_loads [] = None"
| "mark_loads (c # s) = (if c = CHR ''s'' then Some (JStr s) else None)"

theorem unsubscribe_link_works_witness:
  "fst (unsubscribe mark_loads None (make_unsubscribe_token mark_dumps '' A@x.com '') empty_db) = (True, Some ''a@x.com'') \<and>
   is_suppressed_sync (snd (unsubscribe mark_loads None (make_unsubscribe_token mark_dumps '' A@x.com '') empty_db)) ''a@X.com''"
proof -
  have "serializer_ok mark_dumps mark_loads" by (simp add: serializer_ok_def)
  moreover have "normalize_email (Some '' A@x.com '') = Some ''a@x.com''" by code_simp
  moreover have "same_address '' A@x.com '' ''a@X.com''" by code_simp
  ultimately show ?thesis using unsubscribe_link_works by blast
qed

text \<open>
  A token the signer rejects, or whose payload is not a string with an address in it,
  changes nothing; opening the link never does, and shows the address that confirming it
  would suppress.
\<close>

theorem unsubscribe_rejects:
  assumes "\<forall>s. loads token \<noteq> Some (JStr s) \<or> normalize_email (Some s) = None"
  shows "unsubscribe loads race token d = ((False, None), d) \<and> unsubscribe_confirm loads token = None"
  using assms
  by (auto simp: unsubscribe_def unsubscribe_confirm_def read_unsubscribe_token_def split: option.splits json.splits)

theorem unsubscribe_rejects_witness:
  "unsubscribe (\<lambda>_. None) None ''x'' empty_db = ((False, None), empty_db)"
  using unsubscribe_rejects [of "\<lambda>_. None" "''x''" None empty_db] by simp

end
