(* ===== verification/Sending.thy ===== *)
theory Sending
  imports Ledger Rate_Limit Postal Tokens Merge
begin

text \<open>
  The send pipeline (\<open>app/tasks/sending.py\<close>).  The world is the committed database, the
  Redis store, the task queue (each task with the instant it becomes due) and the messages
  the mail provider accepted.  \<open>send_one\<close> is split where the source splits it: the lock,
  the validation transaction, pacing, rendering and submission, and the transaction that
  records the outcome; each is a function of its own, and \<open>send_one\<close> runs them in order.
  \<open>env\<close> holds what is outside the code: the settings, the signer of the unsubscribe links,
  \<open>markupsafe.escape\<close>, the text of JSON floats and containers, the provider, and the clashes
  of the pacing transaction.  One instant \<open>now\<close> stands for the clock during a task.
\<close>

section \<open>World\<close>

datatype task = MaterializeTask id | SendTask id nat

text \<open>A \<open>SendTask\<close> carries the number of retries Celery has made.\<close>

record world =
  w_db :: db
  w_redis :: redis
  w_queue :: "(instant \<times> task) list"
  w_mail :: "(id \<times> send_message) list"

record env =
  e_settings :: settings
  e_dumps :: "json \<Rightarrow> string"
  e_esc :: "string \<Rightarrow> string"
  e_rep :: "json \<Rightarrow> string"
  e_submit :: "send_message \<Rightarrow> send_outcome"
  e_clash :: "nat \<Rightarrow> redis option"

datatype task_result = Returned string | Retried int | Raised exn

definition enqueue_pending :: "instant \<Rightarrow> id \<Rightarrow> world \<Rightarrow> world" where
  "enqueue_pending now campaign_id w =
     w\<lparr>w_queue := w_queue w @ map (\<lambda>i. (now, SendTask i 0)) (pending_ids (w_db w) campaign_id)\<rparr>"

definition materialize_campaign :: "instant \<Rightarrow> id \<Rightarrow> world \<Rightarrow> exn + materialized \<times> world" where
  "materialize_campaign now campaign_id w =
     and_then (materialize_db now campaign_id (w_db w)) (\<lambda>(res, d).
     let w1 = w\<lparr>w_db := d\<rparr> in
     Inr (res, case res of MatDone n \<Rightarrow> enqueue_pending now campaign_id w1 | _ \<Rightarrow> w1))"

section \<open>Phase 1: validate\<close>

record send_ctx =
  x_email :: string
  x_campaign_id :: id
  x_freq_campaign_id :: "id option"
  x_contact_id :: "id option"
  x_domain :: string
  x_pool :: string
  x_subject :: string
  x_from_name :: string
  x_from_email :: string
  x_reply_to :: "string option"
  x_merge :: merge_snapshot
  x_type :: string
  x_body :: string
  x_warming_cap :: int
  x_overflow :: json
  x_send_rate :: int

datatype validated = Stop string db | Go send_ctx

definition pool_of :: "campaign_recipient \<Rightarrow> campaign \<Rightarrow> string" where
  "pool_of cr c =
     (case cr_ip_pool cr of
        Some p \<Rightarrow> if p \<noteq> [] then p
                  else (case c_ip_pool c of Some q \<Rightarrow> if q \<noteq> [] then q else ''default'' | None \<Rightarrow> ''default'')
      | None \<Rightarrow> (case c_ip_pool c of Some q \<Rightarrow> if q \<noteq> [] then q else ''default'' | None \<Rightarrow> ''default''))"

definition template_of :: "db \<Rightarrow> campaign \<Rightarrow> template option" where
  "template_of d c =
     (case c_template_id c of None \<Rightarrow> None | Some t \<Rightarrow> if t = 0 then None else get_template_row t d)"

definition send_rate_of :: "(string \<times> json) list \<Rightarrow> exn + int" where
  "send_rate_of cfg = py_int (json_or (cfg_get cfg ''send_rate_per_minute'') (JInt 25))"

text \<open>
  The end of a branch that gives the recipient its final status, counts it, and completes
  the campaign when it was the last.
\<close>

definition close_recipient ::
  "instant \<Rightarrow> id \<Rightarrow> (campaign_recipient \<Rightarrow> campaign_recipient) \<Rightarrow> id \<Rightarrow> counter \<Rightarrow> db \<Rightarrow> db" where
  "close_recipient now rid f campaign_id k d =
     maybe_finalize campaign_id (bump_campaign campaign_id [(k, 1)] (save_recipient now rid f d))"

definition send_validate :: "instant \<Rightarrow> id \<Rightarrow> db \<Rightarrow> exn + validated" where
  "send_validate now rid d =
     (case get_recipient_row rid d of
        None \<Rightarrow> Inr (Stop ''missing'' d)
      | Some cr \<Rightarrow>
          if cr_status cr \<noteq> RPending then Inr (Stop ''already-processed'' d)
          else case get_campaign_row (cr_campaign_id cr) d of
            None \<Rightarrow> Inr (Stop ''no-campaign'' d)
          | Some c \<Rightarrow>
              if c_status c = Paused then Inr (Stop ''paused'' d)
              else if c_status c \<noteq> Sending
              then Inr (Stop (''campaign-'' @ campaign_status_value (c_status c)) d)
              else if is_suppressed_sync d (cr_email_snapshot cr)
              then Inr (Stop ''suppressed''
                     (close_recipient now rid (\<lambda>r. r\<lparr>cr_status := RSkippedSuppressed\<rparr>) (c_id c) SkippedCount d))
              else and_then (current_daily_cap now d) (\<lambda>cap.
                let cfg = get_planner_config d in
                and_then (send_rate_of cfg) (\<lambda>rate.
                case template_of d c of
                  None \<Rightarrow> Inr (Stop ''no-template''
                     (close_recipient now rid
                        (\<lambda>r. r\<lparr>cr_status := RFailed, cr_error_detail := Some ''campaign has no template''\<rparr>)
                        (c_id c) FailedCount d))
                | Some tmpl \<Rightarrow>
                    Inr (Go \<lparr>x_email = cr_email_snapshot cr, x_campaign_id = c_id c,
                             x_freq_campaign_id = c_parent_campaign_id c, x_contact_id = cr_contact_id cr,
                             x_domain = domain_of (cr_email_snapshot cr), x_pool = pool_of cr c,
                             x_subject = c_subject c, x_from_name = c_from_name c,
                             x_from_email = c_from_email c, x_reply_to = c_reply_to c,
                             x_merge = cr_merge_snapshot cr, x_type = t_type tmpl, x_body = t_body tmpl,
                             x_warming_cap = cap, x_overflow = cfg_get cfg ''overflow_policy'',
                             x_send_rate = rate\<rparr>))))"

section \<open>Phase 2: pacing\<close>

datatype paced = Clear | Later string int | HardStop

definition ceil_rat :: "rat \<Rightarrow> int" where
  "ceil_rat q = \<lceil>q\<rceil>"

definition send_pace :: "env \<Rightarrow> instant \<Rightarrow> send_ctx \<Rightarrow> redis \<Rightarrow> exn + paced \<times> redis" where
  "send_pace E now x r =
     and_then (acquire 25 (\<lambda>_. now) (e_clash E)
                 (build_send_buckets (e_settings E) (x_domain x) (Some (x_send_rate x))) r) (\<lambda>(rate, r1).
     if \<not> ar_allowed rate
     then Inr (Later ''rate-limited'' (min (max 1 (ceil_rat (ar_retry_after rate))) 60), r1)
     else let cap = is_under_daily_cap (e_settings E) now (x_pool x) None r1 in
       if \<not> dc_allowed cap then Inr (Later ''daily-cap'' (min (max 60 (dc_retry_after cap)) 3600), r1)
       else if global_sent_today now r1 \<ge> x_warming_cap x
       then Inr (if x_overflow x = JStr ''defer'' then Later ''warming-deferred'' 3600 else HardStop, r1)
       else Inr (Clear, r1))"

text \<open>The hard stop, and the mark of a permanent failure: only a recipient still pending.\<close>

definition close_if_pending ::
  "instant \<Rightarrow> id \<Rightarrow> (campaign_recipient \<Rightarrow> campaign_recipient) \<Rightarrow> id \<Rightarrow> counter \<Rightarrow> db \<Rightarrow> db" where
  "close_if_pending now rid f campaign_id k d =
     (case get_recipient_row rid d of
        None \<Rightarrow> d
      | Some cr \<Rightarrow> if cr_status cr = RPending then close_recipient now rid f campaign_id k d else d)"

section \<open>Phase 3: the message\<close>

definition send_message_of :: "env \<Rightarrow> send_ctx \<Rightarrow> send_message" where
  "send_message_of E x =
     (let unsub = unsubscribe_url (e_dumps E) (e_settings E) (x_email x);
          ctx = build_context (x_email x) (ms_first_name (x_merge x)) (ms_last_name (x_merge x)) unsub
                  (ms_custom_fields (x_merge x));
          is_html = (x_type x = ''html'');
          rendered_body = render (e_rep E) (e_esc E) (x_body x) ctx is_html;
          rendered_subject = render (e_rep E) (e_esc E) (x_subject x) ctx False
      in \<lparr>sm_to = x_email x, sm_from_email = x_from_email x, sm_from_name = x_from_name x,
          sm_subject = rendered_subject,
          sm_plain_body = (if is_html then None else Some rendered_body),
          sm_html_body = (if is_html then Some rendered_body else None),
          sm_reply_to = (case x_reply_to x of None \<Rightarrow> None | Some r \<Rightarrow> if r = [] then None else Some r),
          sm_headers = [(''List-Unsubscribe'', ''<'' @ unsub @ ''>''),
                        (''List-Unsubscribe-Post'', ''List-Unsubscribe=One-Click'')],
          sm_tag = Some (''campaign-'' @ show_int (x_campaign_id x) @ '':'' @ x_pool x)\<rparr>)"

section \<open>Phase 4: record the success\<close>

definition send_record :: "env \<Rightarrow> instant \<Rightarrow> id \<Rightarrow> send_ctx \<Rightarrow> json \<Rightarrow> db \<Rightarrow> string \<times> db" where
  "send_record E now rid x token d =
     (case get_recipient_row rid d of
        None \<Rightarrow> (''missing-after-send'', d)
      | Some cr \<Rightarrow>
          (''sent'',
           if cr_status cr = RPending then
             let d1 = bump_campaign (x_campaign_id x) [(SentCount, 1)]
                        (save_recipient now rid
                           (\<lambda>r. r\<lparr>cr_status := RSent, cr_postal_message_id := Some (py_str (e_rep E) token),
                                  cr_ip_pool := Some (x_pool x)\<rparr>) d);
                 d2 = (case (x_freq_campaign_id x, x_contact_id x) of
                         (Some f, Some ct) \<Rightarrow> record_send now f ct d1
                       | _ \<Rightarrow> d1)
             in maybe_finalize (x_campaign_id x) d2
           else d))"

section \<open>The task\<close>

definition lock_key :: "id \<Rightarrow> string" where
  "lock_key rid = ''lock:send:'' @ show_int rid"

definition unlock :: "id \<Rightarrow> world \<Rightarrow> world" where
  "unlock rid w = w\<lparr>w_redis := redis_delete (lock_key rid) (w_redis w)\<rparr>"

text \<open>The body under the lock, from the validation on.\<close>

definition send_transient :: "env \<Rightarrow> instant \<Rightarrow> id \<Rightarrow> nat \<Rightarrow> string \<Rightarrow> world \<Rightarrow> task_result \<times> world" where
  "send_transient E now rid retries exc w =
     (let backoff = min (send_retry_backoff_seconds (e_settings E) * 2 ^ retries) 3600 in
      if int retries \<ge> send_max_retries (e_settings E) then (Raised (TransientError exc), w)
      else (Retried backoff, w\<lparr>w_queue := w_queue w @ [(now + seconds backoff, SendTask rid (retries + 1))]\<rparr>))"

definition send_submit :: "env \<Rightarrow> instant \<Rightarrow> id \<Rightarrow> nat \<Rightarrow> send_ctx \<Rightarrow> world \<Rightarrow> task_result \<times> world" where
  "send_submit E now rid retries x w =
     (let m = send_message_of E x in
      case e_submit E m of
        Crashed e \<Rightarrow> (Raised e, w)
      | Transient exc \<Rightarrow> send_transient E now rid retries exc w
      | Permanent exc \<Rightarrow>
          (Returned ''failed'',
           w\<lparr>w_db := close_if_pending now rid
                       (\<lambda>r. r\<lparr>cr_status := RFailed, cr_error_detail := Some (''permanent: '' @ exc)\<rparr>)
                       (x_campaign_id x) FailedCount (w_db w)\<rparr>)
      | Accepted res \<Rightarrow>
          let w1 = w\<lparr>w_mail := w_mail w @ [(rid, m)]\<rparr>;
              (status, d) = send_record E now rid x (sr_message_token res) (w_db w1);
              w2 = w1\<lparr>w_db := d\<rparr>
          in if status = ''missing-after-send'' then (Returned status, w2)
             else (Returned status,
                   w2\<lparr>w_redis := snd (record_global_send now (snd (record_daily_send now (x_pool x) (w_redis w2))))\<rparr>))"

definition send_body :: "env \<Rightarrow> instant \<Rightarrow> id \<Rightarrow> nat \<Rightarrow> world \<Rightarrow> task_result \<times> world" where
  "send_body E now rid retries w =
     (case send_validate now rid (w_db w) of
        Inl e \<Rightarrow> (Raised e, w)
      | Inr (Stop status d) \<Rightarrow> (Returned status, w\<lparr>w_db := d\<rparr>)
      | Inr (Go x) \<Rightarrow>
          (case send_pace E now x (w_redis w) of
             Inl e \<Rightarrow> (Raised e, w)
           | Inr (Later status countdown, r) \<Rightarrow>
               (Returned status,
                w\<lparr>w_redis := r, w_queue := w_queue w @ [(now + seconds countdown, SendTask rid 0)]\<rparr>)
           | Inr (HardStop, r) \<Rightarrow>
               (Returned ''warming-cap'',
                w\<lparr>w_redis := r,
                  w_db := close_if_pending now rid (\<lambda>r. r\<lparr>cr_status := RSkippedCap\<rparr>)
                            (x_campaign_id x) SkippedCount (w_db w)\<rparr>)
           | Inr (Clear, r) \<Rightarrow> send_submit E now rid retries x (w\<lparr>w_redis := r\<rparr>)))"

definition send_one :: "env \<Rightarrow> instant \<Rightarrow> id \<Rightarrow> nat \<Rightarrow> world \<Rightarrow> task_result \<times> world" where
  "send_one E now rid retries w =
     (case redis_set_nx now (lock_key rid) ''1'' 180 (w_redis w) of
        (False, _) \<Rightarrow> (Returned ''locked'', w)
      | (True, r) \<Rightarrow>
          let (res, w') = send_body E now rid retries (w\<lparr>w_redis := r\<rparr>)
          in (res, unlock rid w'))"

section \<open>What a send task does to the world\<close>

text \<open>
  Every branch leaves the database alone or closes the recipient: one pending row gets a
  final status, one counter of its campaign moves by one, the frequency log may be written,
  and the campaign is completed when nothing is pending.
\<close>

definition log_send :: "instant \<Rightarrow> (id \<times> id) option \<Rightarrow> db \<Rightarrow> db" where
  "log_send now fq d = (case fq of None \<Rightarrow> d | Some (f, ct) \<Rightarrow> record_send now f ct d)"

definition settled ::
  "instant \<Rightarrow> id \<Rightarrow> (campaign_recipient \<Rightarrow> campaign_recipient) \<Rightarrow> id \<Rightarrow> counter \<Rightarrow> (id \<times> id) option \<Rightarrow> db \<Rightarrow> db" where
  "settled now rid f cid k fq d =
     maybe_finalize cid (log_send now fq (bump_campaign cid [(k, 1)] (save_recipient now rid f d)))"

definition closing :: "(campaign_recipient \<Rightarrow> campaign_recipient) \<Rightarrow> bool" where
  "closing f \<longleftrightarrow> (\<forall>r. cr_id (f r) = cr_id r \<and> cr_campaign_id (f r) = cr_campaign_id r \<and>
     cr_contact_id (f r) = cr_contact_id r \<and> cr_email_snapshot (f r) = cr_email_snapshot r \<and>
     cr_status (f r) \<in> {RSent, RFailed, RSkippedSuppressed, RSkippedCap})"

definition sendable :: "id \<Rightarrow> db \<Rightarrow> campaign_recipient \<Rightarrow> campaign \<Rightarrow> bool" where
  "sendable rid d cr c \<longleftrightarrow>
     get_recipient_row rid d = Some cr \<and> cr_status cr = RPending \<and>
     get_campaign_row (cr_campaign_id cr) d = Some c \<and> c_status c = Sending"

lemma settled_None: "settled now rid f cid k None d = close_recipient now rid f cid k d"
  by (simp add: settled_def close_recipient_def log_send_def)

lemma closingI:
  "(\<And>r. cr_id (f r) = cr_id r) \<Longrightarrow> (\<And>r. cr_campaign_id (f r) = cr_campaign_id r) \<Longrightarrow>
   (\<And>r. cr_contact_id (f r) = cr_contact_id r) \<Longrightarrow> (\<And>r. cr_email_snapshot (f r) = cr_email_snapshot r) \<Longrightarrow>
   (\<And>r. cr_status (f r) \<in> {RSent, RFailed, RSkippedSuppressed, RSkippedCap}) \<Longrightarrow> closing f"
  by (simp add: closing_def)

lemma sendable_ids: "sendable rid d cr c \<Longrightarrow> cr_id cr = rid \<and> c_id c = cr_campaign_id cr"
  by (auto simp: sendable_def get_recipient_row_def get_campaign_row_def dest: row_by_SomeD)

lemma get_campaign_id': "get_campaign_row i d = Some c \<Longrightarrow> c_id c = i"
  by (auto simp: get_campaign_row_def dest: row_by_SomeD)

lemma send_validate_Stop_raw:
  assumes "send_validate now rid d = Inr (Stop s d')"
  shows "d' = d \<or> (\<exists>cr c. sendable rid d cr c \<and>
    (d' = close_recipient now rid (\<lambda>r. r\<lparr>cr_status := RSkippedSuppressed\<rparr>) (cr_campaign_id cr) SkippedCount d \<or>
     d' = close_recipient now rid (\<lambda>r. r\<lparr>cr_status := RFailed, cr_error_detail := Some ''campaign has no template''\<rparr>)
            (cr_campaign_id cr) FailedCount d))"
  using assms
  by (auto simp: send_validate_def sendable_def and_then_Inr_iff Let_def dest: get_campaign_id'
      split: option.splits if_splits)

lemma closing_simps [simp]:
  "s \<in> {RSent, RFailed, RSkippedSuppressed, RSkippedCap} \<Longrightarrow> closing (\<lambda>r. r\<lparr>cr_status := s\<rparr>)"
  "s \<in> {RSent, RFailed, RSkippedSuppressed, RSkippedCap} \<Longrightarrow>
     closing (\<lambda>r. r\<lparr>cr_status := s, cr_error_detail := e\<rparr>)"
  "s \<in> {RSent, RFailed, RSkippedSuppressed, RSkippedCap} \<Longrightarrow>
     closing (\<lambda>r. r\<lparr>cr_status := s, cr_postal_message_id := t, cr_ip_pool := p\<rparr>)"
  by (simp_all add: closing_def)

lemma send_validate_Stop:
  assumes "send_validate now rid d = Inr (Stop s d')"
  shows "d' = d \<or> (\<exists>cr c f k. sendable rid d cr c \<and> closing f \<and> k \<in> {FailedCount, SkippedCount} \<and>
           d' = settled now rid f (cr_campaign_id cr) k None d)"
proof -
  have "closing (\<lambda>r. r\<lparr>cr_status := RSkippedSuppressed\<rparr>)"
    "closing (\<lambda>r. r\<lparr>cr_status := RFailed, cr_error_detail := Some ''campaign has no template''\<rparr>)"
    by simp_all
  with send_validate_Stop_raw [OF assms] show ?thesis unfolding settled_None by blast
qed

lemma send_validate_Go:
  assumes "send_validate now rid d = Inr (Go x)"
  shows "\<exists>cr c tmpl. sendable rid d cr c \<and> \<not> is_suppressed_sync d (cr_email_snapshot cr) \<and>
    template_of d c = Some tmpl \<and> x_email x = cr_email_snapshot cr \<and> x_campaign_id x = cr_campaign_id cr \<and>
    x_contact_id x = cr_contact_id cr \<and> x_freq_campaign_id x = c_parent_campaign_id c \<and>
    x_body x = t_body tmpl \<and> x_type x = t_type tmpl"
  using assms
  by (auto simp: send_validate_def sendable_def and_then_Inr_iff Let_def get_campaign_id'
      split: option.splits if_splits)

lemma close_if_pending_sendable:
  "sendable rid d cr c \<Longrightarrow> close_if_pending now rid f cid k d = settled now rid f cid k None d"
  by (simp add: close_if_pending_def sendable_def settled_None)

definition freq_entry :: "send_ctx \<Rightarrow> (id \<times> id) option" where
  "freq_entry x = (case (x_freq_campaign_id x, x_contact_id x) of (Some f, Some ct) \<Rightarrow> Some (f, ct) | _ \<Rightarrow> None)"

lemma send_record_sendable:
  "sendable rid d cr c \<Longrightarrow> send_record E now rid x token d =
     (''sent'', settled now rid (\<lambda>r. r\<lparr>cr_status := RSent, cr_postal_message_id := Some (py_str (e_rep E) token),
                                  cr_ip_pool := Some (x_pool x)\<rparr>)
                  (x_campaign_id x) SentCount (freq_entry x) d)"
  by (auto simp: send_record_def sendable_def settled_def log_send_def freq_entry_def Let_def split: option.splits)

text \<open>The three shapes of a run: nothing, a recipient closed without a message, a message sent.\<close>

definition send_effect :: "env \<Rightarrow> instant \<Rightarrow> id \<Rightarrow> world \<Rightarrow> world \<Rightarrow> bool" where
  "send_effect E now rid w w' \<longleftrightarrow>
     (w_db w' = w_db w \<and> w_mail w' = w_mail w) \<or>
     (\<exists>cr c f k. sendable rid (w_db w) cr c \<and> closing f \<and> k \<in> {FailedCount, SkippedCount} \<and>
        w_db w' = settled now rid f (cr_campaign_id cr) k None (w_db w) \<and> w_mail w' = w_mail w) \<or>
     (\<exists>cr c x token. sendable rid (w_db w) cr c \<and> send_validate now rid (w_db w) = Inr (Go x) \<and>
        x_campaign_id x = cr_campaign_id cr \<and> x_email x = cr_email_snapshot cr \<and>
        w_db w' = settled now rid (\<lambda>r. r\<lparr>cr_status := RSent, cr_postal_message_id := Some token,
                                         cr_ip_pool := Some (x_pool x)\<rparr>)
                    (cr_campaign_id cr) SentCount (freq_entry x) (w_db w) \<and>
        w_mail w' = w_mail w @ [(rid, send_message_of E x)] \<and>
        (\<exists>res. e_submit E (send_message_of E x) = Accepted res \<and> token = py_str (e_rep E) (sr_message_token res)))"

lemma send_effect_same: "w_db w' = w_db w \<Longrightarrow> w_mail w' = w_mail w \<Longrightarrow> send_effect E now rid w w'"
  by (simp add: send_effect_def)

lemma send_effect_close:
  "sendable rid (w_db w) cr c \<Longrightarrow> closing f \<Longrightarrow> k \<in> {FailedCount, SkippedCount} \<Longrightarrow>
   w_db w' = settled now rid f (cr_campaign_id cr) k None (w_db w) \<Longrightarrow> w_mail w' = w_mail w \<Longrightarrow>
   send_effect E now rid w w'"
  unfolding send_effect_def by blast

lemma send_submit_effect:
  assumes "send_validate now rid (w_db w) = Inr (Go x)"
  shows "send_effect E now rid w (snd (send_submit E now rid n x w))"
proof -
  from send_validate_Go [OF assms] obtain cr c where sd: "sendable rid (w_db w) cr c"
    and x: "x_email x = cr_email_snapshot cr" "x_campaign_id x = cr_campaign_id cr" by blast
  show ?thesis
  proof (cases "e_submit E (send_message_of E x)")
    case (Accepted res)
    have "sendable rid (w_db (w\<lparr>w_mail := w_mail w @ [(rid, send_message_of E x)]\<rparr>)) cr c" using sd by simp
    note rec = send_record_sendable [OF this, of E now x "sr_message_token res"]
    show ?thesis
      unfolding send_effect_def
      apply (rule disjI2, rule disjI2)
      using sd assms x Accepted rec
      by (intro exI [of _ cr] exI [of _ c] exI [of _ x] exI [of _ "py_str (e_rep E) (sr_message_token res)"])
         (simp add: send_submit_def Let_def)
  next
    case (Transient exc)
    then show ?thesis
      by (intro send_effect_same) (simp_all add: send_submit_def send_transient_def Let_def)
  next
    case (Permanent exc)
    then show ?thesis
      using close_if_pending_sendable [OF sd] x
      by (intro send_effect_close [OF sd]) (simp_all add: send_submit_def Let_def)
  next
    case (Crashed e)
    then show ?thesis by (intro send_effect_same) (simp_all add: send_submit_def Let_def)
  qed
qed

lemma send_effect_redis: "send_effect E now rid (w\<lparr>w_redis := r\<rparr>) w' \<longleftrightarrow> send_effect E now rid w w'"
  "send_effect E now rid w (w'\<lparr>w_redis := r\<rparr>) \<longleftrightarrow> send_effect E now rid w w'"
  by (simp_all add: send_effect_def)

lemma send_body_effect: "send_effect E now rid w (snd (send_body E now rid n w))"
proof (cases "send_validate now rid (w_db w)")
  case (Inl e)
  then show ?thesis by (simp add: send_body_def send_effect_same)
next
  case (Inr v)
  show ?thesis
  proof (cases v)
    case (Stop s d')
    with Inr send_validate_Stop [of now rid "w_db w" s d'] show ?thesis
      by (auto simp: send_body_def intro: send_effect_same send_effect_close)
  next
    case (Go x)
    with Inr have go: "send_validate now rid (w_db w) = Inr (Go x)" by simp
    from send_validate_Go [OF this] obtain cr c where sd: "sendable rid (w_db w) cr c"
      and x: "x_campaign_id x = cr_campaign_id cr" by blast
    show ?thesis
    proof (cases "send_pace E now x (w_redis w)")
      case (Inl e)
      with go show ?thesis by (simp add: send_body_def send_effect_same)
    next
      case (Inr pr)
      obtain p r where pr: "pr = (p, r)" by (cases pr)
      note pace = Inr [unfolded pr]
      show ?thesis
      proof (cases p)
        case Clear
        have "send_validate now rid (w_db (w\<lparr>w_redis := r\<rparr>)) = Inr (Go x)" using go by simp
        from send_submit_effect [OF this, of E n] show ?thesis
          by (simp add: send_body_def go pace Clear send_effect_redis)
      next
        case (Later s k)
        with go pace show ?thesis by (simp add: send_body_def send_effect_same)
      next
        case HardStop
        show ?thesis
          using close_if_pending_sendable [OF sd] x
          by (intro send_effect_close [OF sd]) (simp_all add: send_body_def go pace HardStop)
      qed
    qed
  qed
qed

theorem send_one_effect: "send_effect E now rid w (snd (send_one E now rid n w))"
proof (cases "redis_set_nx now (lock_key rid) ''1'' 180 (w_redis w)")
  case (Pair b r)
  show ?thesis
  proof (cases b)
    case True
    have "send_effect E now rid w (snd (send_body E now rid n (w\<lparr>w_redis := r\<rparr>)))"
      using send_body_effect [of E now rid "w\<lparr>w_redis := r\<rparr>" n] by (simp add: send_effect_redis)
    then show ?thesis
      by (cases "send_body E now rid n (w\<lparr>w_redis := r\<rparr>)")
        (simp add: send_one_def Pair True unlock_def Let_def send_effect_redis)
  next
    case False
    then show ?thesis by (simp add: send_one_def Pair send_effect_same)
  qed
qed

lemma send_effect_db:
  assumes "send_effect E now rid w w'"
  shows "w_db w' = w_db w \<or> (\<exists>cr c f k fq. sendable rid (w_db w) cr c \<and> closing f \<and>
    k \<in> {SentCount, FailedCount, SkippedCount} \<and> w_db w' = settled now rid f (cr_campaign_id cr) k fq (w_db w))"
proof -
  have sent: "closing (\<lambda>r. r\<lparr>cr_status := RSent, cr_postal_message_id := t, cr_ip_pool := p\<rparr>)" for t p
    by simp
  from assms show ?thesis unfolding send_effect_def using sent by blast
qed

section \<open>Closing a recipient\<close>

lemma log_send_frame [frame, simp]:
  "campaigns (log_send t fq d) = campaigns d" "recipients (log_send t fq d) = recipients d"
  "contacts (log_send t fq d) = contacts d" "suppressions (log_send t fq d) = suppressions d"
  "email_events (log_send t fq d) = email_events d" "app_settings (log_send t fq d) = app_settings d"
  "templates (log_send t fq d) = templates d" "campaign_lists (log_send t fq d) = campaign_lists d"
  "contact_lists (log_send t fq d) = contact_lists d"
  by (simp_all add: log_send_def split: option.split)

lemma record_send_seqs [simp]: "t \<noteq> TContactSends \<Longrightarrow> seqs (record_send now k c d) t = seqs d t"
  by (simp add: record_send_def split: option.split)

lemma log_send_seqs [simp]: "t \<noteq> TContactSends \<Longrightarrow> seqs (log_send now fq d) t = seqs d t"
  by (simp add: log_send_def split: option.split)

lemma settled_frame [frame, simp]:
  "contacts (settled now rid f cid k fq d) = contacts d"
  "suppressions (settled now rid f cid k fq d) = suppressions d"
  "email_events (settled now rid f cid k fq d) = email_events d"
  "app_settings (settled now rid f cid k fq d) = app_settings d"
  "recipients (settled now rid f cid k fq d) = upd_by cr_id rid (touch now f) (recipients d)"
  "seqs (settled now rid f cid k fq d) TRecipients = seqs d TRecipients"
  by (simp_all add: settled_def)

lemma closing_touch:
  assumes "closing f"
  shows "cr_id (f r) = cr_id r" "cr_campaign_id (f r) = cr_campaign_id r" "cr_status (f r) \<noteq> RPending"
proof -
  from assms have "cr_status (f r) \<in> {RSent, RFailed, RSkippedSuppressed, RSkippedCap}"
    unfolding closing_def by blast
  then show "cr_status (f r) \<noteq> RPending" by auto
qed (use assms in \<open>simp_all add: closing_def\<close>)

lemma settled_recipient:
  "closing f \<Longrightarrow> get_recipient_row i (settled now rid f cid k fq d) =
     (if i = rid then map_option (touch now f) (get_recipient_row i d) else get_recipient_row i d)"
  by (simp add: get_recipient_row_def row_by_upd_by closing_touch)

lemma settled_counts:
  assumes "sendable rid d cr c" "closing f" "distinct (map cr_id (recipients d))"
  shows "pending_count (settled now rid f cid k fq d) i =
      pending_count d i - (if i = cr_campaign_id cr then 1 else 0)"
    "count_rows (\<lambda>r. cr_campaign_id r = i) (recipients (settled now rid f cid k fq d)) =
      count_rows (\<lambda>r. cr_campaign_id r = i) (recipients d)"
proof -
  have row: "row_by cr_id rid (recipients d) = Some cr" and st: "cr_status cr = RPending"
    using assms(1) by (simp_all add: sendable_def get_recipient_row_def)
  show "pending_count (settled now rid f cid k fq d) i = pending_count d i - (if i = cr_campaign_id cr then 1 else 0)"
    using count_rows_upd_by [OF assms(3) row, of "pending_row i" "touch now f"] closing_touch [OF assms(2)] st
    by (simp add: pending_count_def pending_row_def)
  show "count_rows (\<lambda>r. cr_campaign_id r = i) (recipients (settled now rid f cid k fq d)) =
      count_rows (\<lambda>r. cr_campaign_id r = i) (recipients d)"
    using count_rows_upd_by [OF assms(3) row, of "\<lambda>r. cr_campaign_id r = i" "touch now f"] closing_touch [OF assms(2)]
    by simp
qed

lemma get_campaign_log_send [simp]: "get_campaign_row i (log_send t fq d) = get_campaign_row i d"
  by (simp add: get_campaign_row_def)

lemma get_campaign_save_recipient [simp]: "get_campaign_row i (save_recipient t r f d) = get_campaign_row i d"
  by (simp add: get_campaign_row_def)

text \<open>The campaign afterwards: one counter moved, completed exactly when nothing is pending.\<close>

lemma settled_campaign:
  "get_campaign_row i (settled now rid f cid k fq d) =
     map_option (\<lambda>c. let c1 = (if i = cid then add_counter k 1 c else c) in
       if i = cid \<and> pending_count (settled now rid f cid k fq d) cid = 0 \<and> c_status c = Sending
       then c1\<lparr>c_status := Completed\<rparr> else c1) (get_campaign_row i d)"
proof -
  have "pending_count (settled now rid f cid k fq d) cid =
      pending_count (log_send now fq (bump_campaign cid [(k, 1)] (save_recipient now rid f d))) cid"
    by (simp add: pending_count_def settled_def)
  then show ?thesis
    by (cases "get_campaign_row i d")
       (auto simp: settled_def get_campaign_maybe_finalize get_campaign_bump Let_def)
qed

section \<open>Conservation of recipients\<close>

text \<open>
  A ledger is balanced when every recipient of the campaign is pending or counted once as
  sent, failed or skipped.
\<close>

definition balanced :: "db \<Rightarrow> id \<Rightarrow> bool" where
  "balanced d cid \<longleftrightarrow>
     (\<forall>c. get_campaign_row cid d = Some c \<longrightarrow>
        c_total_recipients c = count_rows (\<lambda>r. cr_campaign_id r = cid) (recipients d) \<and>
        c_sent_count c + c_failed_count c + c_skipped_count c + pending_count d cid = c_total_recipients c)"

definition processed :: "campaign \<Rightarrow> int" where
  "processed c = c_sent_count c + c_failed_count c + c_skipped_count c"

lemma balanced_iff:
  "balanced d cid \<longleftrightarrow> (\<forall>c. get_campaign_row cid d = Some c \<longrightarrow>
     c_total_recipients c = count_rows (\<lambda>r. cr_campaign_id r = cid) (recipients d) \<and>
     processed c + pending_count d cid = c_total_recipients c)"
  by (simp add: balanced_def processed_def)

lemma processed_add:
  "k \<in> {SentCount, FailedCount, SkippedCount} \<Longrightarrow>
     processed (add_counter k 1 c) = processed c + 1 \<and>
     c_total_recipients (add_counter k 1 c) = c_total_recipients c"
  by (auto simp: processed_def)

lemma processed_status [simp]: "processed (c\<lparr>c_status := s\<rparr>) = processed c"
  by (simp add: processed_def)

lemma settled_balanced:
  assumes "sendable rid d cr c" "closing f" "distinct (map cr_id (recipients d))"
    and "k \<in> {SentCount, FailedCount, SkippedCount}" "balanced d cid"
  shows "balanced (settled now rid f (cr_campaign_id cr) k fq d) cid"
proof -
  let ?d = "settled now rid f (cr_campaign_id cr) k fq d"
  note counts = settled_counts [OF assms(1-3)]
  have "c_total_recipients c' = count_rows (\<lambda>r. cr_campaign_id r = cid) (recipients ?d) \<and>
      processed c' + pending_count ?d cid = c_total_recipients c'"
    if c': "get_campaign_row cid ?d = Some c'" for c'
  proof -
    from c' obtain c0 where c0: "get_campaign_row cid d = Some c0"
      and eq: "c' = (let c1 = (if cid = cr_campaign_id cr then add_counter k 1 c0 else c0) in
         if cid = cr_campaign_id cr \<and> pending_count ?d (cr_campaign_id cr) = 0 \<and> c_status c0 = Sending
         then c1\<lparr>c_status := Completed\<rparr> else c1)"
      unfolding settled_campaign map_option_eq_Some by blast
    have tot: "c_total_recipients c' = c_total_recipients c0"
      and pr: "processed c' = processed c0 + (if cid = cr_campaign_id cr then 1 else 0)"
      unfolding eq using processed_add [OF assms(4), of c0] by (simp_all add: Let_def)
    from assms(5) c0 have "c_total_recipients c0 = count_rows (\<lambda>r. cr_campaign_id r = cid) (recipients d)"
      "processed c0 + pending_count d cid = c_total_recipients c0"
      by (simp_all add: balanced_iff)
    then show ?thesis by (simp only: counts tot pr) simp
  qed
  then show ?thesis by (simp only: balanced_iff) blast
qed

lemma send_effect_balanced:
  assumes "send_effect E now rid w w'" "distinct (map cr_id (recipients (w_db w)))" "balanced (w_db w) cid"
  shows "balanced (w_db w') cid"
  using send_effect_db [OF assms(1)] settled_balanced [OF _ _ assms(2) _ assms(3)] assms(3) by auto

section \<open>Nothing becomes pending again\<close>

definition ids_ok :: "db \<Rightarrow> bool" where
  "ids_ok d \<longleftrightarrow> distinct (map cr_id (recipients d)) \<and> (\<forall>r \<in> set (recipients d). cr_id r \<le> seqs d TRecipients)"

text \<open>
  What every operation of the system keeps of the ledger: identifiers are handed out once,
  and a recipient that is not pending never becomes pending.
\<close>

definition ledger_le :: "db \<Rightarrow> db \<Rightarrow> bool" where
  "ledger_le d d' \<longleftrightarrow>
     seqs d TRecipients \<le> seqs d' TRecipients \<and>
     (\<forall>i cr'. i \<le> seqs d TRecipients \<longrightarrow> get_recipient_row i d' = Some cr' \<longrightarrow> cr_status cr' = RPending \<longrightarrow>
        (\<exists>cr. get_recipient_row i d = Some cr \<and> cr_status cr = RPending))"

lemma ledger_le_refl [simp, inv_intros]: "ledger_le d d"
  by (simp add: ledger_le_def)

lemma ledger_le_trans: "ledger_le a b \<Longrightarrow> ledger_le b c \<Longrightarrow> ledger_le a c"
  unfolding ledger_le_def by (meson order_trans)

lemma ledger_le_same:
  "recipients d' = recipients d \<Longrightarrow> seqs d' TRecipients = seqs d TRecipients \<Longrightarrow> ledger_le d d'"
  by (simp add: ledger_le_def get_recipient_row_def)

lemma ids_ok_same:
  "recipients d' = recipients d \<Longrightarrow> seqs d' TRecipients = seqs d TRecipients \<Longrightarrow> ids_ok d' = ids_ok d"
  by (simp add: ids_ok_def)

lemma settled_ledger_le [inv_intros]: "closing f \<Longrightarrow> ledger_le d (settled now rid f cid k fq d)"
  by (auto simp: ledger_le_def settled_recipient closing_touch split: if_splits)

lemma upd_recipients_ids_ok:
  assumes "ids_ok d" "recipients d' = upd_by cr_id rid f (recipients d)" "\<And>r. cr_id (f r) = cr_id r"
    and "seqs d' TRecipients = seqs d TRecipients"
  shows "ids_ok d'"
  using assms(1) by (auto simp: ids_ok_def assms map_upd_by set_upd_by)

lemma settled_ids_ok [inv_intros]: "closing f \<Longrightarrow> ids_ok d \<Longrightarrow> ids_ok (settled now rid f cid k fq d)"
  by (rule upd_recipients_ids_ok [of d _ rid "touch now f"]) (simp_all add: closing_touch)

lemma send_effect_ledger:
  assumes "send_effect E now rid w w'" "ids_ok (w_db w)"
  shows "ledger_le (w_db w) (w_db w') \<and> ids_ok (w_db w')"
  using send_effect_db [OF assms(1)] assms(2) by (auto intro: settled_ledger_le settled_ids_ok)

section \<open>At most one message for each recipient\<close>

definition mail_ok :: "world \<Rightarrow> bool" where
  "mail_ok w \<longleftrightarrow>
     distinct (map fst (w_mail w)) \<and>
     (\<forall>i \<in> fst ` set (w_mail w). i \<le> seqs (w_db w) TRecipients \<and>
        (\<forall>cr. get_recipient_row i (w_db w) = Some cr \<longrightarrow> cr_status cr \<noteq> RPending))"

lemma mail_ok_step:
  assumes "mail_ok w" "ledger_le (w_db w) (w_db w')" "w_mail w' = w_mail w"
  shows "mail_ok w'"
  using assms by (fastforce simp: mail_ok_def ledger_le_def)

lemma sendable_not_mailed: "mail_ok w \<Longrightarrow> sendable rid (w_db w) cr c \<Longrightarrow> rid \<notin> fst ` set (w_mail w)"
  by (auto simp: mail_ok_def sendable_def)

lemma send_effect_mail_ok:
  assumes "send_effect E now rid w w'" "ids_ok (w_db w)" "mail_ok w"
  shows "mail_ok w'"
proof -
  note le = send_effect_ledger [OF assms(1,2)]
  from assms(1) consider "w_mail w' = w_mail w" |
    (sent) cr c x token where "sendable rid (w_db w) cr c"
      "w_db w' = settled now rid (\<lambda>r. r\<lparr>cr_status := RSent, cr_postal_message_id := Some token,
                                         cr_ip_pool := Some (x_pool x)\<rparr>)
                    (cr_campaign_id cr) SentCount (freq_entry x) (w_db w)"
      "w_mail w' = w_mail w @ [(rid, send_message_of E x)]"
    unfolding send_effect_def by blast
  then show ?thesis
  proof cases
    case 1
    with assms(3) le show ?thesis by (blast intro: mail_ok_step)
  next
    case sent
    have old: "rid \<notin> fst ` set (w_mail w)" using sendable_not_mailed [OF assms(3) sent(1)] .
    have row: "get_recipient_row rid (w_db w) = Some cr" using sent(1) by (simp add: sendable_def)
    then have "rid \<le> seqs (w_db w) TRecipients"
      using assms(2) by (auto simp: ids_ok_def get_recipient_row_def dest!: row_by_SomeD)
    moreover have "get_recipient_row rid (w_db w') = Some cr' \<Longrightarrow> cr_status cr' \<noteq> RPending" for cr'
      using row by (auto simp: sent(2) settled_recipient closing_touch)
    moreover have "mail_ok (w'\<lparr>w_mail := w_mail w\<rparr>)"
      using mail_ok_step [OF assms(3), of "w'\<lparr>w_mail := w_mail w\<rparr>"] le by simp
    ultimately show ?thesis
      using old le by (auto simp: mail_ok_def sent(3) ledger_le_def)
  qed
qed

text \<open>A task that meets no lock, no pacing and a willing provider sends.\<close>

lemma send_pace_counters:
  assumes "send_pace E now x r = Inr (p, r')" "\<forall>j s. e_clash E j = Some s \<longrightarrow> r_counters s = r_counters r"
  shows "r_counters r' = r_counters r"
  using assms(1) acquire_counters [OF _ assms(2)]
  by (auto simp: send_pace_def and_then_Inr_iff Let_def split: prod.splits if_splits)

lemma send_one_clear:
  assumes "live now (r_strings (w_redis w) (lock_key rid)) = None"
    and "send_validate now rid (w_db w) = Inr (Go x)"
    and "\<And>r. r_hashes r = r_hashes (w_redis w) \<Longrightarrow> r_counters r = r_counters (w_redis w) \<Longrightarrow>
           \<exists>r'. send_pace E now x r = Inr (Clear, r')"
    and "e_submit E (send_message_of E x) = Accepted res"
  shows "fst (send_one E now rid n w) = Returned ''sent'' \<and>
    w_mail (snd (send_one E now rid n w)) = w_mail w @ [(rid, send_message_of E x)] \<and>
    w_db (snd (send_one E now rid n w)) = settled now rid
      (\<lambda>r. r\<lparr>cr_status := RSent, cr_postal_message_id := Some (py_str (e_rep E) (sr_message_token res)),
             cr_ip_pool := Some (x_pool x)\<rparr>) (x_campaign_id x) SentCount (freq_entry x) (w_db w) \<and>
    (\<exists>r r'. r_counters r = r_counters (w_redis w) \<and> send_pace E now x r = Inr (Clear, r') \<and>
       w_redis (snd (send_one E now rid n w)) = redis_delete (lock_key rid)
         (snd (record_global_send now (snd (record_daily_send now (x_pool x) r')))))"
proof -
  obtain r where lock: "redis_set_nx now (lock_key rid) ''1'' 180 (w_redis w) = (True, r)"
    and r: "r_hashes r = r_hashes (w_redis w)" "r_counters r = r_counters (w_redis w)"
    using assms(1) by (simp add: redis_set_nx_def)
  from assms(3) [OF r] obtain r' where pace: "send_pace E now x r = Inr (Clear, r')" by blast
  from send_validate_Go [OF assms(2)] obtain cr c where "sendable rid (w_db w) cr c" by blast
  then show ?thesis using r(2) pace
    by (auto simp: send_one_def lock send_body_def assms(2) pace send_submit_def assms(4) Let_def
        send_record_sendable unlock_def split: prod.split)
qed

lemma send_pace_clear:
  assumes "\<And>k. e_clash E k = None" "x_send_rate x \<noteq> 0"
    and "\<forall>b \<in> set (build_send_buckets (e_settings E) (x_domain x) (Some (x_send_rate x))). 1 \<le> bucket_level now r b"
    and "daily_cap_usage now (x_pool x) r < per_ip_daily_cap (e_settings E)"
    and "global_sent_today now r < x_warming_cap x"
  shows "\<exists>r'. send_pace E now x r = Inr (Clear, r')"
proof -
  let ?bs = "build_send_buckets (e_settings E) (x_domain x) (Some (x_send_rate x))"
  have wf: "?bs \<noteq> []" "\<forall>b \<in> set ?bs. bucket_wf b" "\<forall>b \<in> set ?bs. b_requested b = 1"
    by (simp_all add: build_send_buckets_def) (simp add: per_minute_bucket_def Let_def)
  have clash: "e_clash E = (\<lambda>_. None)" using assms(1) by auto
  have "ar_allowed (fst (attempt now ?bs r))" using assms(3) wf(3) by (simp add: attempt_allowed)
  moreover have "r_counters (snd (attempt now ?bs r)) = r_counters r"
    by (simp add: attempt_def Let_def)
  then have "daily_cap_usage now (x_pool x) (snd (attempt now ?bs r)) = daily_cap_usage now (x_pool x) r"
    "global_sent_today now (snd (attempt now ?bs r)) = global_sent_today now r"
    by (simp_all add: daily_cap_usage_def global_sent_today_def redis_get_counter_def)
  ultimately show ?thesis
    using acquire_quiet [OF wf(1,2), of 25 now r] assms(4,5)
    by (cases "attempt now ?bs r") (simp add: send_pace_def clash is_under_daily_cap_def Let_def)
qed

section \<open>Properties\<close>

text \<open>
  C4: Every message that leaves the pipeline is lawful: it is sent for a pending recipient of a
  sending campaign whose address is not on the suppression list at that moment, goes to the
  address in the ledger, carries the one-click unsubscribe headers for that address, and its
  body holds the unsubscribe link whenever the template has the tag; the recipient is then
  marked as sent.
\<close>

theorem sent_message_lawful:
  assumes "w_mail (snd (send_one E now rid n w)) \<noteq> w_mail w"
  shows "\<exists>cr c tmpl m. sendable rid (w_db w) cr c \<and> \<not> is_suppressed_sync (w_db w) (cr_email_snapshot cr) \<and>
    template_of (w_db w) c = Some tmpl \<and> w_mail (snd (send_one E now rid n w)) = w_mail w @ [(rid, m)] \<and>
    sm_to m = cr_email_snapshot cr \<and>
    (let url = unsubscribe_url (e_dumps E) (e_settings E) (sm_to m) in
       sm_headers m = [(''List-Unsubscribe'', ''<'' @ url @ ''>''), (''List-Unsubscribe-Post'', ''List-Unsubscribe=One-Click'')] \<and>
       (has_unsubscribe (t_body tmpl) \<longrightarrow>
          (\<exists>pre post. if t_type tmpl = ''html'' then sm_html_body m = Some (pre @ e_esc E url @ post)
                      else sm_plain_body m = Some (pre @ url @ post)))) \<and>
    map_option cr_status (get_recipient_row rid (w_db (snd (send_one E now rid n w)))) = Some RSent"
proof -
  let ?w = "snd (send_one E now rid n w)"
  from send_one_effect [of E now rid w n] assms obtain cr c x token
    where sd: "sendable rid (w_db w) cr c" and go: "send_validate now rid (w_db w) = Inr (Go x)"
      and db: "w_db ?w = settled now rid (\<lambda>r. r\<lparr>cr_status := RSent, cr_postal_message_id := Some token,
                   cr_ip_pool := Some (x_pool x)\<rparr>) (cr_campaign_id cr) SentCount (freq_entry x) (w_db w)"
      and mail: "w_mail ?w = w_mail w @ [(rid, send_message_of E x)]"
    unfolding send_effect_def by blast
  from send_validate_Go [OF go] sd obtain tmpl where x: "\<not> is_suppressed_sync (w_db w) (cr_email_snapshot cr)"
      "template_of (w_db w) c = Some tmpl" "x_email x = cr_email_snapshot cr" "x_body x = t_body tmpl" "x_type x = t_type tmpl"
    by (auto simp: sendable_def)
  let ?url = "unsubscribe_url (e_dumps E) (e_settings E) (x_email x)"
  have body: "\<exists>pre post. render (e_rep E) (e_esc E) (t_body tmpl) (build_context e f l ?url cf) html =
      pre @ (if html then e_esc E ?url else ?url) @ post" if "has_unsubscribe (t_body tmpl)" for e f l cf html
    using unsubscribe_link_rendered [OF that] .
  have status: "map_option cr_status (get_recipient_row rid (w_db ?w)) = Some RSent"
    using sd by (simp add: db settled_recipient sendable_def)
  have m: "sm_to (send_message_of E x) = x_email x"
    "sm_headers (send_message_of E x) = [(''List-Unsubscribe'', ''<'' @ ?url @ ''>''),
       (''List-Unsubscribe-Post'', ''List-Unsubscribe=One-Click'')]"
    by (simp_all add: send_message_of_def Let_def)
  have link: "\<exists>pre post. if t_type tmpl = ''html'' then sm_html_body (send_message_of E x) = Some (pre @ e_esc E ?url @ post)
      else sm_plain_body (send_message_of E x) = Some (pre @ ?url @ post)" if "has_unsubscribe (t_body tmpl)"
    using body [OF that, of "x_email x" "ms_first_name (x_merge x)" "ms_last_name (x_merge x)" "ms_custom_fields (x_merge x)"
        "t_type tmpl = ''html''"]
    by (cases "t_type tmpl = ''html''") (auto simp: send_message_of_def Let_def x(4,5))
  show ?thesis
    by (rule exI [of _ cr], rule exI [of _ c], rule exI [of _ tmpl], rule exI [of _ "send_message_of E x"])
      (use sd x(1,2) mail m [unfolded x(3)] link [unfolded x(3)] status in \<open>simp add: Let_def\<close>)
qed

text \<open>A sending campaign with one pending recipient, and a provider that accepts everything.\<close>

definition demo_campaign :: campaign where
  "demo_campaign = \<lparr>c_id = 1, c_name = ''N'', c_subject = ''Hi {{ first_name }}'', c_from_name = ''F'',
     c_from_email = ''n@y.com'', c_reply_to = None, c_template_id = Some 1, c_list_id = Some 1, c_send_time = None,
     c_send_timezone = None, c_is_planner = False, c_parent_campaign_id = None, c_scheduled_at = None,
     c_status = Sending, c_ip_pool = None, c_total_recipients = 1, c_queued_count = 1, c_sent_count = 0,
     c_delivered_count = 0, c_bounced_count = 0, c_failed_count = 0, c_skipped_count = 0, c_created_at = 0\<rparr>"

definition demo_recipient :: campaign_recipient where
  "demo_recipient = \<lparr>cr_id = 1, cr_campaign_id = 1, cr_contact_id = Some 1, cr_email_snapshot = ''a@x.com'',
     cr_merge_snapshot = \<lparr>ms_first_name = Some ''Al'', ms_last_name = None, ms_custom_fields = []\<rparr>,
     cr_status = RPending, cr_postal_message_id = None, cr_ip_pool = None, cr_last_event_at = None,
     cr_error_detail = None, cr_updated_at = 0\<rparr>"

definition demo_template :: template where
  "demo_template = \<lparr>t_id = 1, t_name = ''T'', t_type = ''plain'', t_subject_default = None,
     t_body = ''Bye {{ unsubscribe_url }}'', t_updated_at = 0\<rparr>"

definition demo_world :: world where
  "demo_world = \<lparr>w_db = empty_db\<lparr>campaigns := [demo_campaign], recipients := [demo_recipient],
       templates := [demo_template], seqs := (\<lambda>_. 1)\<rparr>,
     w_redis = empty_redis, w_queue = [], w_mail = []\<rparr>"

definition demo_env :: env where
  "demo_env = \<lparr>e_settings = default_settings, e_dumps = mark_dumps, e_esc = filter (\<lambda>c. \<not> markup_char c),
     e_rep = (\<lambda>_. []),
     e_submit = (\<lambda>_. Accepted \<lparr>sr_message_token = JStr ''tok'', sr_message_id = JNull, sr_raw = JNull\<rparr>),
     e_clash = (\<lambda>_. None)\<rparr>"

lemma demo_sendable: "sendable 1 (w_db demo_world) demo_recipient demo_campaign"
  by (simp add: sendable_def demo_world_def get_recipient_row_def get_campaign_row_def demo_recipient_def demo_campaign_def)

definition demo_ctx :: send_ctx where
  "demo_ctx = \<lparr>x_email = ''a@x.com'', x_campaign_id = 1, x_freq_campaign_id = None, x_contact_id = Some 1,
     x_domain = ''x.com'', x_pool = ''default'', x_subject = ''Hi {{ first_name }}'', x_from_name = ''F'',
     x_from_email = ''n@y.com'', x_reply_to = None,
     x_merge = \<lparr>ms_first_name = Some ''Al'', ms_last_name = None, ms_custom_fields = []\<rparr>,
     x_type = ''plain'', x_body = ''Bye {{ unsubscribe_url }}'', x_warming_cap = 2000,
     x_overflow = JStr ''hard_stop'', x_send_rate = 25\<rparr>"

lemma demo_validate: "send_validate 5 1 (w_db demo_world) = Inr (Go demo_ctx)"
proof -
  have "case send_validate 5 1 (w_db demo_world) of Inr (Go x) \<Rightarrow> x = demo_ctx | _ \<Rightarrow> False" by code_simp
  then show ?thesis by (simp split: sum.splits validated.splits)
qed

lemma demo_fresh:
  assumes "r_hashes r = Map.empty" "r_counters r = Map.empty"
  shows "\<exists>r'. send_pace demo_env 5 demo_ctx r = Inr (Clear, r')"
proof (rule send_pace_clear)
  show "\<forall>b \<in> set (build_send_buckets (e_settings demo_env) (x_domain demo_ctx) (Some (x_send_rate demo_ctx))).
      1 \<le> bucket_level 5 r b"
    using assms(1) by (simp add: build_send_buckets_def demo_ctx_def bucket_level_def redis_hget_def per_minute_bucket_def Let_def
        demo_env_def default_settings_def)
qed (simp_all add: demo_env_def demo_ctx_def daily_cap_usage_def global_sent_today_def redis_get_counter_def
      default_settings_def assms)

lemma demo_sends:
  "fst (send_one demo_env 5 1 0 demo_world) = Returned ''sent'' \<and>
   w_mail (snd (send_one demo_env 5 1 0 demo_world)) = [(1, send_message_of demo_env demo_ctx)]"
proof -
  have r: "w_redis demo_world = empty_redis" "w_mail demo_world = []" by (simp_all add: demo_world_def)
  have lock: "live 5 (r_strings (w_redis demo_world) (lock_key 1)) = None" by (simp add: r empty_redis_def)
  have pace: "\<exists>r'. send_pace demo_env 5 demo_ctx x = Inr (Clear, r')"
    if "r_hashes x = r_hashes (w_redis demo_world)" "r_counters x = r_counters (w_redis demo_world)" for x
    using demo_fresh [of x] that by (simp add: r empty_redis_def)
  have acc: "e_submit demo_env (send_message_of demo_env demo_ctx) =
      Accepted \<lparr>sr_message_token = JStr ''tok'', sr_message_id = JNull, sr_raw = JNull\<rparr>"
    by (simp add: demo_env_def)
  from send_one_clear [OF lock demo_validate pace acc, of 0] show ?thesis by (simp add: r)
qed

theorem sent_message_lawful_witness:
  "\<exists>m. w_mail (snd (send_one demo_env 5 1 0 demo_world)) = [(1, m)] \<and> sm_to m = ''a@x.com''"
proof -
  have "w_mail demo_world = []" by (simp add: demo_world_def)
  with demo_sends have "w_mail (snd (send_one demo_env 5 1 0 demo_world)) \<noteq> w_mail demo_world" by simp
  from sent_message_lawful [OF this] demo_sendable show ?thesis
    by (auto simp: sendable_def demo_recipient_def demo_world_def)
qed

text \<open>
  C30: The pipeline never stalls on a recipient it may send to: when nobody holds its lock, the
  recipient is sendable and passes validation, both buckets hold a token (and no other client
  clashes with their transaction), the pool is under its daily cap and the warming cap is not
  reached, a provider that accepts the message makes the task send it, record it with the token of
  the provider, and count it: once in the campaign, once for the pool and once in the total of the day.
\<close>

theorem send_one_delivers:
  assumes "live now (r_strings (w_redis w) (lock_key rid)) = None"
    and "send_validate now rid (w_db w) = Inr (Go x)" "x_send_rate x \<noteq> 0" "\<And>k. e_clash E k = None"
    and "\<forall>b \<in> set (build_send_buckets (e_settings E) (x_domain x) (Some (x_send_rate x))). 1 \<le> bucket_level now (w_redis w) b"
    and "daily_cap_usage now (x_pool x) (w_redis w) < per_ip_daily_cap (e_settings E)"
    and "global_sent_today now (w_redis w) < x_warming_cap x"
    and "e_submit E (send_message_of E x) = Accepted res"
    and "w' = snd (send_one E now rid n w)"
  shows "fst (send_one E now rid n w) = Returned ''sent'' \<and>
    w_mail w' = w_mail w @ [(rid, send_message_of E x)] \<and>
    map_option (\<lambda>r. (cr_status r, cr_postal_message_id r)) (get_recipient_row rid (w_db w')) =
      Some (RSent, Some (py_str (e_rep E) (sr_message_token res))) \<and>
    (\<exists>c c'. get_campaign_row (x_campaign_id x) (w_db w) = Some c \<and>
       get_campaign_row (x_campaign_id x) (w_db w') = Some c' \<and> c_sent_count c' = c_sent_count c + 1) \<and>
    daily_cap_usage now (x_pool x) (w_redis w') = daily_cap_usage now (x_pool x) (w_redis w) + 1 \<and>
    global_sent_today now (w_redis w') = global_sent_today now (w_redis w) + 1"
proof -
  have pace: "\<exists>r'. send_pace E now x r = Inr (Clear, r')"
    if "r_hashes r = r_hashes (w_redis w)" "r_counters r = r_counters (w_redis w)" for r
  proof (rule send_pace_clear)
    show "\<forall>b \<in> set (build_send_buckets (e_settings E) (x_domain x) (Some (x_send_rate x))). 1 \<le> bucket_level now r b"
      using assms(5) that(1) by (simp add: bucket_level_def redis_hget_def)
  qed (use assms(3,4,6,7) that(2) in \<open>simp_all add: daily_cap_usage_def global_sent_today_def redis_get_counter_def\<close>)
  note clear = send_one_clear [OF assms(1,2) pace assms(8), of n, folded assms(9)]
  then obtain r r' where r: "r_counters r = r_counters (w_redis w)" "send_pace E now x r = Inr (Clear, r')"
    and redis: "w_redis w' = redis_delete (lock_key rid)
      (snd (record_global_send now (snd (record_daily_send now (x_pool x) r'))))" by blast
  from send_pace_counters [OF r(2)] r(1) assms(4) have "r_counters r' = r_counters (w_redis w)" by simp
  from same_counters(1,2) [OF this, of now] redis
  have counts: "daily_cap_usage now (x_pool x) (w_redis w') = daily_cap_usage now (x_pool x) (w_redis w) + 1"
    "global_sent_today now (w_redis w') = global_sent_today now (w_redis w) + 1"
    by (simp_all add: global_send_keeps pool_send_adds global_send_adds pool_send_keeps)
  from send_validate_Go [OF assms(2)] obtain cr c where sd: "sendable rid (w_db w) cr c" "x_campaign_id x = cr_campaign_id cr"
    by blast
  with clear have "\<exists>c'. get_campaign_row (x_campaign_id x) (w_db w') = Some c' \<and> c_sent_count c' = c_sent_count c + 1"
    by (auto simp: settled_campaign sendable_def Let_def)
  with sd clear counts show ?thesis by (simp add: settled_recipient sendable_def)
qed

theorem send_one_delivers_witness:
  "fst (send_one demo_env 5 1 0 demo_world) = Returned ''sent'' \<and>
   global_sent_today 5 (w_redis (snd (send_one demo_env 5 1 0 demo_world))) = 1"
proof -
  have x: "x_send_rate demo_ctx = 25" "x_warming_cap demo_ctx = 2000" "w_redis demo_world = empty_redis"
    "e_settings demo_env = default_settings"
    by (simp_all add: demo_ctx_def demo_world_def demo_env_def)
  have buckets: "\<forall>b \<in> set (build_send_buckets (e_settings demo_env) (x_domain demo_ctx) (Some (x_send_rate demo_ctx))).
      1 \<le> bucket_level 5 (w_redis demo_world) b"
    by (simp add: x build_send_buckets_def bucket_level_def redis_hget_def per_minute_bucket_def Let_def
        empty_redis_def default_settings_def)
  have none: "daily_cap_usage 5 (x_pool demo_ctx) (w_redis demo_world) = 0" "global_sent_today 5 (w_redis demo_world) = 0"
    "live 5 (r_strings (w_redis demo_world) (lock_key 1)) = None"
    by (simp_all add: x empty_redis_def daily_cap_usage_def global_sent_today_def redis_get_counter_def)
  have acc: "e_submit demo_env (send_message_of demo_env demo_ctx) =
      Accepted \<lparr>sr_message_token = JStr ''tok'', sr_message_id = JNull, sr_raw = JNull\<rparr>"
    by (simp add: demo_env_def)
  show ?thesis
    using send_one_delivers [OF none(3) demo_validate _ _ buckets _ _ acc refl, of 0] none(1,2)
    by (simp add: x) (simp add: demo_env_def default_settings_def)
qed

text \<open>
  C11: Recipients are conserved: whatever a send task does (send, skip, fail, defer, raise), each
  recipient of a campaign stays counted exactly once, as pending, sent, failed or skipped.
\<close>

theorem recipients_conserved:
  assumes "balanced (w_db w) cid" "distinct (map cr_id (recipients (w_db w)))"
  shows "balanced (w_db (snd (send_one E now rid n w))) cid"
  using send_effect_balanced [OF send_one_effect assms(2,1)] .

theorem recipients_conserved_witness:
  "balanced (w_db (snd (send_one demo_env 5 1 0 demo_world))) 1"
  by (rule recipients_conserved)
     (simp_all add: balanced_def demo_world_def demo_campaign_def demo_recipient_def get_campaign_row_def
        pending_count_def pending_row_def)

text \<open>
  Every send task either leaves the number of pending recipients of its campaign alone or
  lowers it by exactly one, and the task that closes the last one completes the campaign: the
  ledger can only run down, and a campaign with nothing left to send does not stay sending.
\<close>

theorem send_one_progress:
  assumes "distinct (map cr_id (recipients (w_db w)))" "sendable rid (w_db w) cr c"
  shows "let d = w_db w; d' = w_db (snd (send_one E now rid n w)); cid = cr_campaign_id cr in
    d' = d \<or>
    pending_count d' cid = pending_count d cid - 1 \<and>
    map_option c_status (get_campaign_row cid d') = Some (if pending_count d' cid = 0 then Completed else Sending)"
proof -
  let ?d' = "w_db (snd (send_one E now rid n w))"
  have row: "get_campaign_row (cr_campaign_id cr) (w_db w) = Some c" "c_status c = Sending"
    using assms(2) by (simp_all add: sendable_def)
  from send_effect_db [OF send_one_effect [of E now rid w n]] show ?thesis
  proof (elim disjE exE conjE)
    fix cr' c' f k fq
    assume "sendable rid (w_db w) cr' c'" "closing f"
      and db: "?d' = settled now rid f (cr_campaign_id cr') k fq (w_db w)"
    moreover from this assms(2) have "cr' = cr" by (simp add: sendable_def)
    ultimately show ?thesis
      using settled_counts(1) [OF assms(2) _ assms(1), where now = now and k = k and fq = fq and f = f and i = "cr_campaign_id cr"] row
      by (auto simp: settled_campaign Let_def)
  qed simp
qed

theorem send_one_progress_witness:
  "map_option c_status (get_campaign_row 1 (w_db (snd (send_one demo_env 5 1 0 demo_world)))) \<in> {Some Sending, Some Completed}"
proof -
  have "distinct (map cr_id (recipients (w_db demo_world)))" by (simp add: demo_world_def)
  from send_one_progress [OF this demo_sendable, of demo_env 5 0] demo_sendable show ?thesis
    by (auto simp: Let_def demo_recipient_def sendable_def split: if_splits)
qed

section \<open>Properties of materialization\<close>



lemma recount_campaign:
  "get_campaign_row i (recount cid d) =
     (if i = cid
      then map_option (\<lambda>c. c\<lparr>c_total_recipients := count_rows (\<lambda>r. cr_campaign_id r = cid) (recipients d),
             c_skipped_count := count_rows (\<lambda>r. cr_campaign_id r = cid) (recipients d) - pending_count d cid,
             c_queued_count := pending_count d cid\<rparr>) (get_campaign_row i d)
      else get_campaign_row i d)"
  by (simp add: recount_def Let_def get_upd_campaign_row)

lemma recount_frame [frame, simp]:
  "recipients (recount cid d) = recipients d" "contacts (recount cid d) = contacts d"
  "suppressions (recount cid d) = suppressions d" "campaign_lists (recount cid d) = campaign_lists d"
  "contact_sends (recount cid d) = contact_sends d" "app_settings (recount cid d) = app_settings d"
  "seqs (recount cid d) = seqs d" "placements (recount cid d) = placements d" "templates (recount cid d) = templates d"
  by (simp_all add: recount_def Let_def)

lemma pending_count_cong: "recipients d' = recipients d \<Longrightarrow> pending_count d' = pending_count d"
  by (simp add: pending_count_def fun_eq_iff)

lemma recount_balanced:
  assumes "get_campaign_row cid d = Some c"
  shows "balanced (recount cid d) cid \<longleftrightarrow> c_sent_count c + c_failed_count c = 0"
  using pending_count_cong [of "recount cid d" d] assms by (auto simp: balanced_def recount_campaign)

text \<open>
  C12: Materializing a sending campaign gives every active contact of its lists that has no row
  yet exactly one row: skipped when its address is suppressed, skipped when the frequency rule
  blocks it, pending otherwise; rows that were there stay as they are.
\<close>

theorem materialize_exact:
  assumes "get_campaign_row cid d = Some c" "c_status c = Sending" "campaign_list_ids_sync d cid \<noteq> []"
    and "ineligible_of now d c = Inr inel" "distinct (map ct_id (contacts d))"
  shows "\<exists>n d'. materialize_db now cid d = Inr (MatDone n, d') \<and>
    map ledger_entry (recipients d') = map ledger_entry (recipients d) @
      map (new_entry d cid inel)
        (filter (\<lambda>ct. Some (ct_id ct) \<notin> existing_contacts d cid)
          (sendable_contacts d (campaign_list_ids_sync d cid)))"
  using assms by (rule materialize_ledger)

text \<open>A sending campaign over one list of three contacts, one of them suppressed.\<close>

definition listed :: "id \<Rightarrow> string \<Rightarrow> contact" where
  "listed i e = \<lparr>ct_id = i, ct_email = e, ct_first_name = None, ct_last_name = None, ct_custom_fields = [],
     ct_status = Active, ct_verification_result = Valid, ct_list_id = Some 1\<rparr>"

definition listed_db :: db where
  "listed_db = empty_db\<lparr>campaigns := [demo_campaign], templates := [demo_template],
     contacts := [listed 1 ''a@x.com'', listed 2 ''b@x.com'', listed 3 ''c@x.com''],
     suppressions := [\<lparr>s_id = 1, s_email = ''b@x.com'', s_reason = Manual, s_detail = None\<rparr>]\<rparr>"

lemma listed_facts:
  "get_campaign_row 1 listed_db = Some demo_campaign" "c_status demo_campaign = Sending"
  "campaign_list_ids_sync listed_db 1 = [1]" "ineligible_of now listed_db demo_campaign = Inr {}"
  "distinct (map ct_id (contacts listed_db))" "existing_contacts listed_db 1 = {}"
proof -
  show row: "get_campaign_row 1 listed_db = Some demo_campaign"
    by (simp add: get_campaign_row_def listed_db_def demo_campaign_def)
  then show "campaign_list_ids_sync listed_db 1 = [1]"
    by (simp add: campaign_list_ids_sync_def get_campaign_list_ids_def) (simp add: listed_db_def empty_db_def demo_campaign_def)
qed (simp_all add: listed_db_def demo_campaign_def ineligible_of_def listed_def existing_contacts_def empty_db_def)

theorem materialize_exact_witness:
  "\<exists>n d'. materialize_db 9 1 listed_db = Inr (MatDone n, d') \<and>
     map (\<lambda>r. (cr_email_snapshot r, cr_status r)) (recipients d') =
       [(''a@x.com'', RPending), (''b@x.com'', RSkippedSuppressed), (''c@x.com'', RPending)]"
proof -
  have send: "sendable_contacts listed_db [1] = contacts listed_db" "recipients listed_db = []"
    by (simp_all add: sendable_contacts_def listed_db_def listed_def empty_db_def)
  have "\<exists>n d'. materialize_db 9 1 listed_db = Inr (MatDone n, d') \<and>
      map ledger_entry (recipients d') = map (new_entry listed_db 1 {}) (contacts listed_db)"
    using materialize_exact [OF listed_facts(1,2) _ listed_facts(4,5), of 9]
    by (simp add: listed_facts(3,6) send filter_True)
  then obtain n d' where m: "materialize_db 9 1 listed_db = Inr (MatDone n, d')"
    and l: "map ledger_entry (recipients d') = map (new_entry listed_db 1 {}) (contacts listed_db)" by blast
  have "map (\<lambda>r. (cr_email_snapshot r, cr_status r)) (recipients d') = map (snd \<circ> snd) (map ledger_entry (recipients d'))"
    by (simp add: ledger_entry_def)
  also have "\<dots> = [(''a@x.com'', RPending), (''b@x.com'', RSkippedSuppressed), (''c@x.com'', RPending)]"
    unfolding l by (simp add: listed_db_def listed_def new_entry_def suppressed_set_def)
  finally have e: "map (\<lambda>r. (cr_email_snapshot r, cr_status r)) (recipients d') =
      [(''a@x.com'', RPending), (''b@x.com'', RSkippedSuppressed), (''c@x.com'', RPending)]" .
  show ?thesis by (rule exI [of _ n], rule exI [of _ d'], rule conjI [OF m e])
qed

lemma materialize_done:
  assumes "materialize_db now cid d = Inr (MatDone n, d')"
  shows "\<exists>c inel. get_campaign_row cid d = Some c \<and> c_status c = Sending \<and> campaign_list_ids_sync d cid \<noteq> [] \<and>
    ineligible_of now d c = Inr inel \<and>
    d' = recount cid (snd (add_rows now c inel (contact_join d (campaign_list_ids_sync d cid)) (existing_contacts d cid)
      \<lparr>n_created = 0, n_skipped = 0, n_freq_skipped = 0\<rparr> d))"
  using assms
  by (auto simp: materialize_db_def and_then_Inr_iff Let_def case_prod_beta' split: option.splits if_splits)

lemma materialize_campaigns:
  assumes "materialize_db now cid d = Inr (MatDone n, d')"
  shows "\<exists>d1. campaigns d1 = campaigns d \<and> contacts d1 = contacts d \<and> suppressions d1 = suppressions d \<and>
    campaign_lists d1 = campaign_lists d \<and> d' = recount cid d1"
proof -
  from materialize_done [OF assms] obtain c inel where "d' = recount cid (snd (add_rows now c inel (contact_join d (campaign_list_ids_sync d cid)) (existing_contacts d cid)
      \<lparr>n_created = 0, n_skipped = 0, n_freq_skipped = 0\<rparr> d))" by blast
  then show ?thesis by (intro exI conjI) simp_all
qed


lemma listed_materialized: "\<exists>n d'. materialize_db now 1 listed_db = Inr (MatDone n, d')"
  using materialize_ledger [OF listed_facts(1,2) _ listed_facts(4,5), of now] by (simp add: listed_facts(3)) blast


text \<open>
  The first materialization of a campaign leaves its counters balanced: every recipient is
  pending or counted as skipped.
\<close>

theorem materialize_balances:
  assumes "materialize_db now cid d = Inr (MatDone n, d')" "get_campaign_row cid d = Some c"
    and "c_sent_count c = 0" "c_failed_count c = 0"
  shows "balanced d' cid"
proof -
  from materialize_campaigns [OF assms(1)] obtain d1 where "campaigns d1 = campaigns d" and d': "d' = recount cid d1"
    by blast
  then have "get_campaign_row cid d1 = Some c" using assms(2) by (simp add: get_campaign_row_def)
  from recount_balanced [OF this] assms(3,4) show ?thesis by (simp add: d')
qed

theorem materialize_balances_witness:
  "\<exists>n d'. materialize_db 0 1 listed_db = Inr (MatDone n, d') \<and> balanced d' 1"
  using listed_materialized [of 0] materialize_balances [OF _ listed_facts(1)] by (auto simp: demo_campaign_def)

text \<open>
  Materializing again after messages went out, as a resume does, counts every sent and failed
  recipient as skipped too: the counters no longer add up.
\<close>

lemma resume_unbalances:
  assumes "materialize_db now cid d = Inr (MatDone n, d')" "get_campaign_row cid d = Some c"
    and "0 \<le> c_sent_count c" "0 \<le> c_failed_count c" "0 < c_sent_count c + c_failed_count c"
  shows "\<not> balanced d' cid"
proof -
  from materialize_campaigns [OF assms(1)] obtain d1 where "campaigns d1 = campaigns d" and d': "d' = recount cid d1"
    by blast
  then have "get_campaign_row cid d1 = Some c" using assms(2) by (simp add: get_campaign_row_def)
  from recount_balanced [OF this] assms(5) show ?thesis by (simp add: d')
qed

end
