(* ===== verification/Scheduler.thy ===== *)
theory Scheduler
  imports Sending "HOL-Library.Multiset"
begin

text \<open>
  The tasks of Celery Beat over campaigns (\<open>app/tasks/scheduler.py\<close>): dispatching the due
  campaigns, and finalizing or re-pumping the ones that are sending.
\<close>

section \<open>Operations\<close>

definition due :: "instant \<Rightarrow> campaign \<Rightarrow> bool" where
  "due now c =
     (c_status c = Scheduled \<and> (case c_scheduled_at c of None \<Rightarrow> False | Some t \<Rightarrow> t \<le> now))"

definition dispatch_due_campaigns :: "instant \<Rightarrow> world \<Rightarrow> id list \<times> world" where
  "dispatch_due_campaigns now w =
     (let ids = map c_id (filter (due now) (campaigns (w_db w)));
          d = (w_db w)\<lparr>campaigns := map (\<lambda>c. if due now c then c\<lparr>c_status := Sending\<rparr> else c) (campaigns (w_db w))\<rparr>
      in (ids, w\<lparr>w_db := d, w_queue := w_queue w @ map (\<lambda>i. (now, MaterializeTask i)) ids\<rparr>))"

definition stall_after :: int where
  "stall_after = minutes 15"

definition last_activity :: "db \<Rightarrow> id \<Rightarrow> instant option" where
  "last_activity d cid =
     (case map cr_updated_at (filter (\<lambda>r. cr_campaign_id r = cid) (recipients d)) of
        [] \<Rightarrow> None | t # ts \<Rightarrow> Some (fold max ts t))"

definition repump_key :: "id \<Rightarrow> string" where
  "repump_key cid = ''repump:'' @ show_int cid"

definition repump_one :: "instant \<Rightarrow> id \<Rightarrow> (id list \<times> id list) \<times> world \<Rightarrow> (id list \<times> id list) \<times> world" where
  "repump_one now cid acc =
     (case acc of ((finalized, repumped), w) \<Rightarrow>
        if pending_count (w_db w) cid = 0 then
          (case get_campaign_row cid (w_db w) of
             None \<Rightarrow> acc
           | Some c \<Rightarrow>
               if c_status c = Sending
               then ((finalized @ [cid], repumped),
                     w\<lparr>w_db := upd_campaign cid (\<lambda>c. c\<lparr>c_status := Completed\<rparr>) (w_db w)\<rparr>)
               else acc)
        else
          let stalled = (case last_activity (w_db w) cid of None \<Rightarrow> True | Some t \<Rightarrow> t < now - stall_after) in
          if stalled then
            (case redis_set_nx now (repump_key cid) ''1'' 900 (w_redis w) of
               (True, r) \<Rightarrow> ((finalized, repumped @ [cid]), enqueue_pending now cid (w\<lparr>w_redis := r\<rparr>))
             | (False, _) \<Rightarrow> acc)
          else acc)"

definition finalize_and_repump :: "instant \<Rightarrow> world \<Rightarrow> (id list \<times> id list) \<times> world" where
  "finalize_and_repump now w =
     (let sending_ids = map c_id (filter (\<lambda>c. c_status c = Sending) (campaigns (w_db w)))
      in fold (repump_one now) sending_ids (([], []), w))"

section \<open>Lemmas\<close>

lemma dispatch_campaign:
  "get_campaign_row i (w_db (snd (dispatch_due_campaigns now w))) =
     map_option (\<lambda>c. if due now c then c\<lparr>c_status := Sending\<rparr> else c) (get_campaign_row i (w_db w))"
proof -
  have "row_by c_id i (map (\<lambda>c. if due now c then c\<lparr>c_status := Sending\<rparr> else c) rows) =
      map_option (\<lambda>c. if due now c then c\<lparr>c_status := Sending\<rparr> else c) (row_by c_id i rows)" for rows
    by (induction rows) auto
  then show ?thesis by (simp add: dispatch_due_campaigns_def get_campaign_row_def Let_def)
qed

lemma dispatch_frame [frame, simp]:
  "recipients (w_db (snd (dispatch_due_campaigns now w))) = recipients (w_db w)"
  "suppressions (w_db (snd (dispatch_due_campaigns now w))) = suppressions (w_db w)"
  "seqs (w_db (snd (dispatch_due_campaigns now w))) = seqs (w_db w)"
  "w_mail (snd (dispatch_due_campaigns now w)) = w_mail w"
  "w_redis (snd (dispatch_due_campaigns now w)) = w_redis w"
  by (simp_all add: dispatch_due_campaigns_def Let_def)

lemma repump_one_frame:
  assumes "repump_one now cid (acc, w) = (acc', w')"
  shows "recipients (w_db w') = recipients (w_db w)" "suppressions (w_db w') = suppressions (w_db w)"
    "seqs (w_db w') = seqs (w_db w)" "w_mail w' = w_mail w"
  using assms
  by (auto simp: repump_one_def enqueue_pending_def Let_def split: prod.splits if_splits option.splits bool.splits)

lemma repump_fold_frame:
  "recipients (w_db (snd (fold (repump_one now) ids aw))) = recipients (w_db (snd aw)) \<and>
   suppressions (w_db (snd (fold (repump_one now) ids aw))) = suppressions (w_db (snd aw)) \<and>
   seqs (w_db (snd (fold (repump_one now) ids aw))) = seqs (w_db (snd aw)) \<and>
   w_mail (snd (fold (repump_one now) ids aw)) = w_mail (snd aw)"
proof (induction ids arbitrary: aw)
  case (Cons i ids)
  obtain acc w acc' w' where "aw = (acc, w)" "repump_one now i (acc, w) = (acc', w')"
    by (metis surj_pair)
  with Cons.IH [of "(acc', w')"] repump_one_frame [of now i acc w acc' w'] show ?case by simp
qed simp

lemma finalize_frame [frame, simp]:
  "recipients (w_db (snd (finalize_and_repump now w))) = recipients (w_db w)"
  "suppressions (w_db (snd (finalize_and_repump now w))) = suppressions (w_db w)"
  "seqs (w_db (snd (finalize_and_repump now w))) = seqs (w_db w)"
  "w_mail (snd (finalize_and_repump now w)) = w_mail w"
  using repump_fold_frame [of now _ "(([], []), w)"] by (simp_all add: finalize_and_repump_def Let_def)

text \<open>
  After a pass every campaign that was sending and has nothing pending is completed, and the
  others keep their status.
\<close>

lemma repump_one_status:
  "map_option c_status (get_campaign_row i (w_db (snd (repump_one now cid aw)))) =
     map_option (\<lambda>c. if i = cid \<and> pending_count (w_db (snd aw)) cid = 0 \<and> c_status c = Sending
                     then Completed else c_status c) (get_campaign_row i (w_db (snd aw)))"
proof -
  obtain f r w where aw: "aw = ((f, r), w)" by (metis surj_pair)
  show ?thesis
  proof (cases "pending_count (w_db w) cid = 0")
    case True
    then show ?thesis
      by (cases "get_campaign_row cid (w_db w)"; cases "get_campaign_row i (w_db w)")
         (auto simp: aw repump_one_def get_upd_campaign_row)
  next
    case False
    have "w_db (snd (repump_one now cid aw)) = w_db w"
      using False
      by (auto simp: aw repump_one_def enqueue_pending_def Let_def split: prod.splits bool.splits)
    with False show ?thesis by (cases "get_campaign_row i (w_db w)") (simp_all add: aw)
  qed
qed

lemma repump_fold_status:
  "map_option c_status (get_campaign_row i (w_db (snd (fold (repump_one now) ids aw)))) =
     map_option (\<lambda>c. if i \<in> set ids \<and> pending_count (w_db (snd aw)) i = 0 \<and> c_status c = Sending
                     then Completed else c_status c) (get_campaign_row i (w_db (snd aw)))"
proof (induction ids arbitrary: aw)
  case Nil
  then show ?case by (cases "get_campaign_row i (w_db (snd aw))") simp_all
next
  case (Cons j ids)
  have pend: "pending_count (w_db (snd (repump_one now j aw))) i = pending_count (w_db (snd aw)) i"
    using repump_fold_frame [of now "[j]" aw] by (simp add: pending_count_def)
  show ?case
    using Cons.IH [of "repump_one now j aw"] repump_one_status [of i now j aw]
    by (cases "get_campaign_row i (w_db (snd aw))";
        cases "get_campaign_row i (w_db (snd (repump_one now j aw)))")
       (auto simp: pend split: if_splits)
qed

lemma finalize_status:
  assumes "get_campaign_row i (w_db w) = Some c"
  shows "map_option c_status (get_campaign_row i (w_db (snd (finalize_and_repump now w)))) =
    Some (if pending_count (w_db w) i = 0 \<and> c_status c = Sending then Completed else c_status c)"
proof -
  have "c \<in> set (campaigns (w_db w))" "c_id c = i"
    using assms by (auto simp: get_campaign_row_def dest: row_by_SomeD)
  then show ?thesis
    using repump_fold_status [of i now "map c_id (filter (\<lambda>c. c_status c = Sending) (campaigns (w_db w)))"
        "(([], []), w)"] assms
    by (auto simp: finalize_and_repump_def Let_def)
qed

text \<open>A pass enqueues only recipients that are pending.\<close>

lemma enqueue_pending_queue:
  "(t, SendTask i n) \<in> set (w_queue (enqueue_pending now cid w)) \<Longrightarrow>
   (t, SendTask i n) \<in> set (w_queue w) \<or>
   (\<exists>r \<in> set (recipients (w_db w)). cr_id r = i \<and> cr_campaign_id r = cid \<and> cr_status r = RPending)"
  by (auto simp: enqueue_pending_def pending_ids_def pending_row_def)

section \<open>Properties\<close>

text \<open>The passes of the dispatch task at the given instants, and the campaigns they start.\<close>

fun dispatches :: "instant list \<Rightarrow> world \<Rightarrow> id list \<times> world" where
  "dispatches [] w = ([], w)"
| "dispatches (t # ts) w =
     (case dispatch_due_campaigns t w of (ids, w1) \<Rightarrow>
        case dispatches ts w1 of (rest_ids, w2) \<Rightarrow> (ids @ rest_ids, w2))"

definition comes_due :: "instant set \<Rightarrow> campaign \<Rightarrow> bool" where
  "comes_due ts c \<longleftrightarrow> c_status c = Scheduled \<and> (\<exists>t s. t \<in> ts \<and> c_scheduled_at c = Some s \<and> s \<le> t)"

definition start_if :: "(campaign \<Rightarrow> bool) \<Rightarrow> campaign \<Rightarrow> campaign" where
  "start_if P c = (if P c then c\<lparr>c_status := Sending\<rparr> else c)"

lemma comes_due_insert: "comes_due (insert t ts) c \<longleftrightarrow> due t c \<or> comes_due ts c"
  by (auto simp: comes_due_def due_def split: option.splits)

lemma comes_due_started: "comes_due ts (start_if (due t) c) \<longleftrightarrow> \<not> due t c \<and> comes_due ts c"
  by (simp add: start_if_def comes_due_def)

lemma start_twice: "start_if (comes_due ts) (start_if (due t) c) = start_if (comes_due (insert t ts)) c"
  by (simp add: start_if_def [of "comes_due _"] comes_due_started comes_due_insert) (simp add: start_if_def)

lemma start_if_id [simp]: "c_id (start_if P c) = c_id c"
  by (simp add: start_if_def)

lemma started_once:
  "mset (map c_id (filter (due t) cs)) + mset (map c_id (filter (comes_due ts) (map (start_if (due t)) cs))) =
   mset (map c_id (filter (comes_due (insert t ts)) cs))"
  by (induction cs) (auto simp: comes_due_insert comes_due_started)

lemma dispatch_effect:
  "dispatch_due_campaigns t w = (ids, w') \<Longrightarrow>
     ids = map c_id (filter (due t) (campaigns (w_db w))) \<and>
     campaigns (w_db w') = map (start_if (due t)) (campaigns (w_db w)) \<and>
     w_queue w' = w_queue w @ map (\<lambda>i. (t, MaterializeTask i)) ids"
  by (auto simp: dispatch_due_campaigns_def start_if_def Let_def)

lemma dispatches_effect:
  "dispatches ts w = (ids, w') \<Longrightarrow>
     mset ids = mset (map c_id (filter (comes_due (set ts)) (campaigns (w_db w)))) \<and>
     campaigns (w_db w') = map (start_if (comes_due (set ts))) (campaigns (w_db w)) \<and>
     (\<exists>tasks. w_queue w' = w_queue w @ tasks \<and> map snd tasks = map MaterializeTask ids \<and> fst ` set tasks \<subseteq> set ts)"
proof (induction ts arbitrary: w ids)
  case Nil
  then show ?case by (simp add: comes_due_def start_if_def)
next
  case (Cons t ts)
  obtain now w1 where one: "dispatch_due_campaigns t w = (now, w1)" by force
  with Cons.prems obtain rest_ids where rest: "dispatches ts w1 = (rest_ids, w')" and ids: "ids = now @ rest_ids"
    by (auto split: prod.splits)
  note first = dispatch_effect [OF one]
  from Cons.IH [OF rest] obtain tasks where tasks: "w_queue w' = w_queue w1 @ tasks"
    "map snd tasks = map MaterializeTask rest_ids" "fst ` set tasks \<subseteq> set ts" by blast
  then have "\<exists>all. w_queue w' = w_queue w @ all \<and> map snd all = map MaterializeTask ids \<and> fst ` set all \<subseteq> set (t # ts)"
    using first by (intro exI [of _ "map (\<lambda>i. (t, MaterializeTask i)) now @ tasks"]) (auto simp: ids)
  moreover have "mset ids = mset (map c_id (filter (comes_due (set (t # ts))) (campaigns (w_db w))))"
    using first Cons.IH [OF rest] started_once [of t "campaigns (w_db w)" "set ts"] by (simp add: ids)
  ultimately show ?case
    using first Cons.IH [OF rest] by (simp add: start_twice comp_def)
qed

text \<open>
  C37: A due campaign is started exactly once, however many passes of the dispatch task there are and
  whenever they run: the campaigns that were scheduled and whose time is reached at some pass, and no
  others, end as sending and are otherwise unchanged; each is reported by one pass only, and one
  materialization task is queued for it over all the passes.
\<close>

theorem dispatch_exactly_once:
  assumes "dispatches ts w = (ids, w')"
  shows "mset ids = mset (map c_id (filter (\<lambda>c. c_status c = Scheduled \<and>
      (\<exists>t s. t \<in> set ts \<and> c_scheduled_at c = Some s \<and> s \<le> t)) (campaigns (w_db w)))) \<and>
    campaigns (w_db w') = map (\<lambda>c. if c_status c = Scheduled \<and>
      (\<exists>t s. t \<in> set ts \<and> c_scheduled_at c = Some s \<and> s \<le> t) then c\<lparr>c_status := Sending\<rparr> else c) (campaigns (w_db w)) \<and>
    (\<exists>tasks. w_queue w' = w_queue w @ tasks \<and> map snd tasks = map MaterializeTask ids \<and> fst ` set tasks \<subseteq> set ts)"
  using dispatches_effect [OF assms] unfolding comes_due_def [abs_def] start_if_def [abs_def] .

text \<open>A campaign scheduled for the instant 4, and passes before, at and after it.\<close>

definition waiting_world :: world where
  "waiting_world = \<lparr>w_db = empty_db\<lparr>campaigns :=
       [demo_campaign\<lparr>c_status := Scheduled, c_scheduled_at := Some 4\<rparr>]\<rparr>,
     w_redis = empty_redis, w_queue = [], w_mail = []\<rparr>"

theorem dispatch_exactly_once_witness:
  "\<exists>w'. dispatches [3, 4, 9] waiting_world = ([1], w') \<and> map c_status (campaigns (w_db w')) = [Sending]"
proof -
  obtain ids w' where run: "dispatches [3, 4, 9] waiting_world = (ids, w')" by force
  have cs: "campaigns (w_db waiting_world) = [demo_campaign\<lparr>c_status := Scheduled, c_scheduled_at := Some 4\<rparr>]"
    by (simp add: waiting_world_def)
  have hit: "\<exists>t. (t = 3 \<or> t = 4 \<or> t = 9) \<and> (4::int) \<le> t" by presburger
  note effect = dispatch_exactly_once [OF run]
  have "ids = [1]" using conjunct1 [OF effect] by (simp add: cs hit) (simp add: demo_campaign_def)
  moreover have "map c_status (campaigns (w_db w')) = [Sending]"
    using conjunct1 [OF conjunct2 [OF effect]] by (simp add: cs hit)
  ultimately show ?thesis using run by (intro exI [of _ w'] conjI) (simp_all only:)
qed

text \<open>
  A pass of the recovery task completes exactly the sending campaigns with nothing pending
  and leaves every other status, every recipient and every sent message as it was.
\<close>

theorem recovery_finalizes:
  assumes "get_campaign_row i (w_db w) = Some c"
  shows "map_option c_status (get_campaign_row i (w_db (snd (finalize_and_repump now w)))) =
      Some (if pending_count (w_db w) i = 0 \<and> c_status c = Sending then Completed else c_status c) \<and>
    recipients (w_db (snd (finalize_and_repump now w))) = recipients (w_db w) \<and>
    w_mail (snd (finalize_and_repump now w)) = w_mail w"
  using finalize_status [OF assms] by simp

text \<open>A campaign whose last recipient was closed without completing it, for the witness.\<close>

definition stuck_world :: world where
  "stuck_world = \<lparr>w_db = empty_db\<lparr>campaigns :=
       [\<lparr>c_id = 1, c_name = [], c_subject = [], c_from_name = [], c_from_email = [], c_reply_to = None,
         c_template_id = None, c_list_id = None, c_send_time = None, c_send_timezone = None,
         c_is_planner = False, c_parent_campaign_id = None, c_scheduled_at = None, c_status = Sending,
         c_ip_pool = None, c_total_recipients = 1, c_queued_count = 0, c_sent_count = 1,
         c_delivered_count = 0, c_bounced_count = 0, c_failed_count = 0, c_skipped_count = 0, c_created_at = 0\<rparr>]\<rparr>,
     w_redis = empty_redis, w_queue = [], w_mail = []\<rparr>"

theorem recovery_finalizes_witness:
  "map_option c_status (get_campaign_row 1 (w_db (snd (finalize_and_repump 9 stuck_world)))) = Some Completed"
proof -
  have row: "get_campaign_row 1 (w_db stuck_world) = Some (hd (campaigns (w_db stuck_world)))"
    by (simp add: stuck_world_def get_campaign_row_def)
  from recovery_finalizes [OF row, of 9] show ?thesis
    by (simp add: pending_count_def stuck_world_def empty_db_def)
qed

end
