(* ===== verification/Drain.thy ===== *)
theory Drain
  imports Sending
begin

text \<open>
  How a campaign runs down: which results of \<open>send_one\<close> close a recipient, and that a campaign is
  completed by as many of them as it has pending recipients, whatever else its tasks return
  (deferred, locked, retried) and in whatever order they run.
\<close>

section \<open>The results that close a recipient\<close>

definition closes :: "task_result \<Rightarrow> bool" where
  "closes r = (case r of Returned s \<Rightarrow> s \<in> {''sent'', ''failed'', ''suppressed'', ''warming-cap'', ''no-template''} | _ \<Rightarrow> False)"

lemma closes_simps [simp]:
  "closes (Returned s) \<longleftrightarrow> s \<in> {''sent'', ''failed'', ''suppressed'', ''warming-cap'', ''no-template''}"
  "\<not> closes (Retried k)" "\<not> closes (Raised e)"
  by (simp_all add: closes_def)

text \<open>A run closes its recipient exactly when its result says so.\<close>

definition run_effect :: "id \<Rightarrow> db \<Rightarrow> task_result \<Rightarrow> db \<Rightarrow> bool" where
  "run_effect rid d res d' \<longleftrightarrow>
     (if closes res
      then \<exists>cr c now f k fq. sendable rid d cr c \<and> closing f \<and> d' = settled now rid f (cr_campaign_id cr) k fq d
      else d' = d)"

lemma run_effect_same: "\<not> closes res \<Longrightarrow> run_effect rid d res d"
  by (simp add: run_effect_def)

lemma run_effect_settled:
  "closes res \<Longrightarrow> sendable rid d cr c \<Longrightarrow> closing f \<Longrightarrow> run_effect rid d res (settled now rid f (cr_campaign_id cr) k fq d)"
  by (simp add: run_effect_def del: closes_simps) blast

lemma status_value_not_closing: "\<not> closes (Returned (''campaign-'' @ s))"
  by simp

lemma stop_effect:
  assumes "send_validate now rid d = Inr (Stop s d')"
  shows "run_effect rid d (Returned s) d'"
proof -
  let ?sup = "\<lambda>r. r\<lparr>cr_status := RSkippedSuppressed\<rparr>"
    and ?tmpl = "\<lambda>r. r\<lparr>cr_status := RFailed, cr_error_detail := Some ''campaign has no template''\<rparr>"
  have close: "run_effect rid d res (close_recipient now rid f (cr_campaign_id cr) k d)"
    if "closes res" "sendable rid d cr c" "closing f" for res cr c f k
    using run_effect_settled [OF that, of now k None] by (simp add: settled_None)
  have "closing ?sup" "closing ?tmpl" by simp_all
  with assms close [of "Returned ''suppressed''" _ _ ?sup SkippedCount] close [of "Returned ''no-template''" _ _ ?tmpl FailedCount]
  show ?thesis
    by (auto simp: send_validate_def sendable_def and_then_Inr_iff Let_def run_effect_same dest: get_campaign_id'
        split: option.splits if_splits)
qed

lemma later_defers: "send_pace E now x r = Inr (Later s k, r') \<Longrightarrow> \<not> closes (Returned s)"
  by (auto simp: send_pace_def and_then_Inr_iff Let_def split: if_splits)

lemma submit_effect:
  assumes "send_validate now rid (w_db w) = Inr (Go x)"
  shows "run_effect rid (w_db w) (fst (send_submit E now rid n x w)) (w_db (snd (send_submit E now rid n x w)))"
proof -
  from send_validate_Go [OF assms] obtain cr c where sd: "sendable rid (w_db w) cr c"
    and x: "x_campaign_id x = cr_campaign_id cr" by blast
  show ?thesis
  proof (cases "e_submit E (send_message_of E x)")
    case (Accepted res)
    let ?f = "\<lambda>r. r\<lparr>cr_status := RSent, cr_postal_message_id := Some (py_str (e_rep E) (sr_message_token res)),
                    cr_ip_pool := Some (x_pool x)\<rparr>"
    have "run_effect rid (w_db w) (Returned ''sent'')
        (settled now rid ?f (cr_campaign_id cr) SentCount (freq_entry x) (w_db w))"
      by (rule run_effect_settled [OF _ sd]) simp_all
    with send_record_sendable [OF sd, of E now x "sr_message_token res"] show ?thesis
      by (simp add: send_submit_def Accepted x Let_def)
  next
    case (Transient exc)
    then show ?thesis by (simp add: send_submit_def send_transient_def Let_def run_effect_same)
  next
    case (Permanent exc)
    let ?f = "\<lambda>r. r\<lparr>cr_status := RFailed, cr_error_detail := Some (''permanent: '' @ exc)\<rparr>"
    have "run_effect rid (w_db w) (Returned ''failed'') (settled now rid ?f (cr_campaign_id cr) FailedCount None (w_db w))"
      by (rule run_effect_settled [OF _ sd]) simp_all
    then show ?thesis by (simp add: send_submit_def Permanent x close_if_pending_sendable [OF sd] Let_def)
  next
    case (Crashed e)
    then show ?thesis by (simp add: send_submit_def Let_def run_effect_same)
  qed
qed

lemma body_effect: "run_effect rid (w_db w) (fst (send_body E now rid n w)) (w_db (snd (send_body E now rid n w)))"
proof (cases "send_validate now rid (w_db w)")
  case (Inl e)
  then show ?thesis by (simp add: send_body_def run_effect_same)
next
  case (Inr v)
  show ?thesis
  proof (cases v)
    case (Stop s d)
    with Inr stop_effect show ?thesis by (simp add: send_body_def)
  next
    case (Go x)
    with Inr have go: "send_validate now rid (w_db w) = Inr (Go x)" by simp
    from send_validate_Go [OF this] obtain cr c where sd: "sendable rid (w_db w) cr c"
      and x: "x_campaign_id x = cr_campaign_id cr" by blast
    show ?thesis
    proof (cases "send_pace E now x (w_redis w)")
      case (Inl e)
      with go show ?thesis by (simp add: send_body_def run_effect_same)
    next
      case (Inr pr)
      obtain p r where pr: "pr = (p, r)" by (cases pr)
      note pace = Inr [unfolded pr]
      show ?thesis
      proof (cases p)
        case Clear
        have "send_validate now rid (w_db (w\<lparr>w_redis := r\<rparr>)) = Inr (Go x)" using go by simp
        from submit_effect [OF this, of E n] show ?thesis by (simp add: send_body_def go pace Clear)
      next
        case (Later s k)
        with later_defers pace have "\<not> closes (Returned s)" by blast
        then show ?thesis by (simp add: send_body_def go pace Later run_effect_same del: closes_simps)
      next
        case HardStop
        have "run_effect rid (w_db w) (Returned ''warming-cap'')
            (settled now rid (\<lambda>r. r\<lparr>cr_status := RSkippedCap\<rparr>) (cr_campaign_id cr) SkippedCount None (w_db w))"
          by (rule run_effect_settled [OF _ sd]) simp_all
        then show ?thesis by (simp add: send_body_def go pace HardStop x close_if_pending_sendable [OF sd])
      qed
    qed
  qed
qed

lemma one_effect: "run_effect rid (w_db w) (fst (send_one E now rid n w)) (w_db (snd (send_one E now rid n w)))"
proof (cases "redis_set_nx now (lock_key rid) ''1'' 180 (w_redis w)")
  case (Pair b r)
  show ?thesis
    using body_effect [of rid "w\<lparr>w_redis := r\<rparr>" E now n]
    by (cases b; cases "send_body E now rid n (w\<lparr>w_redis := r\<rparr>)")
      (simp_all add: send_one_def Pair unlock_def run_effect_same)
qed

section \<open>Running down\<close>

text \<open>A sequence of send tasks: the environment (the provider may answer differently), the instant,
  the recipient and the retries of each.\<close>

fun run_sends :: "(env \<times> instant \<times> id \<times> nat) list \<Rightarrow> world \<Rightarrow> task_result list \<times> world" where
  "run_sends [] w = ([], w)"
| "run_sends ((E, now, rid, n) # tasks) w =
     (case send_one E now rid n w of
        (r, w1) \<Rightarrow> (case run_sends tasks w1 of (rs, w2) \<Rightarrow> (r # rs, w2)))"

definition task_of_campaign :: "id \<Rightarrow> db \<Rightarrow> env \<times> instant \<times> id \<times> nat \<Rightarrow> bool" where
  "task_of_campaign cid d task =
     (case task of (E, now, rid, n) \<Rightarrow> map_option cr_campaign_id (get_recipient_row rid d) = Some cid)"

lemma settled_belongs:
  "closing f \<Longrightarrow> task_of_campaign cid (settled now rid f c k fq d) task = task_of_campaign cid d task"
  by (auto simp: task_of_campaign_def settled_recipient closing_touch option.map_comp comp_def
      split: prod.split cong: option.map_cong)

definition runs_down :: "id \<Rightarrow> db \<Rightarrow> bool" where
  "runs_down cid d \<longleftrightarrow> distinct (map cr_id (recipients d)) \<and>
     map_option c_status (get_campaign_row cid d) = Some (if pending_count d cid = 0 then Completed else Sending)"

lemma run_step:
  assumes "runs_down cid d" "run_effect rid d res d'" "map_option cr_campaign_id (get_recipient_row rid d) = Some cid"
  shows "runs_down cid d' \<and> pending_count d' cid = pending_count d cid - (if closes res then 1 else 0)"
proof (cases "closes res")
  case True
  with assms(2) obtain cr c now f k fq where sd: "sendable rid d cr c" and cl: "closing f"
    and d': "d' = settled now rid f (cr_campaign_id cr) k fq d" by (auto simp: run_effect_def)
  have cid: "cr_campaign_id cr = cid" using sd assms(3) by (simp add: sendable_def)
  have dist: "distinct (map cr_id (recipients d))" using assms(1) by (simp add: runs_down_def)
  have "distinct (map cr_id (recipients d'))"
    using dist by (simp add: d' map_upd_by closing_touch [OF cl])
  moreover have "pending_count d' cid = pending_count d cid - 1"
    using settled_counts(1) [OF sd cl dist] by (simp add: d' cid)
  moreover have "get_campaign_row cid d = Some c" "c_status c = Sending" using sd cid by (simp_all add: sendable_def)
  ultimately show ?thesis using True by (simp add: runs_down_def d' settled_campaign cid Let_def)
next
  case False
  with assms show ?thesis by (simp add: run_effect_def)
qed

lemma run_sends_down:
  assumes "runs_down cid (w_db w)" "\<forall>t \<in> set tasks. task_of_campaign cid (w_db w) t"
    and "run_sends tasks w = (results, w')"
  shows "runs_down cid (w_db w') \<and>
    pending_count (w_db w') cid = pending_count (w_db w) cid - int (length (filter closes results))"
  using assms
proof (induction tasks arbitrary: w results)
  case (Cons task tasks)
  obtain E now rid n where task: "task = (E, now, rid, n)" by (metis surj_pair)
  obtain r w1 where one: "send_one E now rid n w = (r, w1)" by force
  obtain rs where rest: "run_sends tasks w1 = (rs, w')" and results: "results = r # rs"
    using Cons.prems(3) by (auto simp: task one split: prod.splits)
  have eff: "run_effect rid (w_db w) r (w_db w1)" using one_effect [of rid w E now n] by (simp add: one)
  have mine: "map_option cr_campaign_id (get_recipient_row rid (w_db w)) = Some cid"
    using Cons.prems(2) by (simp add: task task_of_campaign_def)
  have "task_of_campaign cid (w_db w1) t" if "task_of_campaign cid (w_db w) t" for t
    using eff that by (auto simp: run_effect_def settled_belongs split: if_splits)
  with Cons.prems(2) have "\<forall>t \<in> set tasks. task_of_campaign cid (w_db w1) t" by simp
  from Cons.IH [OF _ this rest] run_step [OF Cons.prems(1) eff mine] show ?case
    by (simp add: results)
qed simp

text \<open>
  C31: A campaign runs down: each task that ends as sent, failed, suppressed, stopped by the warming
  cap or without template lowers the pending recipients of its campaign by one, every other result leaves
  them, and the campaign is completed by the task that closes the last one, in whatever order the
  tasks run and however often the others are repeated.
\<close>

theorem campaign_drains:
  assumes "distinct (map cr_id (recipients (w_db w)))" "get_campaign_row cid (w_db w) = Some c" "c_status c = Sending"
    and "0 < pending_count (w_db w) cid" "\<forall>t \<in> set tasks. task_of_campaign cid (w_db w) t"
    and "run_sends tasks w = (results, w')"
  shows "pending_count (w_db w') cid = pending_count (w_db w) cid - int (length (filter closes results)) \<and>
    map_option c_status (get_campaign_row cid (w_db w')) =
      Some (if pending_count (w_db w') cid = 0 then Completed else Sending)"
proof -
  have "runs_down cid (w_db w)" using assms(1-4) by (simp add: runs_down_def)
  from run_sends_down [OF this assms(5,6)] show ?thesis unfolding runs_down_def by blast
qed

theorem campaign_drains_witness:
  "map_option c_status (get_campaign_row 1 (w_db (snd (run_sends [(demo_env, 5, 1, 0)] demo_world)))) = Some Completed"
proof -
  obtain w' where one: "send_one demo_env 5 1 0 demo_world = (Returned ''sent'', w')"
    using demo_sends by (cases "send_one demo_env 5 1 0 demo_world") simp
  have run: "run_sends [(demo_env, 5, 1, 0)] demo_world = ([Returned ''sent''], w')" by (simp add: one)
  have row: "get_campaign_row 1 (w_db demo_world) = Some demo_campaign" "c_status demo_campaign = Sending"
    using demo_sendable by (simp_all add: sendable_def demo_recipient_def)
  have pend: "pending_count (w_db demo_world) 1 = 1"
    by (simp add: demo_world_def pending_count_def pending_row_def demo_recipient_def)
  have dist: "distinct (map cr_id (recipients (w_db demo_world)))" by (simp add: demo_world_def)
  have mine: "\<forall>t \<in> set [(demo_env, 5, 1, 0)]. task_of_campaign 1 (w_db demo_world) t"
    using demo_sendable by (simp add: task_of_campaign_def sendable_def demo_recipient_def)
  from campaign_drains [OF dist row _ mine run] pend have zero: "pending_count (w_db w') 1 = 0" by simp
  from campaign_drains [OF dist row _ mine run] pend show ?thesis unfolding run snd_conv by (simp add: zero)
qed

end
