(* ===== verification/Campaigns.thy ===== *)
theory Campaigns
  imports Campaign_Store Merge Suppression Config
begin

text \<open>
  Campaign management (\<open>app/services/campaigns.py\<close>) and the routes over it
  (\<open>app/web/campaigns.py\<close>).  A service function that takes a loaded \<open>Campaign\<close> object takes
  its row here; a route looks the row up, runs the service and commits.  \<open>Enqueue\<close> is what a
  route hands to the task queue after the commit.  A clash with a foreign key of the
  database raises \<open>IntegrityError\<close>.
\<close>

section \<open>Create and edit\<close>

definition or_default :: "string option \<Rightarrow> string \<Rightarrow> string" where
  "or_default v dflt = (case v of None \<Rightarrow> dflt | Some s \<Rightarrow> if s = [] then dflt else s)"

definition or_none :: "string \<Rightarrow> string option" where
  "or_none s = (if s = [] then None else Some s)"

record campaign_fields =
  f_name :: "string option"
  f_subject :: "string option"
  f_from_name :: "string option"
  f_from_email :: "string option"
  f_reply_to :: "string option"
  f_template_id :: "id option"
  f_list_id :: "id option"
  f_ip_pool :: "string option"

definition blank_campaign :: "id \<Rightarrow> instant \<Rightarrow> campaign" where
  "blank_campaign i now =
     \<lparr>c_id = i, c_name = [], c_subject = [], c_from_name = [], c_from_email = [], c_reply_to = None,
      c_template_id = None, c_list_id = None, c_send_time = None, c_send_timezone = None,
      c_is_planner = False, c_parent_campaign_id = None, c_scheduled_at = None, c_status = Draft,
      c_ip_pool = None, c_total_recipients = 0, c_queued_count = 0, c_sent_count = 0,
      c_delivered_count = 0, c_bounced_count = 0, c_failed_count = 0, c_skipped_count = 0,
      c_created_at = now\<rparr>"

definition create_campaign :: "settings \<Rightarrow> instant \<Rightarrow> campaign_fields \<Rightarrow> db \<Rightarrow> exn + campaign \<times> db" where
  "create_campaign st now f d =
     insert_campaign
       ((blank_campaign (next_id TCampaigns d) now)\<lparr>
          c_name := py_strip (or_default (f_name f) ''Untitled campaign''),
          c_subject := or_default (f_subject f) [],
          c_from_name := or_default (f_from_name f) (default_from_name st),
          c_from_email := or_default (f_from_email f) (default_from_email st),
          c_reply_to := or_none (or_default (f_reply_to f) (default_reply_to st)),
          c_template_id := f_template_id f,
          c_list_id := f_list_id f,
          c_ip_pool := f_ip_pool f,
          c_status := Draft\<rparr>) d"

definition set_campaign_fields :: "campaign_fields \<Rightarrow> campaign \<Rightarrow> campaign" where
  "set_campaign_fields f c =
     c\<lparr>c_name := (case f_name f of None \<Rightarrow> c_name c | Some v \<Rightarrow> v),
       c_subject := (case f_subject f of None \<Rightarrow> c_subject c | Some v \<Rightarrow> v),
       c_from_name := (case f_from_name f of None \<Rightarrow> c_from_name c | Some v \<Rightarrow> v),
       c_from_email := (case f_from_email f of None \<Rightarrow> c_from_email c | Some v \<Rightarrow> v),
       c_reply_to := (case f_reply_to f of None \<Rightarrow> c_reply_to c | Some v \<Rightarrow> or_none v),
       c_template_id := (case f_template_id f of None \<Rightarrow> c_template_id c | Some v \<Rightarrow> Some v),
       c_list_id := (case f_list_id f of None \<Rightarrow> c_list_id c | Some v \<Rightarrow> Some v),
       c_ip_pool := (case f_ip_pool f of None \<Rightarrow> c_ip_pool c | Some v \<Rightarrow> Some v)\<rparr>"

definition update_campaign :: "id \<Rightarrow> campaign_fields \<Rightarrow> db \<Rightarrow> exn + campaign option \<times> db" where
  "update_campaign campaign_id f d =
     (case get_campaign_row campaign_id d of
        None \<Rightarrow> Inr (None, d)
      | Some c \<Rightarrow>
          if c_status c \<notin> {Draft, Scheduled} then Inr (None, d)
          else let c' = set_campaign_fields f c in
            if refs_ok d c' then Inr (Some c', upd_campaign campaign_id (set_campaign_fields f) d)
            else Inl IntegrityError)"

section \<open>Validation before sending\<close>

definition join_with :: "string \<Rightarrow> string list \<Rightarrow> string" where
  "join_with sep xs = concat (case xs of [] \<Rightarrow> [] | y # ys \<Rightarrow> y # map (\<lambda>s. sep @ s) ys)"

definition from_errors :: "settings \<Rightarrow> campaign \<Rightarrow> string list" where
  "from_errors st c =
     (if c_from_email c = [] then [''From address is empty.'']
      else if domain_of (c_from_email c) \<notin> set (allowed_from_domains_list st)
      then [''From address must be on a domain configured in Postal ('' @
            join_with '', '' (allowed_from_domains_list st) @
            ''). Use Reply-To for a different reply address.'']
      else [])"

definition template_errors :: "db \<Rightarrow> campaign \<Rightarrow> string list" where
  "template_errors d c =
     (case c_template_id c of
        None \<Rightarrow> []
      | Some t \<Rightarrow>
          (case get_template_row t d of
             None \<Rightarrow> [''Template not found.'']
           | Some tmpl \<Rightarrow> if has_unsubscribe (t_body tmpl) then []
                          else [''Template must include an {{unsubscribe_url}} link.'']))"

definition validate_for_send :: "email_validator \<Rightarrow> settings \<Rightarrow> db \<Rightarrow> campaign \<Rightarrow> string list" where
  "validate_for_send ve st d c =
     (if c_list_id c = None then [''Campaign has no contact list.''] else []) @
     (if c_template_id c = None then [''Campaign has no template.''] else []) @
     (if py_strip (c_subject c) = [] then [''Subject is empty.''] else []) @
     from_errors st c @
     (case c_reply_to c of
        None \<Rightarrow> []
      | Some r \<Rightarrow> if r \<noteq> [] \<and> \<not> sc_ok (validate_syntax ve (Some r))
                  then [''Reply-To is not a valid email address.''] else []) @
     template_errors d c"

record presend =
  ps_recipients :: int
  ps_suppressed_excluded :: int
  ps_estimated_minutes :: int
  ps_errors :: "string list"

definition ceil_div :: "int \<Rightarrow> int \<Rightarrow> int" where
  "ceil_div a b = - ((- a) div b)"

text \<open>The join counts a pair for each suppression row with the contact's address.\<close>

definition presend_summary :: "email_validator \<Rightarrow> settings \<Rightarrow> db \<Rightarrow> campaign \<Rightarrow> presend" where
  "presend_summary ve st d c =
     (let eligible = (\<lambda>l. filter (\<lambda>ct. ct_list_id ct = Some l \<and> ct_status ct = Active) (contacts d));
          (recipients, suppressed) =
            (case c_list_id c of
               None \<Rightarrow> (0, 0)
             | Some l \<Rightarrow>
                 let active = int (length (eligible l));
                     supp = sum_list (map (\<lambda>ct. count_rows (\<lambda>s. s_email s = ct_email ct) (suppressions d))
                                        (eligible l))
                 in (active - supp, supp));
          rate = max 1 (rate_global_per_minute st)
      in \<lparr>ps_recipients = recipients, ps_suppressed_excluded = suppressed,
          ps_estimated_minutes = (if recipients \<noteq> 0 then ceil_div recipients rate else 0),
          ps_errors = validate_for_send ve st d c\<rparr>)"

section \<open>State transitions\<close>

definition set_status :: "campaign_status \<Rightarrow> campaign \<Rightarrow> db \<Rightarrow> db" where
  "set_status s c d = upd_campaign (c_id c) (\<lambda>x. x\<lparr>c_status := s\<rparr>) d"

definition schedule ::
  "email_validator \<Rightarrow> settings \<Rightarrow> campaign \<Rightarrow> instant \<Rightarrow> db \<Rightarrow> string list \<times> db" where
  "schedule ve st c scheduled_at d =
     (let errors = validate_for_send ve st d c in
      if errors \<noteq> [] then (errors, d)
      else (errors, upd_campaign (c_id c) (\<lambda>x. x\<lparr>c_scheduled_at := Some scheduled_at, c_status := Scheduled\<rparr>) d))"

definition pause :: "campaign \<Rightarrow> db \<Rightarrow> bool \<times> db" where
  "pause c d = (if c_status c \<notin> {Sending, Scheduled} then (False, d) else (True, set_status Paused c d))"

definition resume :: "campaign \<Rightarrow> db \<Rightarrow> bool \<times> db" where
  "resume c d = (if c_status c \<noteq> Paused then (False, d) else (True, set_status Sending c d))"

definition cancel :: "campaign \<Rightarrow> db \<Rightarrow> bool \<times> db" where
  "cancel c d = (if c_status c \<in> {Completed, Cancelled} then (False, d) else (True, set_status Cancelled c d))"

definition duplicate_campaign :: "instant \<Rightarrow> id \<Rightarrow> db \<Rightarrow> exn + campaign option \<times> db" where
  "duplicate_campaign now campaign_id d =
     (case get_campaign_row campaign_id d of
        None \<Rightarrow> Inr (None, d)
      | Some src \<Rightarrow>
          and_then (insert_campaign
            ((blank_campaign (next_id TCampaigns d) now)\<lparr>
               c_name := ''Copy of '' @ c_name src,
               c_subject := c_subject src,
               c_from_name := c_from_name src,
               c_from_email := c_from_email src,
               c_template_id := c_template_id src,
               c_list_id := c_list_id src,
               c_ip_pool := c_ip_pool src,
               c_status := Draft\<rparr>) d) (\<lambda>(dup, d'). Inr (Some dup, d')))"

definition delete_campaign :: "id \<Rightarrow> db \<Rightarrow> bool \<times> db" where
  "delete_campaign campaign_id d =
     (case get_campaign_row campaign_id d of
        None \<Rightarrow> (False, d)
      | Some c \<Rightarrow> if c_status c = Sending then (False, d) else (True, delete_campaign_row campaign_id d))"

section \<open>Routes\<close>

datatype enqueue = EnqueueMaterialize id

text \<open>\<open>when\<close> is now for "send now", else the form's date in UTC (\<open>None\<close>: not a date).\<close>

definition schedule_route ::
  "email_validator \<Rightarrow> settings \<Rightarrow> id \<Rightarrow> instant option \<Rightarrow> db \<Rightarrow> string list \<times> db" where
  "schedule_route ve st campaign_id when_at d =
     (case get_campaign_row campaign_id d of
        None \<Rightarrow> ([''Campaign not found.''], d)
      | Some c \<Rightarrow>
          (case when_at of
             None \<Rightarrow> ([''Pick a valid send date/time.''], d)
           | Some w \<Rightarrow> schedule ve st c w d))"

definition with_campaign :: "(campaign \<Rightarrow> db \<Rightarrow> bool \<times> db) \<Rightarrow> id \<Rightarrow> db \<Rightarrow> bool \<times> db" where
  "with_campaign act campaign_id d =
     (case get_campaign_row campaign_id d of None \<Rightarrow> (False, d) | Some c \<Rightarrow> act c d)"

definition pause_route :: "id \<Rightarrow> db \<Rightarrow> bool \<times> db" where
  "pause_route = with_campaign pause"

definition resume_route :: "id \<Rightarrow> db \<Rightarrow> enqueue list \<times> db" where
  "resume_route campaign_id d =
     (case with_campaign resume campaign_id d of
        (True, d') \<Rightarrow> ([EnqueueMaterialize campaign_id], d')
      | (False, d') \<Rightarrow> ([], d'))"

definition cancel_route :: "id \<Rightarrow> db \<Rightarrow> bool \<times> db" where
  "cancel_route = with_campaign cancel"

section \<open>Lemmas\<close>

lemma get_upd_campaign:
  assumes "\<And>c. c_id (f c) = c_id c"
  shows "get_campaign_row i (upd_campaign j f d) =
    (if i = j then map_option f (get_campaign_row i d) else get_campaign_row i d)"
  by (simp add: get_campaign_row_def row_by_upd_by assms)

lemma get_campaign_id: "get_campaign_row i d = Some c \<Longrightarrow> c_id c = i"
  by (auto simp: get_campaign_row_def dest: row_by_SomeD)


lemma count_rows_key:
  "distinct (map key rows) \<Longrightarrow> count_rows (\<lambda>r. key r = k) rows = (if k \<in> key ` set rows then 1 else 0)"
  by (induction rows) (auto simp: image_iff)

lemma presend_recipients:
  assumes "distinct (map s_email (suppressions d))" "c_list_id c = Some l"
  shows "ps_recipients (presend_summary ve st d c) =
      count_rows (\<lambda>ct. ct_list_id ct = Some l \<and> ct_status ct = Active \<and> ct_email ct \<notin> suppressed_set d) (contacts d)"
    "ps_suppressed_excluded (presend_summary ve st d c) =
      count_rows (\<lambda>ct. ct_list_id ct = Some l \<and> ct_status ct = Active \<and> ct_email ct \<in> suppressed_set d) (contacts d)"
proof -
  let ?E = "\<lambda>ct. ct_list_id ct = Some l \<and> ct_status ct = Active"
  have supp: "sum_list (map (\<lambda>ct. count_rows (\<lambda>s. s_email s = ct_email ct) (suppressions d)) (filter ?E cts)) =
      count_rows (\<lambda>ct. ct_list_id ct = Some l \<and> ct_status ct = Active \<and> ct_email ct \<in> suppressed_set d) cts" for cts
    by (induction cts) (auto simp: count_rows_key [OF assms(1)] suppressed_set_def)
  have total: "int (length (filter ?E cts)) =
      count_rows (\<lambda>ct. ct_list_id ct = Some l \<and> ct_status ct = Active \<and> ct_email ct \<notin> suppressed_set d) cts +
      count_rows (\<lambda>ct. ct_list_id ct = Some l \<and> ct_status ct = Active \<and> ct_email ct \<in> suppressed_set d) cts" for cts
    by (induction cts) auto
  show "ps_suppressed_excluded (presend_summary ve st d c) =
      count_rows (\<lambda>ct. ct_list_id ct = Some l \<and> ct_status ct = Active \<and> ct_email ct \<in> suppressed_set d) (contacts d)"
    by (simp add: presend_summary_def assms(2) supp Let_def)
  show "ps_recipients (presend_summary ve st d c) =
      count_rows (\<lambda>ct. ct_list_id ct = Some l \<and> ct_status ct = Active \<and> ct_email ct \<notin> suppressed_set d) (contacts d)"
    using total [of "contacts d"] by (simp add: presend_summary_def assms(2) supp Let_def)
qed

lemma ceil_div_bounds:
  assumes "0 < b"
  shows "a \<le> ceil_div a b * b" "ceil_div a b * b < a + b"
proof -
  have "(- a) div b * b + (- a) mod b = - a" by (rule div_mult_mod_eq)
  moreover have "0 \<le> (- a) mod b" "(- a) mod b < b" using assms by simp_all
  moreover have "ceil_div a b * b = - ((- a) div b * b)" by (simp add: ceil_div_def)
  ultimately show "a \<le> ceil_div a b * b" "ceil_div a b * b < a + b" by linarith+
qed

section \<open>The status graph of the user interface\<close>

text \<open>
  What the routes may do to the status of a campaign.  Scheduling has no guard on the
  current status, so \<open>Scheduled\<close> is reachable from everywhere.
\<close>

fun user_edge :: "campaign_status \<Rightarrow> campaign_status \<Rightarrow> bool" where
  "user_edge s Scheduled = True"
| "user_edge s Paused = (s \<in> {Sending, Scheduled, Paused})"
| "user_edge s Sending = (s \<in> {Paused, Sending})"
| "user_edge s Cancelled = (s \<noteq> Completed)"
| "user_edge s s' = (s = s')"

definition status_at :: "id \<Rightarrow> db \<Rightarrow> campaign_status option" where
  "status_at i d = map_option c_status (get_campaign_row i d)"

lemma user_edge_refl [simp]: "user_edge s s"
  by (cases s) simp_all

lemma status_at_set: "get_campaign_row j d = Some c \<Longrightarrow>
    status_at i (set_status s c d) = (if i = j then Some s else status_at i d)"
  by (auto simp: status_at_def set_status_def get_upd_campaign dest: get_campaign_id)

lemma schedule_status:
  "status_at i (snd (schedule_route ve st j w d)) =
     (if i = j \<and> fst (schedule_route ve st j w d) = [] then Some Scheduled else status_at i d)"
  by (auto simp: schedule_route_def schedule_def status_at_def get_upd_campaign Let_def dest: get_campaign_id
      split: option.splits)

lemma pause_status:
  "status_at i (snd (pause_route j d)) =
     (if i = j \<and> status_at j d \<in> {Some Sending, Some Scheduled} then Some Paused else status_at i d)"
  by (auto simp: pause_route_def with_campaign_def pause_def status_at_set split: option.splits)
     (auto simp: status_at_def)

lemma resume_status:
  "status_at i (snd (resume_route j d)) =
     (if i = j \<and> status_at j d = Some Paused then Some Sending else status_at i d)"
  by (auto simp: resume_route_def with_campaign_def resume_def status_at_set split: option.splits prod.splits bool.splits
      if_splits)
     (auto simp: status_at_def)

lemma cancel_status:
  "status_at i (snd (cancel_route j d)) =
     (if i = j \<and> status_at j d \<notin> {None, Some Completed, Some Cancelled} then Some Cancelled else status_at i d)"
  by (auto simp: cancel_route_def with_campaign_def cancel_def status_at_set split: option.splits)
     (auto simp: status_at_def)

lemma set_campaign_fields_keeps [simp]:
  "c_id (set_campaign_fields f c) = c_id c" "c_status (set_campaign_fields f c) = c_status c"
  by (simp_all add: set_campaign_fields_def)

lemma update_campaign_status:
  assumes "update_campaign j f d = Inr (r, d')"
  shows "status_at i d' = status_at i d"
proof -
  from assms have "d' = d \<or> d' = upd_campaign j (set_campaign_fields f) d"
    by (auto simp: update_campaign_def Let_def split: option.splits if_splits)
  then show ?thesis
    by (auto simp: status_at_def get_upd_campaign option.map_comp comp_def)
qed

section \<open>Properties\<close>


text \<open>A campaign that can be scheduled, for the witnesses.\<close>

definition ready_campaign :: campaign where
  "ready_campaign = (blank_campaign 1 0)\<lparr>c_name := ''News'', c_subject := ''Hi'',
     c_from_email := ''news@marketing.cod-st.com'', c_reply_to := Some ''r@x.com'', c_template_id := Some 1,
     c_list_id := Some 1\<rparr>"

definition ready_db :: db where
  "ready_db = empty_db\<lparr>campaigns := [ready_campaign],
     contact_lists := [\<lparr>l_id = 1, l_name = ''L'', l_description = None, l_source_filename = None, l_created_by = None,
       l_contact_count = 0, l_verification_status = LReady, l_verification_summary = None, l_import_summary = None,
       l_free_provider_filter_applied = False, l_created_at = 0\<rparr>],
     templates := [\<lparr>t_id = 1, t_name = ''T'', t_type = ''plain'', t_subject_default = None,
       t_body = ''Bye {{ unsubscribe_url }}'', t_updated_at = 0\<rparr>],
     seqs := (\<lambda>_. 1)\<rparr>"

lemma ready_route: "schedule_route Inr default_settings 1 (Some 5) ready_db =
    ([], upd_campaign 1 (\<lambda>x. x\<lparr>c_scheduled_at := Some 5, c_status := Scheduled\<rparr>) ready_db)"
proof -
  have "validate_for_send Inr default_settings ready_db ready_campaign = []" by code_simp
  moreover have "get_campaign_row 1 ready_db = Some ready_campaign" "c_id ready_campaign = 1"
    by (simp_all add: get_campaign_row_def ready_db_def ready_campaign_def blank_campaign_def)
  ultimately show ?thesis by (simp add: schedule_route_def schedule_def)
qed


text \<open>
  The user's actions move a campaign only along the edges of the status graph, and each
  of them touches the status of no campaign but its own: pause stops what is scheduled or
  sending, resume restarts only what is paused, a completed or cancelled campaign is never
  cancelled, and editing never changes a status.
\<close>

theorem user_actions_refine_graph:
  assumes "d' \<in> {snd (schedule_route ve st j w d), snd (pause_route j d), snd (resume_route j d), snd (cancel_route j d)} \<or>
    update_campaign j f d = Inr (r, d')"
  shows "(i \<noteq> j \<longrightarrow> status_at i d' = status_at i d) \<and>
    rel_option user_edge (status_at j d) (status_at j d')"
proof -
  have refl: "rel_option user_edge x x" for x by (cases x) simp_all
  have sched: "\<exists>s. status_at j d = Some s" if "fst (schedule_route ve st j w d) = []"
    using that by (auto simp: schedule_route_def status_at_def split: option.splits)
  consider (S) "d' = snd (schedule_route ve st j w d)" | (P) "d' = snd (pause_route j d)" |
      (R) "d' = snd (resume_route j d)" | (C) "d' = snd (cancel_route j d)" | (U) "update_campaign j f d = Inr (r, d')"
    using assms by blast
  then show ?thesis
  proof cases
    case S
    then show ?thesis using sched by (auto simp: schedule_status refl)
  next
    case C
    have "x \<noteq> None \<Longrightarrow> x \<noteq> Some Completed \<Longrightarrow> rel_option user_edge x (Some Cancelled)" for x by (cases x) auto
    with C show ?thesis by (simp add: cancel_status refl)
  qed (auto simp: pause_status resume_status update_campaign_status refl)
qed

theorem user_actions_refine_graph_witness:
  "rel_option user_edge (status_at 1 ready_db) (status_at 1 (snd (pause_route 1 ready_db)))"
  using user_actions_refine_graph [of "snd (pause_route 1 ready_db)" Inr default_settings 1 None ready_db undefined undefined 1]
  by blast

text \<open>
  The summary shown before scheduling is exact when the suppression list has one row for
  an address: it counts the active contacts of the list that are not suppressed, the ones that
  are, and the least number of minutes that covers the former at the configured rate.
\<close>

theorem presend_exact:
  assumes "distinct (map s_email (suppressions d))" "c_list_id c = Some l"
  shows "ps_recipients (presend_summary ve st d c) =
      count_rows (\<lambda>ct. ct_list_id ct = Some l \<and> ct_status ct = Active \<and> ct_email ct \<notin> suppressed_set d) (contacts d) \<and>
    ps_suppressed_excluded (presend_summary ve st d c) =
      count_rows (\<lambda>ct. ct_list_id ct = Some l \<and> ct_status ct = Active \<and> ct_email ct \<in> suppressed_set d) (contacts d) \<and>
    (let m = ps_estimated_minutes (presend_summary ve st d c); rate = max 1 (rate_global_per_minute st) in
     ps_recipients (presend_summary ve st d c) \<le> m * rate \<and> (m - 1) * rate < max 1 (ps_recipients (presend_summary ve st d c)))"
proof -
  let ?n = "ps_recipients (presend_summary ve st d c)" and ?rate = "max 1 (rate_global_per_minute st)"
  have m: "ps_estimated_minutes (presend_summary ve st d c) = (if ?n \<noteq> 0 then ceil_div ?n ?rate else 0)"
    by (simp add: presend_summary_def Let_def split: prod.split)
  have "0 \<le> ?n" using presend_recipients(1) [OF assms] by simp
  then have "?n \<le> ps_estimated_minutes (presend_summary ve st d c) * ?rate \<and>
      (ps_estimated_minutes (presend_summary ve st d c) - 1) * ?rate < max 1 ?n"
    using ceil_div_bounds [of ?rate ?n] by (auto simp: m algebra_simps)
  then show ?thesis using presend_recipients [OF assms] by (simp only: Let_def)
qed

theorem presend_exact_witness:
  "ps_recipients (presend_summary Inr default_settings ready_db ready_campaign) = 0"
proof -
  have "distinct (map s_email (suppressions ready_db))" "c_list_id ready_campaign = Some 1" "contacts ready_db = []"
    by (simp_all add: ready_db_def empty_db_def ready_campaign_def)
  with presend_exact [OF this(1,2), of Inr default_settings] show ?thesis by simp
qed

section \<open>Where the routes fall short\<close>

text \<open>A copy loses the Reply-To of its source.\<close>

lemma duplicate_drops_reply_to:
  "case duplicate_campaign 9 1 ready_db of
     Inr (Some dup, d') \<Rightarrow> c_reply_to dup = None \<and> c_reply_to ready_campaign = Some ''r@x.com'' | _ \<Rightarrow> False"
  by code_simp

text \<open>Pausing a campaign scheduled for later and resuming it sends it at once.\<close>

lemma pause_resume_sends_early:
  "status_at 1 (snd (resume_route 1 (snd (pause_route 1 (snd (schedule_route Inr default_settings 1 (Some 5) ready_db)))))) =
   Some Sending"
proof -
  have "status_at 1 (snd (schedule_route Inr default_settings 1 (Some 5) ready_db)) = Some Scheduled"
    using schedule_status [of 1 Inr default_settings 1 "Some 5" ready_db] by (simp add: ready_route)
  then show ?thesis by (simp add: resume_status pause_status)
qed

text \<open>A cancelled campaign, terminal by the operations manual, can be scheduled again.\<close>

lemma cancelled_reschedules:
  assumes "get_campaign_row i d = Some c" "c_status c = Cancelled" "validate_for_send ve st d c = []"
  shows "status_at i (snd (schedule_route ve st i (Some w) d)) = Some Scheduled"
  using assms by (simp add: schedule_status) (simp add: schedule_route_def schedule_def)

text \<open>Once scheduled, the template can be replaced by one without an unsubscribe link.\<close>

lemma scheduled_template_unchecked:
  assumes "get_campaign_row i d = Some c" "c_status c = Scheduled" "refs_ok d (c\<lparr>c_template_id := Some t\<rparr>)"
  shows "\<exists>d'. update_campaign i \<lparr>f_name = None, f_subject = None, f_from_name = None, f_from_email = None,
      f_reply_to = None, f_template_id = Some t, f_list_id = None, f_ip_pool = None\<rparr> d =
      Inr (Some (c\<lparr>c_template_id := Some t\<rparr>), d') \<and>
    get_campaign_row i d' = Some (c\<lparr>c_template_id := Some t\<rparr>)"
  using assms by (simp add: update_campaign_def set_campaign_fields_def get_upd_campaign)

end
