(* ===== verification/Planner_Engine.thy ===== *)
theory Planner_Engine
  imports Campaigns Calendar
begin

text \<open>
  The 4-week planner engine (\<open>app/services/planner_engine.py\<close>, \<open>app/tasks/planner.py\<close>):
  the month position of a date, and the creation of a day's runs.  The time-zone database is
  the parameter \<open>zones\<close>: a zone name is unknown, or a zone that converts a local date and
  time to an instant and an instant to its local date.  The em dash of a run's name lies
  outside the characters of the model and is written as its UTF-8 bytes.
\<close>

section \<open>Positions\<close>

definition position_for_date :: "date \<Rightarrow> (int \<times> int) option" where
  "position_for_date d =
     (let wd = weekday d in
      if wd > 4 then None
      else let occurrence = (day d - 1) div 7 + 1 in
        if occurrence > 4 then None else Some (occurrence, wd))"

section \<open>Time zones\<close>

record zone =
  z_to_utc :: "date \<Rightarrow> int \<Rightarrow> int \<Rightarrow> instant"
  z_local_date :: "instant \<Rightarrow> date"

type_synonym zone_db = "string \<Rightarrow> zone option"

definition utc_zone :: zone where
  "utc_zone = \<lparr>z_to_utc = (\<lambda>d h m. (toordinal d - 719163) * days 1 + hours h + minutes m),
               z_local_date = utc_date\<rparr>"

definition app_tz :: "zone_db \<Rightarrow> settings \<Rightarrow> zone" where
  "app_tz zones st =
     (case zones (app_timezone st) of
        Some z \<Rightarrow> z
      | None \<Rightarrow> (case zones ''UTC'' of Some z \<Rightarrow> z | None \<Rightarrow> utc_zone))"

definition today_local :: "zone_db \<Rightarrow> settings \<Rightarrow> instant \<Rightarrow> date" where
  "today_local zones st now = z_local_date (app_tz zones st) now"

definition parse_send_time :: "string option \<Rightarrow> int \<times> int" where
  "parse_send_time send_time =
     (case py_split CHR '':'' (or_default send_time ''09:00'') of
        [hh, mm] \<Rightarrow> (case (int_of_string hh, int_of_string mm) of
                       (Some h, Some m) \<Rightarrow> (h, m) | _ \<Rightarrow> (9, 0))
      | _ \<Rightarrow> (9, 0))"

text \<open>\<open>time(hh, mm)\<close> is outside the source's \<open>try\<close>: an hour or minute out of range raises.\<close>

definition run_datetime_utc ::
  "zone_db \<Rightarrow> settings \<Rightarrow> date \<Rightarrow> string option \<Rightarrow> string option \<Rightarrow> exn + instant" where
  "run_datetime_utc zones st local_date send_time send_tz =
     (let tz = (case send_tz of
                  None \<Rightarrow> app_tz zones st
                | Some name \<Rightarrow> if name = [] then app_tz zones st
                               else (case zones name of None \<Rightarrow> app_tz zones st | Some z \<Rightarrow> z));
          (hh, mm) = parse_send_time send_time
      in if 0 \<le> hh \<and> hh < 24 \<and> 0 \<le> mm \<and> mm < 60 then Inr (z_to_utc tz local_date hh mm)
         else Inl ValueError)"

section \<open>Runs\<close>

definition run_exists_for :: "zone_db \<Rightarrow> settings \<Rightarrow> db \<Rightarrow> id \<Rightarrow> date \<Rightarrow> bool" where
  "run_exists_for zones st d recurring_id local_date =
     (let app = app_tz zones st; start = z_to_utc app local_date 0 0 in
      list_ex (\<lambda>c. case c_scheduled_at c of
            None \<Rightarrow> False
          | Some t \<Rightarrow> c_parent_campaign_id c = Some recurring_id \<and>
                      start - hours 18 \<le> t \<and> t \<le> start + hours 42 \<and> z_local_date app t = local_date)
        (campaigns d))"

definition run_name :: "string \<Rightarrow> date \<Rightarrow> string" where
  "run_name name local_date = name @ [CHR '' '', CHR 0xE2, CHR 0x80, CHR 0x94, CHR '' ''] @ isoformat local_date"

definition run_of :: "campaign \<Rightarrow> date \<Rightarrow> instant \<Rightarrow> id \<Rightarrow> instant \<Rightarrow> campaign" where
  "run_of rec local_date send_dt i now =
     (blank_campaign i now)\<lparr>
        c_name := run_name (c_name rec) local_date,
        c_subject := c_subject rec, c_from_name := c_from_name rec, c_from_email := c_from_email rec,
        c_reply_to := c_reply_to rec, c_template_id := c_template_id rec, c_ip_pool := c_ip_pool rec,
        c_send_time := c_send_time rec, c_send_timezone := c_send_timezone rec,
        c_is_planner := False, c_parent_campaign_id := Some (c_id rec),
        c_status := Scheduled, c_scheduled_at := Some send_dt\<rparr>"

definition link_lists :: "id \<Rightarrow> id list \<Rightarrow> db \<Rightarrow> db" where
  "link_lists campaign_id lids d =
     fold (\<lambda>lid d. bump_seq TCampaignLists (d\<lparr>campaign_lists := campaign_lists d @
             [\<lparr>cl_id = next_id TCampaignLists d, cl_campaign_id = campaign_id, cl_list_id = lid\<rparr>]\<rparr>)) lids d"

definition ensure_run ::
  "zone_db \<Rightarrow> settings \<Rightarrow> instant \<Rightarrow> id \<Rightarrow> date \<Rightarrow> db \<Rightarrow> exn + id option \<times> db" where
  "ensure_run zones st now recurring_id local_date d =
     (case get_campaign_row recurring_id d of
        None \<Rightarrow> Inr (None, d)
      | Some rec \<Rightarrow>
          if \<not> c_is_planner rec then Inr (None, d)
          else if run_exists_for zones st d recurring_id local_date then Inr (None, d)
          else and_then (run_datetime_utc zones st local_date (c_send_time rec) (c_send_timezone rec)) (\<lambda>send_dt.
            let run = run_of rec local_date send_dt (next_id TCampaigns d) now in
            and_then (insert_campaign run d) (\<lambda>(run, d1).
            Inr (Some (c_id run), link_lists (c_id run) (campaign_list_ids_sync d1 (c_id rec)) d1))))"

text \<open>Each run is a transaction of its own: what was committed before an exception stays.\<close>

fun ensure_runs ::
  "zone_db \<Rightarrow> settings \<Rightarrow> instant \<Rightarrow> id list \<Rightarrow> date \<Rightarrow> db \<Rightarrow> (exn option \<times> id list) \<times> db" where
  "ensure_runs zones st now [] local_date d = ((None, []), d)"
| "ensure_runs zones st now (cid # cids) local_date d =
     (case ensure_run zones st now cid local_date d of
        Inl e \<Rightarrow> ((Some e, []), d)
      | Inr (rid, d1) \<Rightarrow>
          (case ensure_runs zones st now cids local_date d1 of
             ((e, created), d2) \<Rightarrow>
               ((e, (case rid of None \<Rightarrow> created | Some r \<Rightarrow> if r \<noteq> 0 then r # created else created)), d2)))"

definition placed_campaigns :: "db \<Rightarrow> int \<Rightarrow> int \<Rightarrow> id list" where
  "placed_campaigns d wk wd =
     map p_campaign_id (filter (\<lambda>p. p_week p = wk \<and> p_weekday p = wd) (placements d))"

definition dispatch_planner ::
  "zone_db \<Rightarrow> settings \<Rightarrow> instant \<Rightarrow> date option \<Rightarrow> db \<Rightarrow> (exn option \<times> id list) \<times> db" where
  "dispatch_planner zones st now for_date d =
     (let local_date = (case for_date of Some x \<Rightarrow> x | None \<Rightarrow> today_local zones st now) in
      case position_for_date local_date of
        None \<Rightarrow> ((None, []), d)
      | Some (wk, wd) \<Rightarrow> ensure_runs zones st now (placed_campaigns d wk wd) local_date d)"

definition run_planner :: "zone_db \<Rightarrow> settings \<Rightarrow> instant \<Rightarrow> db \<Rightarrow> (exn option \<times> id list) \<times> db" where
  "run_planner zones st now d = dispatch_planner zones st now None d"

section \<open>Lemmas: positions\<close>

text \<open>Every cell of the grid is one day of every month, among the first 28.\<close>

lemma position_weekday:
  "position_for_date (Date y m k) = Some (wk, wd) \<longleftrightarrow>
     weekday (Date y m k) = wd \<and> wd \<le> 4 \<and> (k - 1) div 7 + 1 = wk \<and> wk \<le> 4"
  by (auto simp: position_for_date_def Let_def)

lemma position_unique_day:
  assumes "1 \<le> wk" "wk \<le> 4" "0 \<le> wd" "wd \<le> 4"
  shows "\<exists>!k. 1 \<le> k \<and> position_for_date (Date y m k) = Some (wk, wd)"
proof -
  define b where "b = weekday (Date y m 1)"
  have b: "0 \<le> b" "b \<le> 6" by (simp_all add: b_def weekday_range)
  define k where "k = 7 * (wk - 1) + (wd - b) mod 7 + 1"
  have at: "weekday (Date y m j) = (b + (j - 1)) mod 7" for j
    unfolding b_def by (rule weekday_in_month)
  have r: "0 \<le> (wd - b) mod 7" "(wd - b) mod 7 < 7" by simp_all
  have "(b + (k - 1)) mod 7 = (b + (wd - b) mod 7 + 7 * (wk - 1)) mod 7" by (simp add: k_def algebra_simps)
  also have "\<dots> = (b + (wd - b) mod 7) mod 7" by (rule mod_mult_self2)
  also have "\<dots> = (b + (wd - b)) mod 7" by (rule mod_add_right_eq)
  also have "\<dots> = wd" using assms by simp
  finally have k1: "(b + (k - 1)) mod 7 = wd" .
  have k2: "(k - 1) div 7 + 1 = wk" using r by (simp add: k_def)
  have k3: "1 \<le> k" using assms(1) r(1) by (simp add: k_def)
  have uniq: "j = k" if "(b + (j - 1)) mod 7 = wd" "(j - 1) div 7 + 1 = wk" for j
  proof -
    have "(j - 1) mod 7 = (wd - b) mod 7"
      using mod_diff_left_eq [of "b + (j - 1)" 7 b] that(1) by simp
    moreover have "(j - 1) div 7 = wk - 1" using that(2) by simp
    ultimately have "j - 1 = (wk - 1) * 7 + (wd - b) mod 7"
      using div_mult_mod_eq [of "j - 1" 7] by metis
    then show ?thesis by (simp add: k_def)
  qed
  show ?thesis
  proof (rule ex1I [of _ k])
    show "1 \<le> k \<and> position_for_date (Date y m k) = Some (wk, wd)"
      unfolding position_weekday at using k1 k2 k3 assms(2,4) by blast
  next
    fix j assume "1 \<le> j \<and> position_for_date (Date y m j) = Some (wk, wd)"
    then have "(b + (j - 1)) mod 7 = wd" "(j - 1) div 7 + 1 = wk"
      unfolding position_weekday at by blast+
    then show "j = k" by (rule uniq)
  qed
qed

lemma position_range:
  assumes "position_for_date d = Some (wk, wd)" "1 \<le> day d"
  shows "1 \<le> wk \<and> wk \<le> 4 \<and> 0 \<le> wd \<and> wd \<le> 4"
  using assms weekday_range [of d]
  by (auto simp: position_for_date_def Let_def pos_imp_zdiv_nonneg_iff split: if_splits)

section \<open>Lemmas: runs\<close>

lemma link_lists_frame [frame, simp]:
  "campaigns (link_lists i ls d) = campaigns d" "recipients (link_lists i ls d) = recipients d"
  "contacts (link_lists i ls d) = contacts d" "suppressions (link_lists i ls d) = suppressions d"
  "placements (link_lists i ls d) = placements d" "templates (link_lists i ls d) = templates d"
  "contact_lists (link_lists i ls d) = contact_lists d" "contact_sends (link_lists i ls d) = contact_sends d"
  "app_settings (link_lists i ls d) = app_settings d" "email_events (link_lists i ls d) = email_events d"
  by (induction ls arbitrary: d) (simp_all add: link_lists_def)

lemma link_lists_ids:
  "get_campaign_list_ids (link_lists i ls d) j = get_campaign_list_ids d j @ (if j = i then ls else [])"
proof (induction ls arbitrary: d)
  case (Cons l ls)
  let ?d = "bump_seq TCampaignLists (d\<lparr>campaign_lists := campaign_lists d @
             [\<lparr>cl_id = next_id TCampaignLists d, cl_campaign_id = i, cl_list_id = l\<rparr>]\<rparr>)"
  have "link_lists i (l # ls) d = link_lists i ls ?d" by (simp add: link_lists_def)
  with Cons.IH [of ?d] show ?case by (simp add: get_campaign_list_ids_def)
qed (simp add: link_lists_def)

lemma insert_campaign_Inr:
  "insert_campaign c d = Inr (c', d') \<Longrightarrow> c' = c \<and> campaigns d' = campaigns d @ [c] \<and>
     recipients d' = recipients d \<and> contacts d' = contacts d \<and> suppressions d' = suppressions d \<and>
     campaign_lists d' = campaign_lists d \<and> seqs d' TRecipients = seqs d TRecipients"
  by (auto simp: insert_campaign_def split: if_splits)

lemma ensure_run_created:
  assumes "ensure_run zones st now rid ld d = Inr (Some i, d')"
  shows "\<exists>rec send_dt. get_campaign_row rid d = Some rec \<and> c_is_planner rec \<and>
    run_datetime_utc zones st ld (c_send_time rec) (c_send_timezone rec) = Inr send_dt \<and>
    i = next_id TCampaigns d \<and> campaigns d' = campaigns d @ [run_of rec ld send_dt i now]"
  using assms
  by (auto simp: ensure_run_def and_then_Inr_iff Let_def run_of_def blank_campaign_def
      dest!: insert_campaign_Inr split: option.splits if_splits)

lemma ensure_run_frame:
  assumes "ensure_run zones st now rid ld d = Inr (r, d')"
  shows "recipients d' = recipients d" "contacts d' = contacts d" "suppressions d' = suppressions d"
  using assms
  by (auto simp: ensure_run_def and_then_Inr_iff Let_def dest!: insert_campaign_Inr
      split: option.splits if_splits)

text \<open>
  A run is recognised on the same day when its send instant, read in the zone of the
  application, falls on the date it was made for.
\<close>

lemma run_recognised:
  assumes "campaigns d' = campaigns d @ [run_of rec ld t i now]" "c_id rec = rid"
    and "z_local_date (app_tz zones st) t = ld"
    and "z_to_utc (app_tz zones st) ld 0 0 - hours 18 \<le> t" "t \<le> z_to_utc (app_tz zones st) ld 0 0 + hours 42"
  shows "run_exists_for zones st d' rid ld"
  using assms by (simp add: run_exists_for_def run_of_def Let_def)

lemma run_exists_no_run:
  "run_exists_for zones st d rid ld \<Longrightarrow> ensure_run zones st now rid ld d = Inr (None, d)"
  by (simp add: ensure_run_def split: option.split)

section \<open>Properties\<close>

text \<open>
  Every cell of the 4 x 5 grid is one day of every month, and every date that has a cell
  has one inside the grid: no placement runs twice in a month, and none is skipped.
\<close>

theorem grid_covers_month:
  assumes "1 \<le> wk" "wk \<le> 4" "0 \<le> wd" "wd \<le> 4"
  shows "\<exists>!k. 1 \<le> k \<and> position_for_date (Date y m k) = Some (wk, wd)"
  using assms by (rule position_unique_day)

theorem grid_covers_month_witness: "\<exists>!k. 1 \<le> k \<and> position_for_date (Date 2024 2 k) = Some (4, 4)"
  by (rule grid_covers_month) simp_all

text \<open>
  What the time-zone database promises of a zone on an ordinary day: a wall-clock time of the
  day is an instant of that local day, at most a day and an hour after its midnight.
\<close>

definition zone_day :: "zone \<Rightarrow> date \<Rightarrow> bool" where
  "zone_day z ld \<longleftrightarrow>
     (\<forall>h m. 0 \<le> h \<longrightarrow> h < 24 \<longrightarrow> 0 \<le> m \<longrightarrow> m < 60 \<longrightarrow>
        z_local_date z (z_to_utc z ld h m) = ld \<and>
        z_to_utc z ld 0 0 \<le> z_to_utc z ld h m \<and> z_to_utc z ld h m \<le> z_to_utc z ld 0 0 + hours 25)"

definition sends_in_app_zone :: "zone_db \<Rightarrow> settings \<Rightarrow> campaign \<Rightarrow> bool" where
  "sends_in_app_zone zones st c \<longleftrightarrow>
     (case c_send_timezone c of
        None \<Rightarrow> True
      | Some name \<Rightarrow> name = [] \<or> zones name \<in> {None, Some (app_tz zones st)})"

text \<open>
  C36: The planner is idempotent for a campaign that sends in the application's own zone: once
  the day's run exists, running the engine again for that day, at any instant, creates nothing.
\<close>

theorem planner_run_idempotent:
  assumes "ensure_run zones st now rid ld d = Inr (Some i, d')"
    and "get_campaign_row rid d = Some rec" "sends_in_app_zone zones st rec" "zone_day (app_tz zones st) ld"
  shows "ensure_run zones st later rid ld d' = Inr (None, d')"
proof -
  from ensure_run_created [OF assms(1)] assms(2) obtain t
    where t: "run_datetime_utc zones st ld (c_send_time rec) (c_send_timezone rec) = Inr t"
    and d': "campaigns d' = campaigns d @ [run_of rec ld t i now]" by auto
  obtain h m where hm: "parse_send_time (c_send_time rec) = (h, m)" by (cases "parse_send_time (c_send_time rec)")
  from t assms(3) have "t = z_to_utc (app_tz zones st) ld h m" "0 \<le> h" "h < 24" "0 \<le> m" "m < 60"
    by (auto simp: run_datetime_utc_def hm sends_in_app_zone_def Let_def split: if_splits option.splits)
  with assms(4) have day: "z_local_date (app_tz zones st) t = ld"
    "z_to_utc (app_tz zones st) ld 0 0 \<le> t" "t \<le> z_to_utc (app_tz zones st) ld 0 0 + hours 25"
    by (simp_all add: zone_day_def)
  have "c_id rec = rid" using assms(2) by (auto simp: get_campaign_row_def dest: row_by_SomeD)
  moreover have "(0 :: int) \<le> hours 18" "hours 25 \<le> hours 42" by (simp_all add: hours_def minutes_def seconds_def)
  ultimately have "run_exists_for zones st d' rid ld"
    using run_recognised [OF d', of rid zones st] day by simp
  then show ?thesis by (rule run_exists_no_run)
qed

text \<open>Two recurring campaigns of one cell; the first has a send time no clock shows.\<close>

definition weekly :: "id \<Rightarrow> string \<Rightarrow> string \<Rightarrow> campaign" where
  "weekly i hhmm tz = (blank_campaign i 0)\<lparr>c_send_time := Some hhmm, c_send_timezone := Some tz,
     c_is_planner := True, c_status := Planner\<rparr>"

definition weekly_db :: "string \<Rightarrow> string \<Rightarrow> db" where
  "weekly_db hhmm tz = empty_db\<lparr>campaigns := [weekly 1 hhmm tz, weekly 2 ''09:00'' []],
     placements := [\<lparr>p_id = 1, p_campaign_id = 1, p_week = 1, p_weekday = 0\<rparr>,
                    \<lparr>p_id = 2, p_campaign_id = 2, p_week = 1, p_weekday = 0\<rparr>],
     seqs := (\<lambda>_. 2)\<rparr>"

text \<open>Sydney in summer, eleven hours ahead of the application's UTC.\<close>

definition sydney :: zone where
  "sydney = \<lparr>z_to_utc = (\<lambda>d h m. z_to_utc utc_zone d h m - hours 11),
             z_local_date = (\<lambda>t. utc_date (t + hours 11))\<rparr>"

definition two_zones :: zone_db where
  "two_zones name = (if name = ''UTC'' then Some utc_zone else if name = ''Australia/Sydney'' then Some sydney else None)"

lemma weekly_created:
  "map_sum id fst (ensure_run two_zones default_settings 0 1 (Date 2024 1 1) (weekly_db ''09:00'' [])) = Inr (Some 3)"
  by code_simp

lemma utc_new_year: "zone_day utc_zone (Date 2024 1 1)"
proof -
  have ord: "toordinal (Date 2024 1 1) = 738886" by code_simp
  have day: "fromordinal 738886 = Date 2024 1 1" by code_simp
  have midnight: "(1704067200000000 + 3600000000 * h + 60000000 * m) div 86400000000 = 19723"
    if "0 \<le> h" "h < 24" "0 \<le> m" "m < 60" for h m :: int
    by (rule int_div_pos_eq [where r = "3600000000 * h + 60000000 * m"]) (use that in simp_all)
  have "z_local_date utc_zone (z_to_utc utc_zone (Date 2024 1 1) h m) = Date 2024 1 1"
    if "0 \<le> h" "h < 24" "0 \<le> m" "m < 60" for h m
  proof -
    have "z_to_utc utc_zone (Date 2024 1 1) h m = 1704067200000000 + 3600000000 * h + 60000000 * m"
      by (simp add: utc_zone_def ord days_eq hours_eq minutes_def seconds_def)
    then show ?thesis by (simp only:) (simp add: utc_zone_def utc_date_def midnight [OF that] day)
  qed
  then show ?thesis
    by (auto simp: zone_day_def) (simp_all add: utc_zone_def hours_eq minutes_def seconds_def)
qed

theorem planner_run_idempotent_witness:
  "\<exists>d'. ensure_run two_zones default_settings 7 1 (Date 2024 1 1) d' = Inr (None, d') \<and>
     (\<exists>i. ensure_run two_zones default_settings 0 1 (Date 2024 1 1) (weekly_db ''09:00'' []) = Inr (Some i, d'))"
proof -
  obtain d' where run: "ensure_run two_zones default_settings 0 1 (Date 2024 1 1) (weekly_db ''09:00'' []) = Inr (Some 3, d')"
    using weekly_created by (cases "ensure_run two_zones default_settings 0 1 (Date 2024 1 1) (weekly_db ''09:00'' [])") auto
  have app: "app_tz two_zones default_settings = utc_zone"
    by (simp add: app_tz_def two_zones_def default_settings_def)
  have row: "get_campaign_row 1 (weekly_db ''09:00'' []) = Some (weekly 1 ''09:00'' [])"
    by (simp add: get_campaign_row_def weekly_db_def weekly_def blank_campaign_def)
  have "sends_in_app_zone two_zones default_settings (weekly 1 ''09:00'' [])"
    by (simp add: sends_in_app_zone_def weekly_def)
  from planner_run_idempotent [OF run row this] utc_new_year run show ?thesis by (auto simp: app)
qed

text \<open>A run of another zone is not recognised, and the next pass creates it again.\<close>

lemma sydney_run_duplicated:
  "(case ensure_run two_zones default_settings 0 1 (Date 2024 1 1) (weekly_db ''09:00'' ''Australia/Sydney'') of
      Inr (Some i, d') \<Rightarrow>
        (case ensure_run two_zones default_settings 0 1 (Date 2024 1 1) d' of
           Inr (Some j, d'') \<Rightarrow> i \<noteq> j \<and> length (campaigns d'') = 4 | _ \<Rightarrow> False)
    | _ \<Rightarrow> False)"
  by code_simp

text \<open>One impossible send time keeps the rest of its cell from running.\<close>

lemma bad_send_time_aborts:
  "fst (dispatch_planner two_zones default_settings 0 (Some (Date 2024 1 1)) (weekly_db ''25:00'' [])) =
     (Some ValueError, []) \<and>
   fst (dispatch_planner two_zones default_settings 0 (Some (Date 2024 1 1)) (weekly_db ''09:00'' [])) = (None, [3, 4])"
  by code_simp

end
