(* ===== verification/Planner.thy ===== *)
theory Planner
  imports Planner_Engine Ledger
begin

text \<open>
  The planner's UI service (\<open>app/services/planner.py\<close>): how many contacts a recurring
  campaign would reach, the 4 x 5 grid, placements and recurring campaigns.  The database
  refuses a placement of a campaign that does not exist (\<open>IntegrityError\<close>).
\<close>

section \<open>Reads\<close>

definition palette :: "string list" where
  "palette = [''#2563eb'', ''#16a34a'', ''#db2777'', ''#ea580c'', ''#7c3aed'',
              ''#0891b2'', ''#ca8a04'', ''#dc2626'', ''#4f46e5'', ''#0d9488'']"

definition color_for :: "id \<Rightarrow> string" where
  "color_for campaign_id = palette ! nat (campaign_id mod int (length palette))"

text \<open>The outer join keeps a contact once for each suppression row, and drops the matches.\<close>

definition eligible_count :: "instant \<Rightarrow> db \<Rightarrow> id \<Rightarrow> int \<Rightarrow> int" where
  "eligible_count now d campaign_id interval_days =
     (let list_ids = get_campaign_list_ids d campaign_id in
      if list_ids = [] then 0
      else let recent = ineligible_contact_ids now d campaign_id interval_days in
        int (length (filter (\<lambda>j. \<not> j_suppressed j \<and> ct_id (j_contact j) \<notin> recent) (contact_join d list_ids))))"

definition campaign_list_names :: "db \<Rightarrow> id \<Rightarrow> string list" where
  "campaign_list_names d campaign_id =
     concat (map (\<lambda>cl. map l_name (filter (\<lambda>l. l_id l = cl_list_id cl) (contact_lists d)))
       (filter (\<lambda>cl. cl_campaign_id cl = campaign_id) (campaign_lists d)))"

record card =
  k_placement_id :: id
  k_campaign_id :: id
  k_card_name :: string
  k_template_name :: "string option"
  k_list_names :: "string list"
  k_send_time :: "string option"
  k_send_timezone :: "string option"
  k_eligible :: int
  k_color :: string

definition template_name :: "db \<Rightarrow> campaign \<Rightarrow> string option" where
  "template_name d c =
     (case c_template_id c of
        None \<Rightarrow> None
      | Some t \<Rightarrow> if t = 0 then None
                  else Some (case get_template_row t d of
                               None \<Rightarrow> [CHR 0xE2, CHR 0x80, CHR 0x94]
                             | Some tmpl \<Rightarrow> if t_name tmpl = [] then [CHR 0xE2, CHR 0x80, CHR 0x94] else t_name tmpl))"

definition card_of :: "instant \<Rightarrow> db \<Rightarrow> int \<Rightarrow> planner_placement \<Rightarrow> campaign \<Rightarrow> card" where
  "card_of now d interval p c =
     \<lparr>k_placement_id = p_id p, k_campaign_id = c_id c, k_card_name = c_name c,
      k_template_name = template_name d c, k_list_names = campaign_list_names d (c_id c),
      k_send_time = c_send_time c, k_send_timezone = c_send_timezone c,
      k_eligible = eligible_count now d (c_id c) interval, k_color = color_for (c_id c)\<rparr>"

definition cell_cards :: "instant \<Rightarrow> db \<Rightarrow> int \<Rightarrow> int \<Rightarrow> int \<Rightarrow> card list" where
  "cell_cards now d interval wk wd =
     concat (map (\<lambda>p. case get_campaign_row (p_campaign_id p) d of
                        None \<Rightarrow> [] | Some c \<Rightarrow> [card_of now d interval p c])
       (filter (\<lambda>p. p_week p = wk \<and> p_weekday p = wd) (placements d)))"

record cell =
  g_week :: int
  g_weekday :: int
  g_cards :: "card list"
  g_total :: int

definition grid_cell :: "instant \<Rightarrow> db \<Rightarrow> int \<Rightarrow> int \<Rightarrow> int \<Rightarrow> cell" where
  "grid_cell now d interval wk wd =
     (let cards = cell_cards now d interval wk wd
      in \<lparr>g_week = wk, g_weekday = wd, g_cards = cards, g_total = sum_list (map k_eligible cards)\<rparr>)"

record grid_view =
  gv_matrix :: "cell list list"
  gv_day_totals :: "int list"
  gv_daily_cap :: int
  gv_interval :: int

definition grid :: "instant \<Rightarrow> db \<Rightarrow> exn + grid_view" where
  "grid now d =
     and_then (cfg_int (get_planner_config d) ''frequency_interval_days'') (\<lambda>interval.
     and_then (current_daily_cap now d) (\<lambda>cap.
     let matrix = map (\<lambda>wk. map (grid_cell now d interval wk) [0, 1, 2, 3, 4]) [1, 2, 3, 4]
     in Inr \<lparr>gv_matrix = matrix,
             gv_day_totals = map (\<lambda>wd. sum_list (map (\<lambda>row. g_total (row ! nat wd)) matrix)) [0, 1, 2, 3, 4],
             gv_daily_cap = cap, gv_interval = interval\<rparr>))"

section \<open>Placements\<close>

definition in_grid :: "int \<Rightarrow> int \<Rightarrow> bool" where
  "in_grid wk wd = (1 \<le> wk \<and> wk \<le> 4 \<and> 0 \<le> wd \<and> wd \<le> 4)"

definition placement_at :: "db \<Rightarrow> id \<Rightarrow> int \<Rightarrow> int \<Rightarrow> planner_placement option" where
  "placement_at d campaign_id wk wd =
     find (\<lambda>p. p_campaign_id p = campaign_id \<and> p_week p = wk \<and> p_weekday p = wd) (placements d)"

definition add_placement :: "id \<Rightarrow> int \<Rightarrow> int \<Rightarrow> db \<Rightarrow> exn + id option \<times> db" where
  "add_placement campaign_id wk wd d =
     (if \<not> in_grid wk wd then Inr (None, d)
      else let fresh = next_id TPlacements d;
               insert = (if get_campaign_row campaign_id d = None then Inl IntegrityError
                         else Inr (Some fresh, bump_seq TPlacements (d\<lparr>placements := placements d @
                                [\<lparr>p_id = fresh, p_campaign_id = campaign_id, p_week = wk, p_weekday = wd\<rparr>]\<rparr>)))
           in case placement_at d campaign_id wk wd of
                Some p \<Rightarrow> if p_id p \<noteq> 0 then Inr (Some (p_id p), d) else insert
              | None \<Rightarrow> insert)"

definition remove_placement :: "id \<Rightarrow> db \<Rightarrow> bool \<times> db" where
  "remove_placement placement_id d =
     (row_by p_id placement_id (placements d) \<noteq> None,
      d\<lparr>placements := del_by p_id placement_id (placements d)\<rparr>)"

definition move_placement :: "id \<Rightarrow> int \<Rightarrow> int \<Rightarrow> db \<Rightarrow> bool \<times> db" where
  "move_placement placement_id wk wd d =
     (if \<not> in_grid wk wd then (False, d)
      else case row_by p_id placement_id (placements d) of
        None \<Rightarrow> (False, d)
      | Some p \<Rightarrow>
          let dup = find (\<lambda>q. p_campaign_id q = p_campaign_id p \<and> p_week q = wk \<and> p_weekday q = wd \<and>
                              p_id q \<noteq> placement_id) (placements d)
          in case dup of
               Some q \<Rightarrow>
                 if p_id q \<noteq> 0 then (True, d\<lparr>placements := del_by p_id placement_id (placements d)\<rparr>)
                 else (True, d\<lparr>placements := upd_by p_id placement_id (\<lambda>p. p\<lparr>p_week := wk, p_weekday := wd\<rparr>) (placements d)\<rparr>)
             | None \<Rightarrow>
                 (True, d\<lparr>placements := upd_by p_id placement_id (\<lambda>p. p\<lparr>p_week := wk, p_weekday := wd\<rparr>) (placements d)\<rparr>))"

section \<open>Recurring campaigns\<close>

record recurring_fields = campaign_fields +
  f_send_time :: "string option"
  f_send_timezone :: "string option"

definition create_recurring :: "instant \<Rightarrow> id list \<Rightarrow> recurring_fields \<Rightarrow> db \<Rightarrow> exn + campaign \<times> db" where
  "create_recurring now list_ids f d =
     and_then (insert_campaign
       ((blank_campaign (next_id TCampaigns d) now)\<lparr>
          c_name := py_strip (or_default (f_name f) ''Untitled service''),
          c_subject := or_default (f_subject f) [],
          c_from_name := or_default (f_from_name f) [],
          c_from_email := or_default (f_from_email f) [],
          c_reply_to := or_none (or_default (f_reply_to f) []),
          c_template_id := f_template_id f,
          c_ip_pool := f_ip_pool f,
          c_send_time := Some (or_default (f_send_time f) ''09:00''),
          c_send_timezone := Some (or_default (f_send_timezone f) ''Europe/Tirana''),
          c_is_planner := True,
          c_status := Planner\<rparr>) d) (\<lambda>(c, d1).
     if \<exists>l \<in> set list_ids. l \<noteq> 0 \<and> get_list_row l d = None then Inl IntegrityError
     else Inr (c, set_campaign_lists (c_id c) list_ids d1))"

definition set_recurring_fields :: "recurring_fields \<Rightarrow> campaign \<Rightarrow> campaign" where
  "set_recurring_fields f c =
     c\<lparr>c_name := (case f_name f of None \<Rightarrow> c_name c | Some v \<Rightarrow> v),
       c_subject := (case f_subject f of None \<Rightarrow> c_subject c | Some v \<Rightarrow> v),
       c_from_name := (case f_from_name f of None \<Rightarrow> c_from_name c | Some v \<Rightarrow> v),
       c_from_email := (case f_from_email f of None \<Rightarrow> c_from_email c | Some v \<Rightarrow> v),
       c_reply_to := (case f_reply_to f of None \<Rightarrow> c_reply_to c | Some v \<Rightarrow> or_none v),
       c_template_id := (case f_template_id f of None \<Rightarrow> c_template_id c | Some v \<Rightarrow> Some v),
       c_ip_pool := (case f_ip_pool f of None \<Rightarrow> c_ip_pool c | Some v \<Rightarrow> Some v),
       c_send_time := (case f_send_time f of None \<Rightarrow> c_send_time c | Some v \<Rightarrow> Some v),
       c_send_timezone := (case f_send_timezone f of None \<Rightarrow> c_send_timezone c | Some v \<Rightarrow> Some v)\<rparr>"

definition update_recurring ::
  "id \<Rightarrow> id list option \<Rightarrow> recurring_fields \<Rightarrow> db \<Rightarrow> exn + campaign option \<times> db" where
  "update_recurring campaign_id list_ids f d =
     (case get_campaign_row campaign_id d of
        None \<Rightarrow> Inr (None, d)
      | Some c \<Rightarrow>
          if \<not> c_is_planner c then Inr (None, d)
          else let c' = set_recurring_fields f c;
                   d1 = upd_campaign campaign_id (set_recurring_fields f) d
            in if \<not> refs_ok d c' then Inl IntegrityError
               else case list_ids of
                 None \<Rightarrow> Inr (Some c', d1)
               | Some ls \<Rightarrow>
                   if \<exists>l \<in> set ls. l \<noteq> 0 \<and> get_list_row l d = None then Inl IntegrityError
                   else Inr (Some c', set_campaign_lists campaign_id ls d1))"

definition delete_recurring :: "id \<Rightarrow> db \<Rightarrow> bool \<times> db" where
  "delete_recurring campaign_id d =
     (case get_campaign_row campaign_id d of
        None \<Rightarrow> (False, d)
      | Some c \<Rightarrow> if \<not> c_is_planner c then (False, d) else (True, delete_campaign_row campaign_id d))"

section \<open>Lemmas\<close>

text \<open>What the table promises: distinct keys, cells inside the grid, a campaign once per cell.\<close>

definition placements_ok :: "db \<Rightarrow> bool" where
  "placements_ok d \<longleftrightarrow>
     distinct (map p_id (placements d)) \<and>
     (\<forall>p \<in> set (placements d). 0 < p_id p \<and> p_id p \<le> seqs d TPlacements \<and> in_grid (p_week p) (p_weekday p)) \<and>
     distinct (map (\<lambda>p. (p_campaign_id p, p_week p, p_weekday p)) (placements d))"

lemma placement_at_None:
  "placement_at d c wk wd = None \<longleftrightarrow>
     (c, wk, wd) \<notin> (\<lambda>p. (p_campaign_id p, p_week p, p_weekday p)) ` set (placements d)"
  by (auto simp: placement_at_def find_None_iff)

lemma placement_at_Some:
  "placement_at d c wk wd = Some p \<Longrightarrow>
     p \<in> set (placements d) \<and> p_campaign_id p = c \<and> p_week p = wk \<and> p_weekday p = wd"
  by (auto simp: placement_at_def find_Some_iff)

lemma add_placement_cases:
  assumes "placements_ok d" "add_placement c wk wd d = Inr (r, d')"
  shows "(d' = d \<and> (r = None \<and> \<not> in_grid wk wd \<or>
                    (\<exists>p. r = Some (p_id p) \<and> placement_at d c wk wd = Some p))) \<or>
    (in_grid wk wd \<and> placement_at d c wk wd = None \<and> r = Some (next_id TPlacements d) \<and>
     d' = bump_seq TPlacements (d\<lparr>placements := placements d @
            [\<lparr>p_id = next_id TPlacements d, p_campaign_id = c, p_week = wk, p_weekday = wd\<rparr>]\<rparr>))"
proof (cases "placement_at d c wk wd")
  case None
  with assms(2) show ?thesis by (auto simp: add_placement_def Let_def split: if_splits)
next
  case (Some p)
  then have "p_id p \<noteq> 0" using assms(1) placement_at_Some by (fastforce simp: placements_ok_def)
  with Some assms(2) show ?thesis by (auto simp: add_placement_def Let_def split: if_splits)
qed

lemma add_placement_ok [inv_intros]:
  assumes "placements_ok d" "add_placement c wk wd d = Inr (r, d')" "0 \<le> seqs d TPlacements"
  shows "placements_ok d'"
proof -
  have fresh: "seqs d TPlacements + 1 \<notin> p_id ` set (placements d)"
    using assms(1) by (force simp: placements_ok_def)
  from add_placement_cases [OF assms(1,2)] show ?thesis
  proof
    assume "in_grid wk wd \<and> placement_at d c wk wd = None \<and> r = Some (next_id TPlacements d) \<and>
      d' = bump_seq TPlacements (d\<lparr>placements := placements d @
            [\<lparr>p_id = next_id TPlacements d, p_campaign_id = c, p_week = wk, p_weekday = wd\<rparr>]\<rparr>)"
    with fresh assms(1,3) show ?thesis
      by (auto simp: placements_ok_def next_id_def placement_at_None)
  qed (use assms(1) in auto)
qed

lemma move_placement_ok [inv_intros]:
  assumes ok: "placements_ok d"
  shows "placements_ok (snd (move_placement i wk wd d))"
proof (cases "in_grid wk wd \<and> row_by p_id i (placements d) \<noteq> None")
  case False
  then show ?thesis using ok by (auto simp: move_placement_def)
next
  case True
  then obtain p where p: "row_by p_id i (placements d) = Some p" by auto
  let ?f = "\<lambda>p. p\<lparr>p_week := wk, p_weekday := wd\<rparr>"
  let ?dup = "\<lambda>q. p_campaign_id q = p_campaign_id p \<and> p_week q = wk \<and> p_weekday q = wd \<and> p_id q \<noteq> i"
  have ids: "distinct (map p_id (placements d))" using ok by (simp add: placements_ok_def)
  have del: "placements_ok (d\<lparr>placements := del_by p_id i (placements d)\<rparr>)"
    using ok by (auto simp: placements_ok_def set_del_by distinct_del_by)
  show ?thesis
  proof (cases "find ?dup (placements d)")
    case (Some q)
    then have "q \<in> set (placements d)" by (auto simp: find_Some_iff)
    then have "p_id q \<noteq> 0" using ok by (fastforce simp: placements_ok_def)
    with Some True p del show ?thesis by (simp add: move_placement_def)
  next
    case None
    let ?key = "\<lambda>p. (p_campaign_id p, p_week p, p_weekday p)"
    have pi: "p \<in> set (placements d)" "p_id p = i" using row_by_SomeD [OF p] by auto
    have only: "r = p" if "r \<in> set (placements d)" "p_id r = i" for r
      using ids that pi by (auto simp: distinct_map inj_on_def)
    have clash: "?key r \<noteq> (p_campaign_id p, wk, wd)" if "r \<in> set (placements d)" "p_id r \<noteq> i" for r
      using None that by (auto simp: find_None_iff)
    have "distinct (map ?key (upd_by p_id i ?f (placements d)))"
    proof -
      have "inj_on ?key (set (upd_by p_id i ?f (placements d)))"
      proof (rule inj_onI)
        fix a b assume "a \<in> set (upd_by p_id i ?f (placements d))" "b \<in> set (upd_by p_id i ?f (placements d))"
          and eq: "?key a = ?key b"
        then obtain r s where r: "r \<in> set (placements d)" "a = (if p_id r = i then ?f r else r)"
          and s: "s \<in> set (placements d)" "b = (if p_id s = i then ?f s else s)"
          by (auto simp: set_upd_by)
        have inj: "?key r = ?key s \<Longrightarrow> r = s"
          using ok r(1) s(1) by (auto simp: placements_ok_def distinct_map inj_on_def)
        show "a = b"
        proof (cases "p_id r = i"; cases "p_id s = i")
          assume "p_id r = i" "p_id s = i"
          with only [OF r(1)] only [OF s(1)] r(2) s(2) show ?thesis by simp
        next
          assume "p_id r = i" "p_id s \<noteq> i"
          with only [OF r(1)] clash [OF s(1)] r(2) s(2) eq show ?thesis by auto
        next
          assume "p_id r \<noteq> i" "p_id s = i"
          with only [OF s(1)] clash [OF r(1)] r(2) s(2) eq show ?thesis by auto
        next
          assume "p_id r \<noteq> i" "p_id s \<noteq> i"
          with inj r(2) s(2) eq show ?thesis by auto
        qed
      qed
      moreover have "distinct (upd_by p_id i ?f (placements d))"
        using ids map_upd_by [of p_id ?f p_id i "placements d"] by (metis (no_types, lifting) distinct_map planner_placement.select_convs(1) planner_placement.surjective planner_placement.update_convs(3,4))
      ultimately show ?thesis by (simp add: distinct_map)
    qed
    then have "placements_ok (d\<lparr>placements := upd_by p_id i ?f (placements d)\<rparr>)"
      using ok True by (auto simp: placements_ok_def map_upd_by set_upd_by)
    with None True p show ?thesis by (simp add: move_placement_def)
  qed
qed

lemma remove_placement_ok [inv_intros]: "placements_ok d \<Longrightarrow> placements_ok (snd (remove_placement i d))"
  by (auto simp: remove_placement_def placements_ok_def set_del_by distinct_del_by)

text \<open>The number on a card is the number of recipients a fresh run would hold pending.\<close>

lemma contact_join_unmatched:
  "filter (\<lambda>j. \<not> j_suppressed j \<and> P (ct_id (j_contact j))) (contact_join d ls) =
   map (join_of d) (filter (\<lambda>ct. ct_email ct \<notin> suppressed_set d \<and> P (ct_id ct)) (sendable_contacts d ls))"
proof -
  have cell: "filter (\<lambda>j. \<not> j_suppressed j \<and> P (ct_id (j_contact j)))
      (let matches = filter (\<lambda>s. s_email s = ct_email ct) (suppressions d) in
       if matches = [] then [\<lparr>j_contact = ct, j_suppressed = False\<rparr>]
       else map (\<lambda>_. \<lparr>j_contact = ct, j_suppressed = True\<rparr>) matches) =
    (if ct_email ct \<notin> suppressed_set d \<and> P (ct_id ct) then [join_of d ct] else [])" for ct
  proof (cases "ct_email ct \<in> suppressed_set d")
    case True
    then have "filter (\<lambda>s. s_email s = ct_email ct) (suppressions d) \<noteq> []"
      by (auto simp: suppressed_set_def filter_empty_conv)
    with True show ?thesis by (auto simp: Let_def filter_empty_conv)
  next
    case False
    then have "filter (\<lambda>s. s_email s = ct_email ct) (suppressions d) = []"
      by (auto simp: suppressed_set_def filter_empty_conv) (metis image_eqI)
    with False show ?thesis by (simp add: Let_def join_of_def)
  qed
  have "filter (\<lambda>j. \<not> j_suppressed j \<and> P (ct_id (j_contact j)))
      (concat (map (\<lambda>ct. let matches = filter (\<lambda>s. s_email s = ct_email ct) (suppressions d) in
         if matches = [] then [\<lparr>j_contact = ct, j_suppressed = False\<rparr>]
         else map (\<lambda>_. \<lparr>j_contact = ct, j_suppressed = True\<rparr>) matches) cts)) =
    map (join_of d) (filter (\<lambda>ct. ct_email ct \<notin> suppressed_set d \<and> P (ct_id ct)) cts)" for cts
    by (induction cts) (simp_all add: cell)
  then show ?thesis by (simp add: contact_join_def sendable_contacts_def)
qed

lemma eligible_count_contacts:
  "eligible_count now d cid n =
     int (length (filter (\<lambda>ct. ct_email ct \<notin> suppressed_set d \<and> ct_id ct \<notin> ineligible_contact_ids now d cid n)
       (sendable_contacts d (get_campaign_list_ids d cid))))"
  unfolding eligible_count_def Let_def
  by (auto simp: contact_join_unmatched [where P = "\<lambda>i. i \<notin> ineligible_contact_ids now d cid n"]
      sendable_contacts_def filter_empty_conv split: option.splits)

section \<open>Properties\<close>

text \<open>
  C40: The grid keeps its shape under every edit: adding, moving or removing a placement leaves
  every placement inside the 4 x 5 grid and a campaign at most once in a cell, and a move onto
  an occupied cell merges the two.
\<close>

theorem placements_invariant:
  assumes "placements_ok d" "0 \<le> seqs d TPlacements"
    and "add_placement c wk wd d = Inr (r, d') \<or> d' \<in> {snd (move_placement i wk wd d), snd (remove_placement i d)}"
  shows "placements_ok d'"
  using assms add_placement_ok move_placement_ok remove_placement_ok by blast

theorem placements_invariant_witness:
  "placements_ok (snd (move_placement 1 4 4 (empty_db\<lparr>placements :=
     [\<lparr>p_id = 1, p_campaign_id = 1, p_week = 1, p_weekday = 0\<rparr>, \<lparr>p_id = 2, p_campaign_id = 1, p_week = 4, p_weekday = 4\<rparr>],
     seqs := (\<lambda>_. 2)\<rparr>)))"
  by (rule placements_invariant) (auto simp: placements_ok_def in_grid_def)

text \<open>
  The number on a planner card is exact: it is the number of recipients a run of that
  campaign materialized at that instant would hold pending.
\<close>

theorem card_counts_next_run:
  assumes "get_campaign_row run d = Some c" "c_status c = Sending" "c_parent_campaign_id c = Some cid"
    and "existing_contacts d run = {}" "distinct (map ct_id (contacts d))"
    and "cfg_int (get_planner_config d) ''frequency_interval_days'' = Inr n"
    and "campaign_list_ids_sync d run = get_campaign_list_ids d cid" "get_campaign_list_ids d cid \<noteq> []"
  shows "\<exists>res d'. materialize_db now run d = Inr (res, d') \<and> pending_count d' run = eligible_count now d cid n"
proof -
  have inel: "ineligible_of now d c = Inr (ineligible_contact_ids now d cid n)"
    by (simp add: ineligible_of_def assms(3,6))
  have none: "pending_count d run = 0"
    using assms(4) by (auto simp: pending_count_def count_rows_zero_iff pending_row_def existing_contacts_def filter_empty_conv)
  let ?new = "map (new_entry d run (ineligible_contact_ids now d cid n)) (sendable_contacts d (get_campaign_list_ids d cid))"
  obtain res d' where m: "materialize_db now run d = Inr (MatDone res, d')"
    and led: "map ledger_entry (recipients d') = map ledger_entry (recipients d) @ ?new"
    using materialize_ledger [OF assms(1,2) _ inel assms(5)] assms(4,7,8) by (auto simp: filter_True)
  have pend: "pending_count x run = int (length (filter (\<lambda>e. fst e = run \<and> snd (snd (snd e)) = RPending)
      (map ledger_entry (recipients x))))" for x
    by (simp add: pending_count_def count_rows_def filter_map comp_def pending_row_def [abs_def] ledger_entry_def)
  have "pending_count d' run = pending_count d run + int (length (filter (\<lambda>e. fst e = run \<and> snd (snd (snd e)) = RPending) ?new))"
    by (simp add: pend led)
  also have "\<dots> = eligible_count now d cid n"
    unfolding eligible_count_contacts none
    by (simp add: filter_map comp_def new_entry_def) (auto intro!: arg_cong [where f = length] filter_cong)
  finally show ?thesis using m by blast
qed

text \<open>A run of a recurring campaign over one list with a sendable and a suppressed contact.\<close>

definition run_db :: db where
  "run_db = empty_db\<lparr>campaigns := [(blank_campaign 1 0)\<lparr>c_is_planner := True, c_status := Planner\<rparr>,
       (blank_campaign 2 0)\<lparr>c_parent_campaign_id := Some 1, c_status := Sending\<rparr>],
     campaign_lists := [\<lparr>cl_id = 1, cl_campaign_id = 1, cl_list_id = 5\<rparr>, \<lparr>cl_id = 2, cl_campaign_id = 2, cl_list_id = 5\<rparr>],
     contacts := [\<lparr>ct_id = 1, ct_email = ''a@x.com'', ct_first_name = None, ct_last_name = None, ct_custom_fields = [],
         ct_status = Active, ct_verification_result = Valid, ct_list_id = Some 5\<rparr>,
       \<lparr>ct_id = 2, ct_email = ''b@x.com'', ct_first_name = None, ct_last_name = None, ct_custom_fields = [],
         ct_status = Active, ct_verification_result = Valid, ct_list_id = Some 5\<rparr>],
     suppressions := [\<lparr>s_id = 1, s_email = ''b@x.com'', s_reason = Manual, s_detail = None\<rparr>]\<rparr>"

theorem card_counts_next_run_witness:
  "\<exists>res d'. materialize_db 0 2 run_db = Inr (res, d') \<and> pending_count d' 2 = eligible_count 0 run_db 1 30"
proof (rule card_counts_next_run)
  show "get_campaign_row 2 run_db = Some ((blank_campaign 2 0)\<lparr>c_parent_campaign_id := Some 1, c_status := Sending\<rparr>)"
    by (simp add: get_campaign_row_def run_db_def blank_campaign_def)
  show "existing_contacts run_db 2 = {}" by (simp add: existing_contacts_def run_db_def empty_db_def)
  show "distinct (map ct_id (contacts run_db))" by (simp add: run_db_def)
  show "cfg_int (get_planner_config run_db) ''frequency_interval_days'' = Inr 30" by code_simp
  show "campaign_list_ids_sync run_db 2 = get_campaign_list_ids run_db 1" by code_simp
  show "get_campaign_list_ids run_db 1 \<noteq> []" by code_simp
qed simp_all

end
