(* ===== verification/Lists.thy ===== *)
theory Lists
  imports Suppression "HOL-Library.List_Lexorder" "HOL-Library.Char_ord"
begin

text \<open>
  List and contact management (\<open>app/services/lists.py\<close>), the global search-and-delete tool
  included.  Deleting contacts clears \<open>contact_id\<close> of their recipient rows and cascades to
  the frequency log; a list that a campaign names in \<open>list_id\<close> cannot be deleted
  (\<open>ON DELETE RESTRICT\<close>).  Text is ordered by code point.
\<close>

section \<open>Lists\<close>

definition create_list ::
  "instant \<Rightarrow> string \<Rightarrow> string option \<Rightarrow> string option \<Rightarrow> id option \<Rightarrow> db \<Rightarrow> contact_list \<times> db" where
  "create_list now name description source_filename created_by d =
     (let lst = \<lparr>l_id = next_id TContactLists d,
                 l_name = (if py_strip name = [] then ''Untitled list'' else py_strip name),
                 l_description = description, l_source_filename = source_filename,
                 l_created_by = created_by, l_contact_count = 0, l_verification_status = LPending,
                 l_verification_summary = None, l_import_summary = None,
                 l_free_provider_filter_applied = False, l_created_at = now\<rparr>
      in (lst, bump_seq TContactLists (d\<lparr>contact_lists := contact_lists d @ [lst]\<rparr>)))"

definition list_lists :: "db \<Rightarrow> contact_list list" where
  "list_lists d = rev (sort_key l_created_at (contact_lists d))"

definition delete_contacts :: "(contact \<Rightarrow> bool) \<Rightarrow> db \<Rightarrow> db" where
  "delete_contacts P d =
     (let gone = set (map ct_id (filter P (contacts d)))
      in d\<lparr>contacts := filter (\<lambda>c. \<not> P c) (contacts d),
           recipients := map (\<lambda>r. case cr_contact_id r of
                                    Some i \<Rightarrow> if i \<in> gone then r\<lparr>cr_contact_id := None\<rparr> else r
                                  | None \<Rightarrow> r) (recipients d),
           contact_sends := filter (\<lambda>s. cs_contact_id s \<notin> gone) (contact_sends d)\<rparr>)"

definition delete_list :: "id \<Rightarrow> db \<Rightarrow> exn + bool \<times> db" where
  "delete_list list_id d =
     (case get_list_row list_id d of
        None \<Rightarrow> Inr (False, d)
      | Some lst \<Rightarrow>
          if \<exists>c \<in> set (campaigns d). c_list_id c = Some list_id then Inl IntegrityError
          else let d1 = delete_contacts (\<lambda>ct. ct_list_id ct = Some list_id) d in
            Inr (True, d1\<lparr>contact_lists := del_by l_id list_id (contact_lists d1),
                          campaign_lists := filter (\<lambda>r. cl_list_id r \<noteq> list_id) (campaign_lists d1)\<rparr>))"

definition list_contacts :: "db \<Rightarrow> id \<Rightarrow> nat \<Rightarrow> nat \<Rightarrow> contact list \<times> int" where
  "list_contacts d list_id offset limit =
     (let mine = filter (\<lambda>ct. ct_list_id ct = Some list_id) (contacts d)
      in (take limit (drop offset (sort_key ct_email mine)), int (length mine)))"

section \<open>Contacts\<close>

definition opt_nonempty :: "string option \<Rightarrow> string option" where
  "opt_nonempty v = (case v of None \<Rightarrow> None | Some s \<Rightarrow> if s = [] then None else Some s)"

definition new_contact ::
  "id \<Rightarrow> string \<Rightarrow> string option \<Rightarrow> string option \<Rightarrow> custom_fields \<Rightarrow> id \<Rightarrow> contact" where
  "new_contact i email first_name last_name custom list_id =
     \<lparr>ct_id = i, ct_email = email, ct_first_name = first_name, ct_last_name = last_name,
      ct_custom_fields = custom, ct_status = Active, ct_verification_result = VPending,
      ct_list_id = Some list_id\<rparr>"

definition insert_contact ::
  "string \<Rightarrow> string option \<Rightarrow> string option \<Rightarrow> custom_fields \<Rightarrow> id \<Rightarrow> db \<Rightarrow> db" where
  "insert_contact email first_name last_name custom list_id d =
     bump_seq TContacts (d\<lparr>contacts := contacts d @
       [new_contact (next_id TContacts d) email first_name last_name custom list_id]\<rparr>)"

definition recount_list :: "id \<Rightarrow> db \<Rightarrow> db" where
  "recount_list list_id d =
     upd_list list_id
       (\<lambda>l. l\<lparr>l_contact_count := count_rows (\<lambda>ct. ct_list_id ct = Some list_id) (contacts d)\<rparr>) d"

definition add_contact ::
  "email_validator \<Rightarrow> id \<Rightarrow> string \<Rightarrow> string option \<Rightarrow> string option \<Rightarrow> db \<Rightarrow> exn + (bool \<times> string) \<times> db" where
  "add_contact ve list_id email first_name last_name d =
     (case accepted_address (validate_syntax ve (Some email)) of
        None \<Rightarrow> Inr ((False, ''invalid''), d)
      | Some nrm \<Rightarrow>
          if is_suppressed_async d nrm then Inr ((False, ''suppressed''), d)
          else if row_by ct_email nrm (contacts d) \<noteq> None then Inr ((False, ''duplicate''), d)
          else if get_list_row list_id d = None then Inl IntegrityError
          else Inr ((True, ''added''),
                    recount_list list_id
                      (insert_contact nrm (opt_nonempty first_name) (opt_nonempty last_name) [] list_id d)))"

section \<open>Search and delete\<close>

text \<open>SQL \<open>LIKE\<close>: \<open>%\<close> any text, \<open>_\<close> any character, a backslash escapes the next character.\<close>

fun sql_like :: "string \<Rightarrow> string \<Rightarrow> bool" where
  "sql_like [] s = (s = [])"
| "sql_like (p # ps) s =
     (if p = CHR ''%'' then sql_like ps s \<or> (case s of [] \<Rightarrow> False | _ # cs \<Rightarrow> sql_like (p # ps) cs)
      else if p = CHR 0x5C then
        (case ps of [] \<Rightarrow> False
         | q # qs \<Rightarrow> (case s of [] \<Rightarrow> False | c # cs \<Rightarrow> c = q \<and> sql_like qs cs))
      else (case s of [] \<Rightarrow> False | c # cs \<Rightarrow> (p = CHR ''_'' \<or> c = p) \<and> sql_like ps cs))"

record search_hit =
  h_email :: string
  h_contact :: "contact option"
  h_list_name :: "string option"
  h_suppressed :: bool
  h_reason :: "suppression_reason option"

definition list_name_of :: "db \<Rightarrow> contact \<Rightarrow> string option" where
  "list_name_of d ct =
     (case ct_list_id ct of None \<Rightarrow> None | Some l \<Rightarrow> map_option l_name (get_list_row l d))"

definition hit_of :: "db \<Rightarrow> contact \<Rightarrow> search_hit" where
  "hit_of d ct =
     (let supp = row_by s_email (ct_email ct) (suppressions d)
      in \<lparr>h_email = ct_email ct, h_contact = Some ct, h_list_name = list_name_of d ct,
          h_suppressed = (supp \<noteq> None), h_reason = map_option s_reason supp\<rparr>)"

definition search_contacts :: "db \<Rightarrow> string \<Rightarrow> nat \<Rightarrow> search_hit list" where
  "search_contacts d query limit =
     (let q = py_lower (py_strip query) in
      if q = [] then []
      else let found = take limit (sort_key ct_email
                 (filter (\<lambda>ct. ct_email ct = q \<or> sql_like (''%'' @ q @ ''%'') (ct_email ct)) (contacts d)));
               hits = map (hit_of d) found
           in if list_ex (\<lambda>h. h_email h = q) hits then hits
              else case row_by s_email q (suppressions d) of
                     None \<Rightarrow> hits
                   | Some s \<Rightarrow> \<lparr>h_email = q, h_contact = None, h_list_name = None, h_suppressed = True,
                                h_reason = Some (s_reason s)\<rparr> # hits)"

definition remove_and_suppress :: "db option \<Rightarrow> string \<Rightarrow> db \<Rightarrow> bool \<times> db" where
  "remove_and_suppress race email d =
     (case normalize_email (Some email) of
        None \<Rightarrow> (False, d)
      | Some nrm \<Rightarrow>
          (True, delete_contacts (\<lambda>ct. ct_email ct = nrm)
                   (snd (suppress_async race d nrm Manual (Some ''manual removal'') True))))"

definition suppress_only :: "db option \<Rightarrow> string \<Rightarrow> string \<Rightarrow> db \<Rightarrow> bool \<times> db" where
  "suppress_only race email reason d =
     (case normalize_email (Some email) of
        None \<Rightarrow> (False, d)
      | Some nrm \<Rightarrow>
          let r = (case suppression_reason_of reason of Inl _ \<Rightarrow> Manual | Inr r \<Rightarrow> r)
          in (True, snd (suppress_async race d nrm r (Some ''manual suppression'') True)))"

section \<open>Lemmas\<close>

text \<open>
  The contact table: one row for an address in the whole system, canonical addresses, keys
  below the sequence.
\<close>

definition contacts_ok :: "db \<Rightarrow> bool" where
  "contacts_ok d \<longleftrightarrow>
     distinct (map ct_id (contacts d)) \<and> distinct (map ct_email (contacts d)) \<and>
     (\<forall>ct \<in> set (contacts d). ct_id ct \<le> seqs d TContacts \<and> canonical (ct_email ct))"

lemma contacts_ok_frame:
  "contacts d' = contacts d \<Longrightarrow> seqs d' TContacts = seqs d TContacts \<Longrightarrow> contacts_ok d' = contacts_ok d"
  by (simp add: contacts_ok_def)

lemma insert_contact_frame [frame, simp]:
  "suppressions (insert_contact e f l c i d) = suppressions d" "campaigns (insert_contact e f l c i d) = campaigns d"
  "recipients (insert_contact e f l c i d) = recipients d"
  "contact_lists (insert_contact e f l c i d) = contact_lists d"
  "app_settings (insert_contact e f l c i d) = app_settings d"
  "seqs (insert_contact e f l c i d) TRecipients = seqs d TRecipients"
  by (simp_all add: insert_contact_def)

lemma insert_contact_contacts [simp]:
  "contacts (insert_contact e f l c i d) = contacts d @ [new_contact (next_id TContacts d) e f l c i]"
  by (simp add: insert_contact_def)

lemma new_contact_simps [simp]:
  "ct_id (new_contact n e f l c i) = n" "ct_email (new_contact n e f l c i) = e"
  "ct_status (new_contact n e f l c i) = Active" "ct_list_id (new_contact n e f l c i) = Some i"
  by (simp_all add: new_contact_def)

lemma insert_contact_ok [inv_intros]:
  assumes "contacts_ok d" "e \<notin> ct_email ` set (contacts d)" "canonical e"
  shows "contacts_ok (insert_contact e f l c i d)"
proof -
  have "seqs d TContacts + 1 \<notin> ct_id ` set (contacts d)" using assms(1) by (force simp: contacts_ok_def)
  moreover have "seqs (insert_contact e f l c i d) TContacts = seqs d TContacts + 1"
    by (simp add: insert_contact_def)
  ultimately show ?thesis
    using assms by (auto simp: contacts_ok_def next_id_def)
qed

lemma recount_list_frame [frame, simp]:
  "contacts (recount_list i d) = contacts d" "suppressions (recount_list i d) = suppressions d"
  "recipients (recount_list i d) = recipients d" "campaigns (recount_list i d) = campaigns d"
  "seqs (recount_list i d) = seqs d"
  by (simp_all add: recount_list_def)

lemma delete_contacts_ok [inv_intros]: "contacts_ok d \<Longrightarrow> contacts_ok (delete_contacts P d)"
  by (auto simp: contacts_ok_def delete_contacts_def Let_def distinct_map_filter)

lemma delete_contacts_frame [frame, simp]:
  "suppressions (delete_contacts P d) = suppressions d" "campaigns (delete_contacts P d) = campaigns d"
  "seqs (delete_contacts P d) = seqs d" "contacts (delete_contacts P d) = filter (\<lambda>c. \<not> P c) (contacts d)"
  "contact_lists (delete_contacts P d) = contact_lists d" "campaign_lists (delete_contacts P d) = campaign_lists d"
  by (simp_all add: delete_contacts_def Let_def)

lemma suppress_sync_contacts_ok [inv_intros]:
  "contacts_ok d \<Longrightarrow> contacts_ok (snd (suppress_sync None d e r det upd))"
proof -
  assume ok: "contacts_ok d"
  have "seqs (snd (suppress_sync None d e r det upd)) TContacts = seqs d TContacts"
    by (simp add: suppress_sync_def Let_def insert_suppression_def split: option.split)
  moreover have "map ct_id (contacts (snd (suppress_sync None d e r det upd))) = map ct_id (contacts d)"
    "map ct_email (contacts (snd (suppress_sync None d e r det upd))) = map ct_email (contacts d)"
    by (rule map_ct_suppress_sync; simp)+
  moreover from this have "ct_id ` set (contacts (snd (suppress_sync None d e r det upd))) = ct_id ` set (contacts d)"
    "ct_email ` set (contacts (snd (suppress_sync None d e r det upd))) = ct_email ` set (contacts d)"
    by (metis list.set_map)+
  ultimately show ?thesis
    using ok unfolding contacts_ok_def by (metis (no_types, lifting) image_iff)
qed

lemma add_contact_Inr:
  assumes "validator_wf ve" "contacts_ok d" "add_contact ve i e f l d = Inr (res, d')"
  shows "contacts_ok d' \<and>
    (if fst res then \<exists>n ct. accepted_address (validate_syntax ve (Some e)) = Some n \<and> \<not> is_suppressed_sync d n \<and>
        contacts d' = contacts d @ [ct] \<and> ct_email ct = n \<and> ct_list_id ct = Some i
     else contacts d' = contacts d)"
proof (cases "fst res")
  case False
  with assms(2,3) show ?thesis
    by (auto simp: add_contact_def split: option.splits if_splits)
next
  case True
  with assms(3) obtain n where n: "accepted_address (validate_syntax ve (Some e)) = Some n"
    and ns: "\<not> is_suppressed_sync d n" and fresh: "row_by ct_email n (contacts d) = None"
    and d': "d' = recount_list i (insert_contact n (opt_nonempty f) (opt_nonempty l) [] i d)"
    by (auto simp: add_contact_def is_suppressed_async_eq split: option.splits if_splits)
  have "contacts_ok (insert_contact n (opt_nonempty f) (opt_nonempty l) [] i d)"
    using insert_contact_ok [OF assms(2)] fresh validate_syntax_canonical [OF assms(1) n]
    by (simp add: row_by_None_iff)
  then have "contacts_ok d'" by (simp add: d' contacts_ok_def)
  with True n ns show ?thesis by (auto simp: d')
qed

lemma remove_and_suppress_effect:
  assumes "normalize_email (Some e) = Some n"
  shows "n \<notin> ct_email ` set (contacts (snd (remove_and_suppress None e d)))"
    "suppressed_set (snd (remove_and_suppress None e d)) = insert n (suppressed_set d)"
proof -
  show "n \<notin> ct_email ` set (contacts (snd (remove_and_suppress None e d)))"
    by (auto simp: remove_and_suppress_def assms)
  have "suppressed_set (delete_contacts P d') = suppressed_set d'" for P d'
    by (simp add: suppressed_set_def)
  then show "suppressed_set (snd (remove_and_suppress None e d)) = insert n (suppressed_set d)"
    using normalize_email_idem [OF assms]
    by (simp add: remove_and_suppress_def assms suppress_async_eq suppress_sync_set)
qed

lemma suppress_only_effect:
  assumes "normalize_email (Some e) = Some n"
  shows "suppressed_set (snd (suppress_only None e r d)) = insert n (suppressed_set d)"
  using normalize_email_idem [OF assms]
  by (simp add: suppress_only_def assms suppress_async_eq suppress_sync_set Let_def)

section \<open>Properties\<close>

text \<open>
  Removing an address leaves no trace that could be mailed: no contact row with it in any
  spelling the form accepts, the address on the suppression list, the contact table still one
  row for an address, and every past recipient row kept (with its contact cleared).
\<close>

theorem remove_and_suppress_exact:
  assumes "normalize_email (Some e) = Some n" "contacts_ok d"
  shows "let d' = snd (remove_and_suppress None e d) in
    n \<notin> ct_email ` set (contacts d') \<and> is_suppressed_sync d' e \<and> contacts_ok d' \<and>
    map (\<lambda>r. (cr_id r, cr_status r, cr_email_snapshot r)) (recipients d') =
    map (\<lambda>r. (cr_id r, cr_status r, cr_email_snapshot r)) (recipients d)"
proof -
  let ?s = "snd (suppress_async None d n Manual (Some ''manual removal'') True)"
  have eq: "snd (remove_and_suppress None e d) = delete_contacts (\<lambda>ct. ct_email ct = n) ?s"
    by (simp add: remove_and_suppress_def assms(1))
  have "contacts_ok ?s" using suppress_sync_contacts_ok [OF assms(2)] by (simp add: suppress_async_eq)
  then have "contacts_ok (snd (remove_and_suppress None e d))" unfolding eq by (rule delete_contacts_ok)
  moreover have "map (\<lambda>r. (cr_id r, cr_status r, cr_email_snapshot r)) (recipients (delete_contacts P x)) =
      map (\<lambda>r. (cr_id r, cr_status r, cr_email_snapshot r)) (recipients x)" for P x
    by (auto simp: delete_contacts_def Let_def split: option.split)
  moreover have "recipients ?s = recipients d" by (simp add: suppress_async_eq)
  ultimately show ?thesis
    using remove_and_suppress_effect(2) [OF assms(1), of d] by (auto simp: eq is_suppressed_sync_iff assms(1))
qed

theorem remove_and_suppress_exact_witness:
  "is_suppressed_sync (snd (remove_and_suppress None '' A@x.com'' empty_db)) '' A@x.com''"
proof -
  have "normalize_email (Some '' A@x.com'') = Some ''a@x.com''" by code_simp
  moreover have "contacts_ok empty_db" by (simp add: contacts_ok_def empty_db_def)
  ultimately show ?thesis using remove_and_suppress_exact by (metis (no_types, lifting))
qed

text \<open>
  C39: A contact added by hand obeys the import rules: it is stored only when its syntax is
  valid, it is not suppressed and no list has it yet, and then the table keeps one canonical
  row for an address; every refusal leaves the contacts as they were.
\<close>

theorem add_contact_rules:
  assumes "validator_wf ve" "contacts_ok d" "add_contact ve i e f l d = Inr (res, d')"
  shows "contacts_ok d' \<and>
    (if fst res then \<exists>n ct. accepted_address (validate_syntax ve (Some e)) = Some n \<and> \<not> is_suppressed_sync d n \<and>
        contacts d' = contacts d @ [ct] \<and> ct_email ct = n \<and> ct_list_id ct = Some i
     else contacts d' = contacts d)"
  using assms by (rule add_contact_Inr)

text \<open>A validator for the witness: it accepts what is already canonical.\<close>

definition plain_validator :: email_validator where
  "plain_validator v = (if py_strip v = v \<and> CHR ''@'' \<in> set v then Inr v else Inl ''invalid'')"

theorem add_contact_rules_witness:
  "contacts_ok empty_db \<and> \<not> is_suppressed_sync empty_db ''a@x.com''"
proof -
  let ?d = "empty_db\<lparr>contact_lists := [\<lparr>l_id = 1, l_name = ''L'', l_description = None, l_source_filename = None,
     l_created_by = None, l_contact_count = 0, l_verification_status = LReady, l_verification_summary = None,
     l_import_summary = None, l_free_provider_filter_applied = False, l_created_at = 0\<rparr>]\<rparr>"
  have wf: "validator_wf plain_validator" by (simp add: validator_wf_def plain_validator_def)
  have ok: "contacts_ok ?d" "contacts_ok empty_db" by (simp_all add: contacts_ok_def empty_db_def)
  have acc: "accepted_address (validate_syntax plain_validator (Some ''A@x.com'')) = Some ''a@x.com''" by code_simp
  have sup: "is_suppressed_async ?d ''a@x.com'' = False" by code_simp
  have "\<exists>d'. add_contact plain_validator 1 ''A@x.com'' None None ?d = Inr ((True, ''added''), d')"
    by (simp add: add_contact_def acc sup get_list_row_def) (simp add: empty_db_def)
  then obtain d' where "add_contact plain_validator 1 ''A@x.com'' None None ?d = Inr ((True, ''added''), d')" ..
  from add_contact_rules [OF wf ok(1) this] acc ok(2) show ?thesis
    by (auto simp: is_suppressed_sync_iff suppressed_set_def split: option.splits)
qed

end
