(* ===== verification/Csv_Reader.thy ===== *)
theory Csv_Reader
  imports Py_String
begin

text \<open>
  What the importer uses of Python's library to read an upload: the iteration of a text file
  opened with \<open>newline=""\<close> (a line ends in LF, CR or CR LF, and keeps its end), and
  \<open>csv.reader\<close> in the default dialect (comma, double quote, a doubled quote inside quotes).
  The state machine is the one of CPython's \<open>_csv\<close> module: it is fed the characters of a
  line and then an end mark (\<open>None\<close>), and a record is complete when it is back in its start
  state.  The reader yields records until the text ends or an error stops it.
\<close>

section \<open>Lines\<close>

fun file_lines :: "string \<Rightarrow> string \<Rightarrow> string list" where
  "file_lines cur [] = (if cur = [] then [] else [rev cur])"
| "file_lines cur [c] = [rev (c # cur)]"
| "file_lines cur (c # c' # cs) =
     (if c = CHR 0x0A then rev (c # cur) # file_lines [] (c' # cs)
      else if c = CHR 0x0D then
        (if c' = CHR 0x0A then rev (c' # c # cur) # file_lines [] cs
         else rev (c # cur) # file_lines [] (c' # cs))
      else file_lines (c # cur) (c' # cs))"

section \<open>The record parser\<close>

datatype csv_state = StartRecord | StartField | InField | InQuotedField | QuoteInQuotedField | EatCrnl

text \<open>The field and the fields of the record so far are kept in reverse.\<close>

record csv_parser =
  cp_state :: csv_state
  cp_field :: string
  cp_fields :: "string list"

definition csv_start :: csv_parser where
  "csv_start = \<lparr>cp_state = StartRecord, cp_field = [], cp_fields = []\<rparr>"

definition save_field :: "csv_state \<Rightarrow> csv_parser \<Rightarrow> csv_parser" where
  "save_field s p = p\<lparr>cp_state := s, cp_field := [], cp_fields := rev (cp_field p) # cp_fields p\<rparr>"

definition field_limit :: nat where
  "field_limit = 131072"

definition add_char :: "csv_state \<Rightarrow> char \<Rightarrow> csv_parser \<Rightarrow> exn + csv_parser" where
  "add_char s c p =
     (if length (cp_field p) \<ge> field_limit then Inl CsvError
      else Inr (p\<lparr>cp_state := s, cp_field := c # cp_field p\<rparr>))"

definition line_end :: "char option \<Rightarrow> bool" where
  "line_end c = (c \<in> {None, Some (CHR 0x0A), Some (CHR 0x0D)})"

definition after_line :: "char option \<Rightarrow> csv_state" where
  "after_line c = (if c = None then StartRecord else EatCrnl)"

definition start_field :: "char option \<Rightarrow> csv_parser \<Rightarrow> exn + csv_parser" where
  "start_field c p =
     (if line_end c then Inr (save_field (after_line c) p)
      else if c = Some (CHR 0x22) then Inr (p\<lparr>cp_state := InQuotedField\<rparr>)
      else if c = Some (CHR '','') then Inr (save_field StartField p)
      else add_char InField (the c) p)"

definition csv_char :: "char option \<Rightarrow> csv_parser \<Rightarrow> exn + csv_parser" where
  "csv_char c p =
     (case cp_state p of
        StartRecord \<Rightarrow>
          if c = None then Inr p
          else if line_end c then Inr (p\<lparr>cp_state := EatCrnl\<rparr>)
          else start_field c (p\<lparr>cp_state := StartField\<rparr>)
      | StartField \<Rightarrow> start_field c p
      | InField \<Rightarrow>
          if line_end c then Inr (save_field (after_line c) p)
          else if c = Some (CHR '','') then Inr (save_field StartField p)
          else add_char InField (the c) p
      | InQuotedField \<Rightarrow>
          if c = None then Inr p
          else if c = Some (CHR 0x22) then Inr (p\<lparr>cp_state := QuoteInQuotedField\<rparr>)
          else add_char InQuotedField (the c) p
      | QuoteInQuotedField \<Rightarrow>
          if c = Some (CHR 0x22) then add_char InQuotedField (CHR 0x22) p
          else if c = Some (CHR '','') then Inr (save_field StartField p)
          else if line_end c then Inr (save_field (after_line c) p)
          else add_char InField (the c) p
      | EatCrnl \<Rightarrow>
          if c = None then Inr (p\<lparr>cp_state := StartRecord\<rparr>)
          else if line_end c then Inr p else Inl CsvError)"

fun csv_line :: "string \<Rightarrow> csv_parser \<Rightarrow> exn + csv_parser" where
  "csv_line [] p = csv_char None p"
| "csv_line (c # cs) p = and_then (csv_char (Some c) p) (csv_line cs)"

fun csv_records :: "csv_parser \<Rightarrow> string list \<Rightarrow> string list list \<times> exn option" where
  "csv_records p [] =
     (if cp_field p \<noteq> [] \<or> cp_state p = InQuotedField then [rev (cp_fields (save_field StartRecord p))] else [], None)"
| "csv_records p (line # lines) =
     (case csv_line line p of
        Inl e \<Rightarrow> ([], Some e)
      | Inr p' \<Rightarrow>
          if cp_state p' = StartRecord
          then (case csv_records csv_start lines of (rows, e) \<Rightarrow> (rev (cp_fields p') # rows, e))
          else csv_records p' lines)"

definition csv_rows :: "string \<Rightarrow> string list list \<times> exn option" where
  "csv_rows text = csv_records csv_start (file_lines [] text)"

section \<open>Lemmas\<close>

text \<open>Characters without a meaning of their own, and fields of them.\<close>

definition plain_char :: "char \<Rightarrow> bool" where
  "plain_char c \<longleftrightarrow> c \<notin> {CHR 0x0A, CHR 0x0D, CHR 0x22, CHR '',''}"

lemma csv_char_plain:
  "plain_char c \<Longrightarrow> s \<in> {StartRecord, StartField} \<Longrightarrow>
   csv_char (Some c) \<lparr>cp_state = s, cp_field = [], cp_fields = fs\<rparr> =
     Inr \<lparr>cp_state = InField, cp_field = [c], cp_fields = fs\<rparr>"
  "plain_char c \<Longrightarrow> length acc < field_limit \<Longrightarrow>
   csv_char (Some c) \<lparr>cp_state = InField, cp_field = acc, cp_fields = fs\<rparr> =
     Inr \<lparr>cp_state = InField, cp_field = c # acc, cp_fields = fs\<rparr>"
  by (auto simp: plain_char_def csv_char_def start_field_def line_end_def add_char_def field_limit_def)

lemma csv_char_comma:
  "s \<in> {StartField, InField} \<Longrightarrow>
   csv_char (Some (CHR '','')) \<lparr>cp_state = s, cp_field = acc, cp_fields = fs\<rparr> =
     Inr \<lparr>cp_state = StartField, cp_field = [], cp_fields = rev acc # fs\<rparr>"
  by (auto simp: csv_char_def start_field_def line_end_def save_field_def)

lemma csv_line_newline:
  "s \<in> {StartField, InField} \<Longrightarrow>
   csv_line [CHR 0x0A] \<lparr>cp_state = s, cp_field = acc, cp_fields = fs\<rparr> =
     Inr \<lparr>cp_state = StartRecord, cp_field = [], cp_fields = rev acc # fs\<rparr>"
  by (auto simp: csv_char_def start_field_def line_end_def save_field_def after_line_def)

lemma csv_line_in_field:
  assumes "list_all plain_char f" "length acc + length f < field_limit"
  shows "csv_line (f @ cs) \<lparr>cp_state = InField, cp_field = acc, cp_fields = fs\<rparr> =
    csv_line cs \<lparr>cp_state = InField, cp_field = rev f @ acc, cp_fields = fs\<rparr>"
  using assms by (induction f arbitrary: acc) (simp_all add: csv_char_plain)

text \<open>A whole field, from the start of a record or after a comma.\<close>

lemma csv_line_field:
  assumes "list_all plain_char g" "length g < field_limit" "s = StartField \<or> s = StartRecord \<and> g \<noteq> []"
  shows "\<exists>s' \<in> {StartField, InField}. csv_line (g @ cs) \<lparr>cp_state = s, cp_field = [], cp_fields = fs\<rparr> =
    csv_line cs \<lparr>cp_state = s', cp_field = rev g, cp_fields = fs\<rparr>"
proof (cases g)
  case (Cons c f)
  with assms csv_line_in_field [of f "[c]" cs fs] show ?thesis by (auto simp: csv_char_plain)
qed (use assms in auto)

definition plain_field :: "string \<Rightarrow> bool" where
  "plain_field f \<longleftrightarrow> length f < field_limit \<and> list_all plain_char f"

definition csv_join :: "string list \<Rightarrow> string" where
  "csv_join fs = concat (case fs of [] \<Rightarrow> [] | g # gs \<Rightarrow> g # map (\<lambda>x. CHR '','' # x) gs)"

lemma csv_fields_plain:
  assumes "\<forall>f \<in> set gs. plain_field f" "plain_field g" "s \<in> {StartField, StartRecord}" "s = StartRecord \<longrightarrow> g \<noteq> []"
  shows "csv_line (g @ concat (map (\<lambda>x. CHR '','' # x) gs) @ [CHR 0x0A])
      \<lparr>cp_state = s, cp_field = [], cp_fields = fs\<rparr> =
    Inr \<lparr>cp_state = StartRecord, cp_field = [], cp_fields = rev (g # gs) @ fs\<rparr>"
  using assms
proof (induction gs arbitrary: g s fs)
  case Nil
  with csv_line_field [of g s "[CHR 0x0A]" fs] show ?case
    by (auto simp: plain_field_def csv_line_newline simp del: csv_line.simps)
next
  case (Cons h gs)
  let ?rest = "h @ concat (map (\<lambda>x. CHR '','' # x) gs) @ [CHR 0x0A]"
  have rest: "csv_line ?rest \<lparr>cp_state = StartField, cp_field = [], cp_fields = g # fs\<rparr> =
      Inr \<lparr>cp_state = StartRecord, cp_field = [], cp_fields = rev (h # gs) @ g # fs\<rparr>"
    using Cons.prems by (intro Cons.IH) auto
  from Cons.prems obtain s' where s': "s' \<in> {StartField, InField}"
    "csv_line (g @ CHR '','' # ?rest) \<lparr>cp_state = s, cp_field = [], cp_fields = fs\<rparr> =
      csv_line (CHR '','' # ?rest) \<lparr>cp_state = s', cp_field = rev g, cp_fields = fs\<rparr>"
    using csv_line_field [of g s "CHR '','' # ?rest" fs] by (auto simp: plain_field_def simp del: csv_line.simps)
  then show ?case using rest by (simp add: csv_char_comma)
qed

text \<open>A record of plain fields reads back as its fields.\<close>

lemma csv_record_plain:
  assumes "\<forall>f \<in> set (g # gs). plain_field f" "g \<noteq> []"
  shows "csv_records csv_start ((csv_join (g # gs) @ [CHR 0x0A]) # lines) =
    (case csv_records csv_start lines of (rows, e) \<Rightarrow> ((g # gs) # rows, e))"
  using csv_fields_plain [of gs g StartRecord "[]"] assms by (simp add: csv_join_def csv_start_def)

end
