(* ===== verification/Csv_Import.thy ===== *)
theory Csv_Import
  imports Csv_Reader Lists Config_Store
begin

text \<open>
  The CSV import (\<open>app/services/csv_import.py\<close>, \<open>app/tasks/imports.py\<close>).  The uploaded file
  is its decoded text.  Each batch is a transaction of its own, committed before the next row
  is read; \<open>fault\<close> says which flush fails at its commit, with the exception and its text
  (the \<open>IntegrityError\<close> of a lost race for an address, a lost connection), and \<open>fk_text\<close> is
  the text of the error of a list that does not exist.  A flush that fails inside the loop is
  caught there, like any exception of a row.
\<close>

section \<open>Counts\<close>

record import_counts =
  i_total_rows :: int
  i_imported :: int
  i_invalid :: int
  i_duplicate_file :: int
  i_duplicate_global :: int
  i_suppressed :: int
  i_free_provider :: int
  i_error_rows :: int
  i_error_samples :: "string list"

definition no_counts :: import_counts where
  "no_counts = \<lparr>i_total_rows = 0, i_imported = 0, i_invalid = 0, i_duplicate_file = 0, i_duplicate_global = 0,
     i_suppressed = 0, i_free_provider = 0, i_error_rows = 0, i_error_samples = []\<rparr>"

definition counts_dict :: "import_counts \<Rightarrow> json" where
  "counts_dict n = JObj
     [(''total_rows'', JInt (i_total_rows n)),
      (''imported'', JInt (i_imported n)),
      (''skipped_invalid'', JInt (i_invalid n)),
      (''skipped_duplicate'', JInt (i_duplicate_file n + i_duplicate_global n)),
      (''skipped_duplicate_file'', JInt (i_duplicate_file n)),
      (''skipped_duplicate_global'', JInt (i_duplicate_global n)),
      (''skipped_suppressed'', JInt (i_suppressed n)),
      (''skipped_free_provider'', JInt (i_free_provider n)),
      (''error_rows'', JInt (i_error_rows n)),
      (''error_samples'', JList (map JStr (i_error_samples n)))]"

section \<open>Columns\<close>

definition email_headers :: "string set" where
  "email_headers = {''email'', ''e-mail'', ''email address'', ''emailaddress'', ''email_address'', ''mail''}"

definition first_headers :: "string set" where
  "first_headers =
     {''first_name'', ''first name'', ''firstname'', ''first'', ''fname'', ''given_name'', ''given name''}"

definition last_headers :: "string set" where
  "last_headers =
     {''last_name'', ''last name'', ''lastname'', ''last'', ''lname'', ''surname'', ''family_name'', ''family name''}"

record column_map =
  m_email :: "string option"
  m_first_name :: "string option"
  m_last_name :: "string option"

definition detect_column :: "string \<Rightarrow> column_map \<Rightarrow> column_map" where
  "detect_column name m =
     (let low = py_lower (py_strip name) in
      if m_email m = None \<and> low \<in> email_headers then m\<lparr>m_email := Some name\<rparr>
      else if m_first_name m = None \<and> low \<in> first_headers then m\<lparr>m_first_name := Some name\<rparr>
      else if m_last_name m = None \<and> low \<in> last_headers then m\<lparr>m_last_name := Some name\<rparr>
      else m)"

definition detect_columns :: "string list \<Rightarrow> column_map" where
  "detect_columns header =
     (let m = fold detect_column header \<lparr>m_email = None, m_first_name = None, m_last_name = None\<rparr>
      in if m_email m = None \<and> length header = 1 then m\<lparr>m_email := Some (hd header)\<rparr> else m)"

text \<open>The caller's override: a value that is missing or empty leaves the detected column.\<close>

definition override_column :: "string option \<Rightarrow> string option \<Rightarrow> string option" where
  "override_column given detected = (case opt_nonempty given of None \<Rightarrow> detected | Some v \<Rightarrow> Some v)"

definition resolve_header :: "string list \<Rightarrow> column_map option \<Rightarrow> bool \<times> string list \<times> column_map" where
  "resolve_header first_row override =
     (if \<not> list_ex (\<lambda>c. CHR ''@'' \<in> set c) first_row then
        let colnames = map py_strip first_row;
            m = detect_columns colnames
        in (True, colnames,
            case override of
              None \<Rightarrow> m
            | Some ov \<Rightarrow> \<lparr>m_email = override_column (m_email ov) (m_email m),
                          m_first_name = override_column (m_first_name ov) (m_first_name m),
                          m_last_name = override_column (m_last_name ov) (m_last_name m)\<rparr>)
      else
        let colnames = map (\<lambda>i. ''column_'' @ show_int (int i)) [0..<length first_row];
            email_col = (case find (\<lambda>(n, c). CHR ''@'' \<in> set c) (zip colnames first_row) of
                           None \<Rightarrow> hd colnames | Some (n, _) \<Rightarrow> n)
        in (False, colnames, \<lparr>m_email = Some email_col, m_first_name = None, m_last_name = None\<rparr>))"

section \<open>Batches\<close>

record import_entry =
  n_email :: string
  n_first_name :: "string option"
  n_last_name :: "string option"
  n_custom :: custom_fields

text \<open>
  The loop over a batch: the two lookups are made once, before it.  It returns the counts, the
  database, and whether a row was inserted.
\<close>

fun flush_rows ::
  "id \<Rightarrow> string set \<Rightarrow> string set \<Rightarrow> import_entry list \<Rightarrow> import_counts \<Rightarrow> db \<Rightarrow> import_counts \<times> db" where
  "flush_rows list_id suppressed existing [] n d = (n, d)"
| "flush_rows list_id suppressed existing (p # pending) n d =
     (if n_email p \<in> suppressed
      then flush_rows list_id suppressed existing pending (n\<lparr>i_suppressed := i_suppressed n + 1\<rparr>) d
      else if n_email p \<in> existing
      then flush_rows list_id suppressed existing pending (n\<lparr>i_duplicate_global := i_duplicate_global n + 1\<rparr>) d
      else flush_rows list_id suppressed (insert (n_email p) existing) pending
             (n\<lparr>i_imported := i_imported n + 1\<rparr>)
             (insert_contact (n_email p) (n_first_name p) (n_last_name p) (n_custom p) list_id d))"

definition emails_in :: "(db \<Rightarrow> string set) \<Rightarrow> db \<Rightarrow> import_entry list \<Rightarrow> string set" where
  "emails_in stored d pending = {e \<in> set (map n_email pending). e \<in> stored d}"

definition contact_emails :: "db \<Rightarrow> string set" where
  "contact_emails d = ct_email ` set (contacts d)"

type_synonym fault = "nat \<Rightarrow> (exn \<times> string) option"

definition flush_batch ::
  "string \<Rightarrow> (exn \<times> string) option \<Rightarrow> id \<Rightarrow> import_entry list \<Rightarrow> import_counts \<Rightarrow> db \<Rightarrow>
   (exn \<times> string) option \<times> import_counts \<times> db" where
  "flush_batch fk_text fault_now list_id pending n d =
     (if pending = [] then (None, n, d)
      else let existing = emails_in contact_emails d pending;
               suppressed = emails_in suppressed_set d pending;
               (n', d') = flush_rows list_id suppressed existing pending n d
           in case fault_now of
                Some e \<Rightarrow> (Some e, n', d)
              | None \<Rightarrow> if contacts d' \<noteq> contacts d \<and> get_list_row list_id d = None
                        then (Some (IntegrityError, fk_text), n', d)
                        else (None, n', d'))"

section \<open>The import\<close>

definition batch_size :: nat where
  "batch_size = 1000"

record import_state =
  im_counts :: import_counts
  im_seen :: "string set"
  im_pending :: "import_entry list"
  im_flushes :: nat
  im_db :: db

record import_env =
  ie_validator :: email_validator
  ie_fk_text :: string
  ie_fault :: fault
  ie_free :: bool
  ie_patterns :: "string list"
  ie_list_id :: id
  ie_batch :: nat

definition cell :: "(string \<times> string) list \<Rightarrow> string option \<Rightarrow> string option" where
  "cell row column = (case opt_nonempty column of None \<Rightarrow> None | Some k \<Rightarrow> opt_nonempty (map_of row k))"

definition mapped_keys :: "column_map \<Rightarrow> string set" where
  "mapped_keys m =
     set (concat (map (\<lambda>v. case opt_nonempty v of None \<Rightarrow> [] | Some k \<Rightarrow> [k])
       [m_email m, m_first_name m, m_last_name m]))"

definition entry_of :: "column_map \<Rightarrow> (string \<times> string) list \<Rightarrow> string \<Rightarrow> import_entry" where
  "entry_of m row email =
     \<lparr>n_email = email, n_first_name = cell row (m_first_name m), n_last_name = cell row (m_last_name m),
      n_custom = map (\<lambda>(k, v). (k, JStr v)) (filter (\<lambda>(k, v). k \<notin> mapped_keys m \<and> v \<noteq> []) row)\<rparr>"

definition note_error :: "string \<Rightarrow> import_counts \<Rightarrow> import_counts" where
  "note_error msg n =
     (let n1 = n\<lparr>i_error_rows := i_error_rows n + 1\<rparr>
      in if length (i_error_samples n1) < 10
         then n1\<lparr>i_error_samples := i_error_samples n1 @ [''row '' @ show_int (i_total_rows n1) @ '': '' @ msg]\<rparr>
         else n1)"

text \<open>A flush that fails leaves the batch pending: the next row adds to it and tries again.\<close>

definition flush_full :: "import_env \<Rightarrow> import_state \<Rightarrow> import_state" where
  "flush_full E s =
     (if length (im_pending s) < ie_batch E then s
      else case flush_batch (ie_fk_text E) (ie_fault E (im_flushes s)) (ie_list_id E) (im_pending s) (im_counts s) (im_db s) of
             (None, n, d) \<Rightarrow> s\<lparr>im_counts := n, im_db := d, im_pending := [], im_flushes := im_flushes s + 1\<rparr>
           | (Some (e, msg), n, d) \<Rightarrow>
               s\<lparr>im_counts := note_error msg n, im_db := d, im_flushes := im_flushes s + 1\<rparr>)"

definition import_row :: "import_env \<Rightarrow> string list \<Rightarrow> column_map \<Rightarrow> string list \<Rightarrow> import_state \<Rightarrow> import_state" where
  "import_row E colnames m raw s0 =
     (let s = s0\<lparr>im_counts := (im_counts s0)\<lparr>i_total_rows := i_total_rows (im_counts s0) + 1\<rparr>\<rparr>;
          row = dict_update [] (zip colnames raw);
          n = im_counts s
      in case accepted_address (validate_syntax (ie_validator E)
                (case m_email m of None \<Rightarrow> None | Some k \<Rightarrow> map_of row k)) of
           None \<Rightarrow> s\<lparr>im_counts := n\<lparr>i_invalid := i_invalid n + 1\<rparr>\<rparr>
         | Some email \<Rightarrow>
             if email \<in> im_seen s then s\<lparr>im_counts := n\<lparr>i_duplicate_file := i_duplicate_file n + 1\<rparr>\<rparr>
             else let s1 = s\<lparr>im_seen := insert email (im_seen s)\<rparr> in
               if ie_free E \<and> is_free_provider (domain_of email) (ie_patterns E)
               then s1\<lparr>im_counts := n\<lparr>i_free_provider := i_free_provider n + 1\<rparr>\<rparr>
               else flush_full E (s1\<lparr>im_pending := im_pending s1 @ [entry_of m row email]\<rparr>))"

definition finalize_import :: "id \<Rightarrow> import_counts \<Rightarrow> bool \<Rightarrow> db \<Rightarrow> db" where
  "finalize_import list_id n apply_free d =
     (case get_list_row list_id d of
        None \<Rightarrow> d
      | Some lst \<Rightarrow>
          upd_list list_id
            (\<lambda>l. l\<lparr>l_contact_count := count_rows (\<lambda>ct. ct_list_id ct = Some list_id) (contacts d),
                  l_import_summary := Some (counts_dict n),
                  l_free_provider_filter_applied := apply_free\<rparr>) d)"

text \<open>The rows after the header, when there is one.\<close>

definition data_rows :: "bool \<Rightarrow> string list list \<Rightarrow> string list list" where
  "data_rows has_header rows = (if has_header then tl rows else rows)"

definition import_rows ::
  "import_env \<Rightarrow> string list \<Rightarrow> column_map \<Rightarrow> string list list \<Rightarrow> db \<Rightarrow> import_state" where
  "import_rows E colnames m rows d =
     fold (import_row E colnames m) rows
       \<lparr>im_counts = no_counts, im_seen = {}, im_pending = [], im_flushes = 0, im_db = d\<rparr>"

text \<open>The last batch: its failure is not caught, and ends the import before the summary.\<close>

definition finish_import :: "import_env \<Rightarrow> import_state \<Rightarrow> (exn + import_counts) \<times> db" where
  "finish_import E s =
     (case flush_batch (ie_fk_text E) (ie_fault E (im_flushes s)) (ie_list_id E) (im_pending s) (im_counts s) (im_db s) of
        (Some e, n, d) \<Rightarrow> (Inl (fst e), d)
      | (None, n, d) \<Rightarrow> (Inr n, finalize_import (ie_list_id E) n (ie_free E) d))"

definition import_body ::
  "import_env \<Rightarrow> column_map option \<Rightarrow> string list list \<Rightarrow> exn option \<Rightarrow> db \<Rightarrow> (exn + import_counts) \<times> db" where
  "import_body E override rows err d =
     (case resolve_header (hd rows) override of (has_header, colnames, m) \<Rightarrow>
        let s = import_rows E colnames m (data_rows has_header rows) d
        in case err of Some e \<Rightarrow> (Inl e, im_db s) | None \<Rightarrow> finish_import E s)"

definition import_env_of ::
  "email_validator \<Rightarrow> string \<Rightarrow> fault \<Rightarrow> id \<Rightarrow> bool \<Rightarrow> string list \<Rightarrow> import_env" where
  "import_env_of ve fk_text fault_at list_id free pats =
     \<lparr>ie_validator = ve, ie_fk_text = fk_text, ie_fault = fault_at, ie_free = free, ie_patterns = pats,
      ie_list_id = list_id, ie_batch = batch_size\<rparr>"

definition import_into_list ::
  "settings \<Rightarrow> email_validator \<Rightarrow> string \<Rightarrow> fault \<Rightarrow> id \<Rightarrow> string \<Rightarrow> column_map option \<Rightarrow> bool option \<Rightarrow> db \<Rightarrow>
   (exn + import_counts) \<times> db" where
  "import_into_list st ve fk_text fault_at list_id text override apply_free_filter d =
     (case get_free_provider_config st d of
        Inl e \<Rightarrow> (Inl e, d)
      | Inr (enabled, patterns) \<Rightarrow>
          let apply_free = (case apply_free_filter of None \<Rightarrow> enabled | Some b \<Rightarrow> b)
          in case csv_rows text of
               ([], Some e) \<Rightarrow> (Inl e, d)
             | ([], None) \<Rightarrow> (Inr no_counts, finalize_import list_id no_counts apply_free d)
             | (first_row # rest, err) \<Rightarrow>
                 import_body (import_env_of ve fk_text fault_at list_id apply_free patterns) override
                   (first_row # rest) err d)"

text \<open>The task: the summary, and the list whose verification is queued.\<close>

definition import_csv ::
  "settings \<Rightarrow> email_validator \<Rightarrow> string \<Rightarrow> fault \<Rightarrow> id \<Rightarrow> string \<Rightarrow> column_map option \<Rightarrow> bool option \<Rightarrow> db \<Rightarrow>
   (exn + json \<times> id) \<times> db" where
  "import_csv st ve fk_text fault_at list_id text override apply_free_filter d =
     (case import_into_list st ve fk_text fault_at list_id text override apply_free_filter d of
        (Inl e, d') \<Rightarrow> (Inl e, d')
      | (Inr n, d') \<Rightarrow> (Inr (counts_dict n, list_id), d'))"

section \<open>Reference: one row at a time, one batch\<close>

text \<open>
  The entries an upload holds: the first row of each accepted address that is not a free
  provider's.  The new ones among them are those no contact has and nobody suppressed.
\<close>

definition row_address :: "import_env \<Rightarrow> string list \<Rightarrow> column_map \<Rightarrow> string list \<Rightarrow> string option" where
  "row_address E colnames m raw =
     accepted_address (validate_syntax (ie_validator E)
       (case m_email m of None \<Rightarrow> None | Some k \<Rightarrow> map_of (dict_update [] (zip colnames raw)) k))"

definition filtered :: "import_env \<Rightarrow> string \<Rightarrow> bool" where
  "filtered E e = (ie_free E \<and> is_free_provider (domain_of e) (ie_patterns E))"

fun import_entries ::
  "import_env \<Rightarrow> string list \<Rightarrow> column_map \<Rightarrow> string set \<Rightarrow> string list list \<Rightarrow> import_entry list" where
  "import_entries E colnames m seen [] = []"
| "import_entries E colnames m seen (raw # rows) =
     (case row_address E colnames m raw of
        None \<Rightarrow> import_entries E colnames m seen rows
      | Some e \<Rightarrow>
          if e \<in> seen then import_entries E colnames m seen rows
          else if filtered E e then import_entries E colnames m (insert e seen) rows
          else entry_of m (dict_update [] (zip colnames raw)) e # import_entries E colnames m (insert e seen) rows)"

definition new_entries :: "db \<Rightarrow> import_entry list \<Rightarrow> import_entry list" where
  "new_entries d ps = filter (\<lambda>p. n_email p \<notin> suppressed_set d \<and> n_email p \<notin> contact_emails d) ps"

definition insert_entries :: "id \<Rightarrow> import_entry list \<Rightarrow> db \<Rightarrow> db" where
  "insert_entries list_id ps d =
     fold (\<lambda>p. insert_contact (n_email p) (n_first_name p) (n_last_name p) (n_custom p) list_id) ps d"

definition import_reference :: "import_env \<Rightarrow> string list \<Rightarrow> column_map \<Rightarrow> string list list \<Rightarrow> db \<Rightarrow> db" where
  "import_reference E colnames m rows d =
     insert_entries (ie_list_id E) (new_entries d (import_entries E colnames m {} rows)) d"

section \<open>Lemmas\<close>

lemma insert_entries_frame [frame, simp]:
  "suppressions (insert_entries l ps d) = suppressions d" "contact_lists (insert_entries l ps d) = contact_lists d"
  "campaigns (insert_entries l ps d) = campaigns d" "recipients (insert_entries l ps d) = recipients d"
  "app_settings (insert_entries l ps d) = app_settings d"
  "seqs (insert_entries l ps d) TRecipients = seqs d TRecipients"
  by (induction ps arbitrary: d) (simp_all add: insert_entries_def)

lemma contact_emails_insert [simp]:
  "contact_emails (insert_contact e f l c i d) = insert e (contact_emails d)"
  by (simp add: contact_emails_def)

lemma contact_emails_insert_entries:
  "contact_emails (insert_entries l ps d) = contact_emails d \<union> n_email ` set ps"
  by (induction ps arbitrary: d) (auto simp: insert_entries_def)

lemma contacts_insert_entries_length:
  "length (contacts (insert_entries l ps d)) = length (contacts d) + length ps"
  by (induction ps arbitrary: d) (auto simp: insert_entries_def)

lemma get_list_insert_entries [simp]: "get_list_row i (insert_entries l ps d) = get_list_row i d"
  by (simp add: get_list_row_def)

lemma suppressed_insert_entries [simp]: "suppressed_set (insert_entries l ps d) = suppressed_set d"
  by (simp add: suppressed_set_def)

lemma insert_entries_ok:
  "contacts_ok d \<Longrightarrow> distinct (map n_email ps) \<Longrightarrow> \<forall>p \<in> set ps. canonical (n_email p) \<and> n_email p \<notin> contact_emails d \<Longrightarrow>
   contacts_ok (insert_entries l ps d)"
proof (induction ps arbitrary: d)
  case (Cons p ps)
  then have "contacts_ok (insert_contact (n_email p) (n_first_name p) (n_last_name p) (n_custom p) l d)"
    by (intro insert_contact_ok) (auto simp: contact_emails_def)
  moreover have "\<forall>q \<in> set ps. n_email q \<noteq> n_email p"
    using Cons.prems(2) by simp (metis image_eqI)
  ultimately show ?case using Cons.IH Cons.prems by (simp add: insert_entries_def)
qed (simp add: insert_entries_def)

text \<open>A flush of distinct addresses inserts the new entries and counts the rest.\<close>

lemma flush_rows_eq:
  "distinct (map n_email ps) \<Longrightarrow>
   flush_rows l supp ex ps n d =
     (n\<lparr>i_suppressed := i_suppressed n + int (length (filter (\<lambda>p. n_email p \<in> supp) ps)),
        i_duplicate_global := i_duplicate_global n +
          int (length (filter (\<lambda>p. n_email p \<notin> supp \<and> n_email p \<in> ex) ps)),
        i_imported := i_imported n + int (length (filter (\<lambda>p. n_email p \<notin> supp \<and> n_email p \<notin> ex) ps))\<rparr>,
      insert_entries l (filter (\<lambda>p. n_email p \<notin> supp \<and> n_email p \<notin> ex) ps) d)"
proof (induction l supp ex ps n d rule: flush_rows.induct)
  case (2 l supp ex p ps n d)
  have "\<forall>q \<in> set ps. n_email q \<noteq> n_email p" using "2.prems" by simp (metis image_eqI)
  then have other: "filter (\<lambda>q. n_email q \<notin> supp \<and> n_email q \<in> insert (n_email p) ex) ps =
      filter (\<lambda>q. n_email q \<notin> supp \<and> n_email q \<in> ex) ps"
    "filter (\<lambda>q. n_email q \<notin> supp \<and> n_email q \<notin> insert (n_email p) ex) ps =
      filter (\<lambda>q. n_email q \<notin> supp \<and> n_email q \<notin> ex) ps"
    by (auto intro!: filter_cong)
  show ?case
  proof (cases "n_email p \<in> supp")
    case True
    with 2 show ?thesis by simp
  next
    case out: False
    show ?thesis
    proof (cases "n_email p \<in> ex")
      case True
      with out 2 show ?thesis by simp
    next
      case False
      with out "2.IH"(3) "2.prems" show ?thesis by (simp only: flush_rows.simps if_False other) (simp add: insert_entries_def)
    qed
  qed
qed (simp add: insert_entries_def)

lemma flush_lookup:
  "filter (\<lambda>p. n_email p \<notin> emails_in suppressed_set d ps \<and> n_email p \<notin> emails_in contact_emails d ps) ps = new_entries d ps"
  by (auto simp: new_entries_def emails_in_def intro!: filter_cong)

lemma flush_batch_ok:
  assumes "distinct (map n_email ps)" "get_list_row l d \<noteq> None"
  shows "\<exists>n'. flush_batch fk None l ps n d = (None, n', insert_entries l (new_entries d ps) d) \<and>
    i_total_rows n' = i_total_rows n \<and> i_invalid n' = i_invalid n \<and> i_duplicate_file n' = i_duplicate_file n \<and>
    i_free_provider n' = i_free_provider n \<and> i_error_rows n' = i_error_rows n \<and>
    i_imported n' + i_suppressed n' + i_duplicate_global n' =
      i_imported n + i_suppressed n + i_duplicate_global n + int (length ps) \<and>
    i_imported n' = i_imported n + int (length (new_entries d ps))"
proof (cases "ps = []")
  case True
  then show ?thesis by (simp add: flush_batch_def new_entries_def insert_entries_def)
next
  case False
  have len: "length (filter P ps) + length (filter (\<lambda>p. \<not> P p \<and> Q p) ps) + length (filter (\<lambda>p. \<not> P p \<and> \<not> Q p) ps) = length ps"
    for P Q by (induction ps) auto
  show ?thesis
    using False assms(2)
      len [of "\<lambda>p. n_email p \<in> emails_in suppressed_set d ps" "\<lambda>p. n_email p \<in> emails_in contact_emails d ps"]
    by (simp add: flush_batch_def flush_rows_eq [OF assms(1)] flush_lookup Let_def)
qed

lemma new_entries_after:
  assumes "distinct (map n_email (ps @ qs))"
  shows "insert_entries l (new_entries (insert_entries l (new_entries d ps) d) qs) (insert_entries l (new_entries d ps) d) =
    insert_entries l (new_entries d (ps @ qs)) d"
proof -
  have "new_entries (insert_entries l (new_entries d ps) d) qs = new_entries d qs"
    using assms by (auto simp: new_entries_def contact_emails_insert_entries intro!: filter_cong)
  then show ?thesis by (simp add: insert_entries_def new_entries_def)
qed

lemma import_entries_fresh:
  "p \<in> set (import_entries E colnames m seen rows) \<Longrightarrow> n_email p \<notin> seen"
  by (induction rows arbitrary: seen) (auto simp: entry_of_def split: option.splits if_splits)

lemma import_entries_distinct: "distinct (map n_email (import_entries E colnames m seen rows))"
  by (induction rows arbitrary: seen) (auto simp: entry_of_def dest: import_entries_fresh split: option.splits)

text \<open>The state of the loop when no flush fails: everything is accounted for.\<close>

definition import_ok :: "import_state \<Rightarrow> bool" where
  "import_ok s \<longleftrightarrow> distinct (map n_email (im_pending s)) \<and> n_email ` set (im_pending s) \<subseteq> im_seen s"

definition accounted :: "import_counts \<Rightarrow> int \<Rightarrow> bool" where
  "accounted n waiting \<longleftrightarrow>
     i_total_rows n = i_imported n + i_invalid n + i_duplicate_file n + i_duplicate_global n +
       i_suppressed n + i_free_provider n + waiting \<and> i_error_rows n = 0"

definition drained :: "import_env \<Rightarrow> import_state \<Rightarrow> import_entry list \<Rightarrow> db" where
  "drained E s es = insert_entries (ie_list_id E) (new_entries (im_db s) (im_pending s @ es)) (im_db s)"

lemma flush_full_ok:
  assumes "ie_fault E = (\<lambda>_. None)" "get_list_row (ie_list_id E) (im_db s) \<noteq> None" "import_ok s"
    and "accounted (im_counts s) (int (length (im_pending s)))" "distinct (map n_email (im_pending s @ es))"
  shows "import_ok (flush_full E s)" "im_seen (flush_full E s) = im_seen s"
    "get_list_row (ie_list_id E) (im_db (flush_full E s)) \<noteq> None"
    "accounted (im_counts (flush_full E s)) (int (length (im_pending (flush_full E s))))"
    "drained E (flush_full E s) es = drained E s es"
proof -
  have dist: "distinct (map n_email (im_pending s))" using assms(3) by (simp add: import_ok_def)
  obtain n' where f: "flush_batch (ie_fk_text E) None (ie_list_id E) (im_pending s) (im_counts s) (im_db s) =
      (None, n', insert_entries (ie_list_id E) (new_entries (im_db s) (im_pending s)) (im_db s))"
    and n': "i_total_rows n' = i_total_rows (im_counts s)" "i_invalid n' = i_invalid (im_counts s)"
      "i_duplicate_file n' = i_duplicate_file (im_counts s)" "i_free_provider n' = i_free_provider (im_counts s)"
      "i_error_rows n' = i_error_rows (im_counts s)"
      "i_imported n' + i_suppressed n' + i_duplicate_global n' = i_imported (im_counts s) + i_suppressed (im_counts s) +
         i_duplicate_global (im_counts s) + int (length (im_pending s))"
    using flush_batch_ok [OF dist assms(2)] by blast
  show "import_ok (flush_full E s)" "im_seen (flush_full E s) = im_seen s"
    "get_list_row (ie_list_id E) (im_db (flush_full E s)) \<noteq> None"
    using assms(2,3) f by (simp_all add: flush_full_def assms(1) import_ok_def)
  show "accounted (im_counts (flush_full E s)) (int (length (im_pending (flush_full E s))))"
    using assms(4) f n' by (simp add: flush_full_def assms(1) accounted_def)
  show "drained E (flush_full E s) es = drained E s es"
    using f new_entries_after [OF assms(5), of "ie_list_id E" "im_db s"]
    by (simp add: flush_full_def assms(1) drained_def)
qed

lemma import_row_ok:
  assumes "ie_fault E = (\<lambda>_. None)" "get_list_row (ie_list_id E) (im_db s) \<noteq> None" "import_ok s"
    and "accounted (im_counts s) (int (length (im_pending s)))"
  shows "import_ok (import_row E cn m raw s) \<and> get_list_row (ie_list_id E) (im_db (import_row E cn m raw s)) \<noteq> None \<and>
    accounted (im_counts (import_row E cn m raw s)) (int (length (im_pending (import_row E cn m raw s)))) \<and>
    drained E (import_row E cn m raw s) (import_entries E cn m (im_seen (import_row E cn m raw s)) rows) =
      drained E s (import_entries E cn m (im_seen s) (raw # rows))"
proof (cases "row_address E cn m raw")
  case None
  with assms show ?thesis
    by (simp add: import_row_def row_address_def import_ok_def accounted_def drained_def Let_def)
next
  case (Some e)
  note addr = Some [unfolded row_address_def]
  show ?thesis
  proof (cases "e \<in> im_seen s \<or> filtered E e")
    case True
    with assms addr Some show ?thesis
      by (auto simp: import_row_def import_ok_def accounted_def drained_def filtered_def Let_def)
  next
    case False
    let ?row = "dict_update [] (zip cn raw)"
    let ?s = "s\<lparr>im_counts := (im_counts s)\<lparr>i_total_rows := i_total_rows (im_counts s) + 1\<rparr>, im_seen := insert e (im_seen s),
        im_pending := im_pending s @ [entry_of m ?row e]\<rparr>"
    have row: "import_row E cn m raw s = flush_full E ?s"
      using False addr by (auto simp: import_row_def filtered_def Let_def)
    have fresh: "distinct (map n_email (im_pending ?s @ import_entries E cn m (insert e (im_seen s)) rows))"
      using assms(3) False import_entries_distinct [of E cn m "insert e (im_seen s)" rows]
        import_entries_fresh [of _ E cn m "insert e (im_seen s)" rows]
      by (auto simp: import_ok_def entry_of_def)
    have "import_ok ?s" "accounted (im_counts ?s) (int (length (im_pending ?s)))"
      "get_list_row (ie_list_id E) (im_db ?s) \<noteq> None"
      using assms False by (auto simp: import_ok_def accounted_def entry_of_def)
    from flush_full_ok [OF assms(1) this(3,1,2) fresh] show ?thesis
      using Some False by (simp add: row) (simp add: drained_def)
  qed
qed

lemma import_rows_ok:
  assumes "ie_fault E = (\<lambda>_. None)" "get_list_row (ie_list_id E) (im_db s) \<noteq> None" "import_ok s"
    and "accounted (im_counts s) (int (length (im_pending s)))"
  shows "import_ok (fold (import_row E cn m) rows s) \<and>
    get_list_row (ie_list_id E) (im_db (fold (import_row E cn m) rows s)) \<noteq> None \<and>
    accounted (im_counts (fold (import_row E cn m) rows s)) (int (length (im_pending (fold (import_row E cn m) rows s)))) \<and>
    drained E (fold (import_row E cn m) rows s) [] = drained E s (import_entries E cn m (im_seen s) rows)"
  using assms
proof (induction rows arbitrary: s)
  case (Cons raw rows)
  from import_row_ok [OF Cons.prems, of cn m raw rows] Cons.IH [OF Cons.prems(1), of "import_row E cn m raw s"]
  show ?case by simp
qed simp

lemma flush_rows_total: "i_total_rows (fst (flush_rows l supp ex ps n d)) = i_total_rows n"
  by (induction l supp ex ps n d rule: flush_rows.induct) simp_all

lemma flush_batch_total: "flush_batch fk ft l ps n d = (r, n', d') \<Longrightarrow> i_total_rows n' = i_total_rows n"
  using flush_rows_total [of l "emails_in suppressed_set d ps" "emails_in contact_emails d ps" ps n d]
  by (auto simp: flush_batch_def Let_def split: if_splits prod.splits option.splits)

lemma import_row_total: "i_total_rows (im_counts (import_row E cn m raw s)) = i_total_rows (im_counts s) + 1"
proof -
  have "i_total_rows (im_counts (flush_full E t)) = i_total_rows (im_counts t)" for t
    by (auto simp: flush_full_def note_error_def Let_def split: prod.splits option.splits dest: flush_batch_total)
  then show ?thesis by (simp add: import_row_def Let_def split: option.split)
qed

lemma import_rows_total:
  "i_total_rows (im_counts (fold (import_row E cn m) rows s)) = i_total_rows (im_counts s) + int (length rows)"
  by (induction rows arbitrary: s) (simp_all add: import_row_total)

section \<open>Lemmas: what an import may add\<close>

text \<open>From \<open>d\<close> to \<open>d'\<close> only fresh, unsuppressed contacts of the list have been added.\<close>

definition only_imports :: "id \<Rightarrow> db \<Rightarrow> db \<Rightarrow> bool" where
  "only_imports l d d' \<longleftrightarrow> contacts_ok d' \<and> suppressions d' = suppressions d \<and>
     recipients d' = recipients d \<and> campaigns d' = campaigns d \<and> seqs d' TRecipients = seqs d TRecipients \<and>
     (\<exists>new. contacts d' = contacts d @ new \<and>
        (\<forall>ct \<in> set new. ct_email ct \<notin> suppressed_set d \<and> ct_list_id ct = Some l \<and> ct_status ct = Active))"

lemma only_imports_refl: "contacts_ok d \<Longrightarrow> only_imports l d d"
  by (simp add: only_imports_def)

lemma only_imports_insert:
  assumes "only_imports l d0 d" "canonical e" "e \<notin> contact_emails d" "e \<notin> suppressed_set d0"
  shows "only_imports l d0 (insert_contact e f g c l d)"
proof -
  have "contacts_ok (insert_contact e f g c l d)"
    using assms by (intro insert_contact_ok) (auto simp: only_imports_def contact_emails_def)
  with assms show ?thesis by (auto simp: only_imports_def)
qed

lemma flush_rows_imports:
  assumes "only_imports l d0 d" "\<forall>p \<in> set ps. canonical (n_email p)"
    and "\<forall>p \<in> set ps. n_email p \<in> contact_emails d \<longrightarrow> n_email p \<in> ex"
    and "\<forall>p \<in> set ps. n_email p \<in> suppressed_set d0 \<longrightarrow> n_email p \<in> supp"
  shows "only_imports l d0 (snd (flush_rows l supp ex ps n d))"
  using assms
proof (induction l supp ex ps n d rule: flush_rows.induct)
  case (2 l supp ex p ps n d)
  show ?case
  proof (cases "n_email p \<in> supp \<or> n_email p \<in> ex")
    case True
    with 2 show ?thesis by auto
  next
    case False
    with "2.prems" have "only_imports l d0 (insert_contact (n_email p) (n_first_name p) (n_last_name p) (n_custom p) l d)"
      by (intro only_imports_insert) auto
    with False "2.IH"(3) "2.prems" show ?thesis by auto
  qed
qed simp

lemma flush_batch_imports:
  assumes "only_imports l d0 d" "\<forall>p \<in> set ps. canonical (n_email p)" "flush_batch fk ft l ps n d = (r, n', d')"
  shows "only_imports l d0 d'"
proof -
  have "suppressed_set d = suppressed_set d0" using assms(1) by (simp add: only_imports_def suppressed_set_def)
  then have "only_imports l d0 (snd (flush_rows l (emails_in suppressed_set d ps) (emails_in contact_emails d ps) ps n d))"
    using assms(1,2) by (intro flush_rows_imports) (auto simp: emails_in_def)
  with assms(1,3) show ?thesis
    by (auto simp: flush_batch_def Let_def split: if_splits prod.splits option.splits)
qed

definition import_safe :: "import_env \<Rightarrow> db \<Rightarrow> import_state \<Rightarrow> bool" where
  "import_safe E d0 s \<longleftrightarrow> only_imports (ie_list_id E) d0 (im_db s) \<and> (\<forall>p \<in> set (im_pending s). canonical (n_email p))"

lemma import_row_safe:
  assumes "validator_wf (ie_validator E)" "import_safe E d0 s"
  shows "import_safe E d0 (import_row E cn m raw s)"
proof -
  have full: "import_safe E d0 (flush_full E t)" if "import_safe E d0 t" for t
    using that flush_batch_imports [of "ie_list_id E" d0 "im_db t" "im_pending t"]
    by (auto simp: flush_full_def import_safe_def split: prod.splits option.splits)
  show ?thesis
  proof (cases "row_address E cn m raw")
    case None
    with assms(2) show ?thesis by (simp add: import_row_def row_address_def import_safe_def Let_def)
  next
    case (Some e)
    then have "canonical e" using validate_syntax_canonical [OF assms(1)] by (simp add: row_address_def)
    with assms(2) Some show ?thesis
      by (auto simp: import_row_def row_address_def Let_def import_safe_def entry_of_def
          intro!: full [unfolded import_safe_def])
  qed
qed

lemma import_rows_safe:
  "validator_wf (ie_validator E) \<Longrightarrow> import_safe E d0 s \<Longrightarrow> import_safe E d0 (fold (import_row E cn m) rows s)"
  by (induction rows arbitrary: s) (simp_all add: import_row_safe)

lemma finalize_import_frame [frame, simp]:
  "contacts (finalize_import l n b d) = contacts d" "suppressions (finalize_import l n b d) = suppressions d"
  "recipients (finalize_import l n b d) = recipients d" "campaigns (finalize_import l n b d) = campaigns d"
  "seqs (finalize_import l n b d) = seqs d"
  by (simp_all add: finalize_import_def split: option.split)

lemma only_imports_finalize [simp]: "only_imports l d0 (finalize_import i n b d) = only_imports l d0 d"
  by (simp add: only_imports_def contacts_ok_def)

lemma import_env_of_simps [simp]:
  "ie_validator (import_env_of ve fk flt l free pats) = ve" "ie_fk_text (import_env_of ve fk flt l free pats) = fk"
  "ie_fault (import_env_of ve fk flt l free pats) = flt" "ie_free (import_env_of ve fk flt l free pats) = free"
  "ie_patterns (import_env_of ve fk flt l free pats) = pats" "ie_list_id (import_env_of ve fk flt l free pats) = l"
  by (simp_all add: import_env_of_def)

lemma finish_import_safe: "import_safe E d0 s \<Longrightarrow> only_imports (ie_list_id E) d0 (snd (finish_import E s))"
  using flush_batch_imports [of "ie_list_id E" d0 "im_db s" "im_pending s"]
  by (auto simp: finish_import_def import_safe_def split: prod.split option.split)

lemma import_body_safe:
  assumes "validator_wf (ie_validator E)" "contacts_ok d"
  shows "only_imports (ie_list_id E) d (snd (import_body E ov rows err d))"
proof -
  have "import_safe E d (import_rows E cn m rs d)" for cn m rs
    unfolding import_rows_def
    by (rule import_rows_safe [OF assms(1)]) (simp add: import_safe_def only_imports_refl assms(2))
  then show ?thesis
    by (auto simp: import_body_def Let_def finish_import_safe import_safe_def split: prod.split option.split)
qed

lemma import_into_list_safe:
  assumes "validator_wf ve" "contacts_ok d"
  shows "only_imports list_id d (snd (import_into_list st ve fk flt list_id text ov af d))"
  using assms import_body_safe [of "import_env_of ve fk flt list_id b pats" d ov rows err for b pats rows err]
  by (auto simp: import_into_list_def Let_def only_imports_refl split: sum.split prod.split list.split option.split)

lemma import_body_exact:
  assumes "ie_fault E = (\<lambda>_. None)" "get_list_row (ie_list_id E) d \<noteq> None"
    and "resolve_header (hd rows) ov = (hh, cn, m)"
  shows "\<exists>n. fst (import_body E ov rows None d) = Inr n \<and>
    i_total_rows n = int (length (data_rows hh rows)) \<and> accounted n 0 \<and>
    contacts (snd (import_body E ov rows None d)) = contacts (import_reference E cn m (data_rows hh rows) d)"
proof -
  let ?s = "import_rows E cn m (data_rows hh rows) d"
  let ?init = "\<lparr>im_counts = no_counts, im_seen = {}, im_pending = [], im_flushes = 0, im_db = d\<rparr>"
  have "import_ok ?init" "accounted (im_counts ?init) (int (length (im_pending ?init)))" "get_list_row (ie_list_id E) (im_db ?init) \<noteq> None"
    using assms(2) by (simp_all add: import_ok_def accounted_def no_counts_def)
  note ok = import_rows_ok [OF assms(1) this(3,1,2), of cn m "data_rows hh rows"]
  have "drained E ?init es = insert_entries (ie_list_id E) (new_entries d es) d" for es
    by (simp add: drained_def)
  with ok have s: "import_ok ?s" "get_list_row (ie_list_id E) (im_db ?s) \<noteq> None"
    "accounted (im_counts ?s) (int (length (im_pending ?s)))"
    "drained E ?s [] = import_reference E cn m (data_rows hh rows) d"
    by (simp_all add: import_rows_def import_reference_def)
  have total: "i_total_rows (im_counts ?s) = int (length (data_rows hh rows))"
    by (simp add: import_rows_def import_rows_total no_counts_def)
  have "distinct (map n_email (im_pending ?s))" using s(1) by (simp add: import_ok_def)
  from flush_batch_ok [OF this s(2), of "ie_fk_text E" "im_counts ?s"] s(3,4) total
  show ?thesis
    by (auto simp: import_body_def assms(1,3) finish_import_def Let_def accounted_def drained_def)
qed

section \<open>Properties\<close>

text \<open>
  C19: An import is exact and batching is invisible: when no transaction fails, every data row is
  counted in exactly one class, and the contacts afterwards are those of the reference that
  collects the first row of each acceptable address and inserts, in one go, those that nobody
  has and nobody suppressed.
\<close>

theorem import_exact:
  assumes "get_free_provider_config st d = Inr (enabled, patterns)" "csv_rows text = (first_row # rest, None)"
    and "resolve_header first_row override = (has_header, colnames, m)" "get_list_row list_id d \<noteq> None"
    and "E = import_env_of ve fk_text (\<lambda>_. None) list_id (case free of None \<Rightarrow> enabled | Some b \<Rightarrow> b) patterns"
  shows "\<exists>n. fst (import_into_list st ve fk_text (\<lambda>_. None) list_id text override free d) = Inr n \<and>
    i_total_rows n = int (length (data_rows has_header (first_row # rest))) \<and>
    i_total_rows n = i_imported n + i_invalid n + i_duplicate_file n + i_duplicate_global n + i_suppressed n +
      i_free_provider n \<and> i_error_rows n = 0 \<and>
    contacts (snd (import_into_list st ve fk_text (\<lambda>_. None) list_id text override free d)) =
      contacts (import_reference E colnames m (data_rows has_header (first_row # rest)) d)"
  using import_body_exact [of E d "first_row # rest" override has_header colnames m] assms
  by (simp add: import_into_list_def Let_def accounted_def)

text \<open>
  C20: An import never puts an unlawful address on a list, whatever fails on the way: the contacts
  that were there stay, each added one is canonical, not suppressed, known to no other list, and
  waits for verification, and the table keeps one row for an address.
\<close>

theorem import_lawful:
  assumes "validator_wf ve" "contacts_ok d"
  shows "let d' = snd (import_into_list st ve fk_text fault_at list_id text override free d) in
    contacts_ok d' \<and> suppressed_set d' = suppressed_set d \<and>
    (\<exists>new. contacts d' = contacts d @ new \<and>
       (\<forall>ct \<in> set new. \<not> is_suppressed_sync d (ct_email ct) \<and> ct_list_id ct = Some list_id \<and> ct_status ct = Active))"
proof -
  let ?d = "snd (import_into_list st ve fk_text fault_at list_id text override free d)"
  from import_into_list_safe [OF assms] obtain new where new: "contacts_ok ?d" "suppressions ?d = suppressions d"
    "contacts ?d = contacts d @ new"
    "\<forall>ct \<in> set new. ct_email ct \<notin> suppressed_set d \<and> ct_list_id ct = Some list_id \<and> ct_status ct = Active"
    unfolding only_imports_def by blast
  then have "\<forall>ct \<in> set new. canonical (ct_email ct)" by (auto simp: contacts_ok_def)
  with new show ?thesis by (auto simp: Let_def suppressed_set_def is_suppressed_sync_canonical)
qed

text \<open>An upload of one address into a list that exists, for the witnesses.\<close>

definition upload_db :: db where
  "upload_db = empty_db\<lparr>contact_lists := [\<lparr>l_id = 1, l_name = ''L'', l_description = None, l_source_filename = None,
     l_created_by = None, l_contact_count = 0, l_verification_status = LPending, l_verification_summary = None,
     l_import_summary = None, l_free_provider_filter_applied = False, l_created_at = 0\<rparr>]\<rparr>"

definition upload :: string where
  "upload = ''email,name'' @ [CHR 0x0A] @ ''A@x.com,Al'' @ [CHR 0x0A]"

lemma upload_rows: "csv_rows upload = ([[''email'', ''name''], [''A@x.com'', ''Al'']], None)"
proof -
  have lines: "file_lines [] upload = [csv_join [''email'', ''name''] @ [CHR 0x0A], csv_join [''A@x.com'', ''Al''] @ [CHR 0x0A]]"
    by code_simp
  have plain: "\<forall>f \<in> set [''email'', ''name'', ''A@x.com'', ''Al'']. plain_field f"
    by (simp add: plain_field_def plain_char_def field_limit_def)
  show ?thesis
    using plain csv_record_plain [of "''email''" "[''name'']"] csv_record_plain [of "''A@x.com''" "[''Al'']" "[]"]
    by (simp add: csv_rows_def lines) (simp add: csv_start_def)
qed

theorem import_exact_witness:
  "\<exists>n. fst (import_into_list default_settings plain_validator [] (\<lambda>_. None) 1 upload None (Some False) upload_db) = Inr n \<and>
     i_total_rows n = 1"
proof -
  have cfg: "get_free_provider_config default_settings upload_db = Inr (True, default_free_provider_domains)"
    by (simp add: get_free_provider_config_def get_setting_row_def upload_db_def empty_db_def default_settings_def)
  have res: "resolve_header [''email'', ''name''] None =
      (True, [''email'', ''name''], \<lparr>m_email = Some ''email'', m_first_name = None, m_last_name = None\<rparr>)" by code_simp
  have row: "get_list_row 1 upload_db \<noteq> None" by (simp add: get_list_row_def upload_db_def)
  from import_exact [OF cfg upload_rows res row refl, of plain_validator "[]" "Some False"] show ?thesis
    by (auto simp: data_rows_def)
qed

theorem import_lawful_witness:
  "contacts_ok (snd (import_into_list default_settings plain_validator [] (\<lambda>_. Some (OperationalError, [])) 1 upload None None upload_db))"
proof -
  have "validator_wf plain_validator" by (simp add: validator_wf_def plain_validator_def)
  moreover have "contacts_ok upload_db" by (simp add: contacts_ok_def upload_db_def empty_db_def)
  ultimately show ?thesis using import_lawful by (metis (no_types, lifting))
qed

text \<open>
  A batch whose commit fails is counted when it fails and again when the next row retries it:
  of two rows, three are reported as imported.
\<close>

lemma failed_flush_overcounts:
  "let s = import_rows ((import_env_of plain_validator [] (\<lambda>k. if k = 0 then Some (IntegrityError, []) else None) 1 False [])
             \<lparr>ie_batch := 1\<rparr>)
             [''email''] \<lparr>m_email = Some ''email'', m_first_name = None, m_last_name = None\<rparr>
             [[''a@x.com''], [''b@x.com'']] upload_db
   in i_imported (im_counts s) = 3 \<and> i_total_rows (im_counts s) = 2 \<and> length (contacts (im_db s)) = 2"
  by code_simp

end
