(* ===== verification/Verification.thy ===== *)
theory Verification
  imports Redis Config Lists "HOL-Library.List_Lexorder" "HOL-Library.Char_ord"
begin

text \<open>
  List verification (\<open>app/services/verification/\<close>, \<open>app/tasks/verification.py\<close>).  The resolver
  of the third-party \<open>dnspython\<close> is the parameter \<open>dns\<close>: the answer to a query of a type for
  a domain.  The lookups of a batch run concurrently in the source, one for each domain; they
  touch a cache entry of their own, and are made one after the other here.  The class of an
  exception and the text of one are \<open>exc_text\<close>.  A write to the cache that fails is ignored by
  the source; a read that fails is not modelled.
\<close>

section \<open>One domain\<close>

datatype dns_answer = Records nat | NoRecords | DnsTimeout | DnsError string

type_synonym resolver = "string \<Rightarrow> string \<Rightarrow> dns_answer"

definition a_fallback :: "resolver \<Rightarrow> string \<Rightarrow> verification_result \<times> string" where
  "a_fallback dns dmn =
     (case dns ''A'' dmn of
        Records n \<Rightarrow> (Valid, ''a_fallback'')
      | NoRecords \<Rightarrow> (Invalid, ''no_mx_no_a'')
      | DnsTimeout \<Rightarrow> (Unknown, ''dns_timeout'')
      | DnsError t \<Rightarrow> (Unknown, ''dns_error:'' @ t))"

definition check_domain :: "resolver \<Rightarrow> string \<Rightarrow> verification_result \<times> string" where
  "check_domain dns dmn =
     (case dns ''MX'' dmn of
        Records n \<Rightarrow> if n > 0 then (Valid, ''mx'') else a_fallback dns dmn
      | NoRecords \<Rightarrow> a_fallback dns dmn
      | DnsTimeout \<Rightarrow> (Unknown, ''dns_timeout'')
      | DnsError t \<Rightarrow> (Unknown, ''dns_error:'' @ t))"

text \<open>
  The two caches of the provider.  \<open>vc_reads\<close> and \<open>vc_lost\<close> are what Redis does to the lookups of the
  task: a read of a domain's key may raise, and a write may fail, which the code ignores.  A domain is
  read and written once in a task at most (\<open>vc_mem\<close> holds it afterwards, and a failed read ends the task).
\<close>

record verify_cache =
  vc_mem :: "string \<rightharpoonup> verification_result \<times> string"
  vc_redis :: redis
  vc_reads :: "string \<Rightarrow> exn option"
  vc_lost :: "string \<Rightarrow> bool"

definition ttl_valid :: int where "ttl_valid = 24 * 3600"
definition ttl_invalid :: int where "ttl_invalid = 6 * 3600"

definition mx_key :: "string \<Rightarrow> string" where
  "mx_key dmn = ''mxcache:'' @ dmn"

definition redis_set :: "instant \<Rightarrow> string \<Rightarrow> string \<Rightarrow> int \<Rightarrow> redis \<Rightarrow> redis" where
  "redis_set now key v ex r = r\<lparr>r_strings := (r_strings r)(key \<mapsto> (v, Some (now + seconds ex)))\<rparr>"

definition cached_text :: "instant \<Rightarrow> string \<Rightarrow> redis \<Rightarrow> string" where
  "cached_text now dmn r = (case live now (r_strings r (mx_key dmn)) of None \<Rightarrow> [] | Some v \<Rightarrow> v)"

definition domain_status ::
  "resolver \<Rightarrow> instant \<Rightarrow> string \<Rightarrow> verify_cache \<Rightarrow> (exn + verification_result \<times> string) \<times> verify_cache" where
  "domain_status dns now dmn s =
     (case vc_mem s dmn of
        Some hit \<Rightarrow> (Inr hit, s)
      | None \<Rightarrow>
          (case vc_reads s dmn of
             Some e \<Rightarrow> (Inl e, s)
           | None \<Rightarrow>
               if cached_text now dmn (vc_redis s) \<noteq> []
               then (case verification_result_of (cached_text now dmn (vc_redis s)) of
                       Inl e \<Rightarrow> (Inl e, s)
                     | Inr res \<Rightarrow> (Inr (res, ''cache''), s\<lparr>vc_mem := (vc_mem s)(dmn \<mapsto> (res, ''cache''))\<rparr>))
               else let (status, reason) = check_domain dns dmn;
                        s1 = s\<lparr>vc_mem := (vc_mem s)(dmn \<mapsto> (status, reason))\<rparr>
                    in (Inr (status, reason),
                        if status \<noteq> Unknown \<and> \<not> vc_lost s dmn
                        then s1\<lparr>vc_redis := redis_set now (mx_key dmn) (verification_result_value status)
                                            (if status = Valid then ttl_valid else ttl_invalid) (vc_redis s1)\<rparr>
                        else s1)))"

section \<open>One batch\<close>

record email_verification =
  vr_email :: string
  vr_result :: verification_result
  vr_reason :: "string option"

definition domains_of :: "email_validator \<Rightarrow> string list \<Rightarrow> string list" where
  "domains_of ve emails =
     remdups (map domain_of (List.map_filter (\<lambda>e. accepted_address (validate_syntax ve (Some e))) emails))"

text \<open>
  The domains in some order (the code resolves them concurrently); the first one that raises ends
  the batch, and what the others wrote to Redis stays.
\<close>

fun resolve_all ::
  "resolver \<Rightarrow> instant \<Rightarrow> string list \<Rightarrow> verify_cache \<Rightarrow>
   (exn + (string \<rightharpoonup> verification_result \<times> string)) \<times> verify_cache" where
  "resolve_all dns now [] s = (Inr Map.empty, s)"
| "resolve_all dns now (dmn # dmns) s =
     (case domain_status dns now dmn s of
        (Inl e, s1) \<Rightarrow> (Inl e, s1)
      | (Inr status, s1) \<Rightarrow>
          (case resolve_all dns now dmns s1 of
             (Inl e, s2) \<Rightarrow> (Inl e, s2)
           | (Inr results, s2) \<Rightarrow> (Inr (results(dmn \<mapsto> status)), s2)))"

definition outcome_of ::
  "email_validator \<Rightarrow> (string \<rightharpoonup> verification_result \<times> string) \<Rightarrow> string \<Rightarrow> email_verification" where
  "outcome_of ve results email =
     (let check = validate_syntax ve (Some email) in
      if \<not> sc_ok check
      then \<lparr>vr_email = email, vr_result = Invalid,
            vr_reason = Some (''syntax:'' @ (case sc_error check of None \<Rightarrow> ''None'' | Some e \<Rightarrow> e))\<rparr>
      else let (status, reason) =
                 (case results (domain_of email) of None \<Rightarrow> (Unknown, ''unresolved'') | Some r \<Rightarrow> r)
           in \<lparr>vr_email = email, vr_result = status, vr_reason = Some reason\<rparr>)"

definition verify_batch ::
  "email_validator \<Rightarrow> resolver \<Rightarrow> instant \<Rightarrow> string list \<Rightarrow> verify_cache \<Rightarrow>
   (exn + email_verification list) \<times> verify_cache" where
  "verify_batch ve dns now emails s =
     (case resolve_all dns now (domains_of ve emails) s of
        (Inl e, s') \<Rightarrow> (Inl e, s')
      | (Inr results, s') \<Rightarrow> (Inr (map (outcome_of ve results) emails), s'))"

definition external_verify_batch :: "string list \<Rightarrow> verify_cache \<Rightarrow> (exn + email_verification list) \<times> verify_cache" where
  "external_verify_batch emails s = (Inl NotImplementedError, s)"

definition provider_verify_batch ::
  "settings \<Rightarrow> email_validator \<Rightarrow> resolver \<Rightarrow> instant \<Rightarrow> string list \<Rightarrow> verify_cache \<Rightarrow>
   (exn + email_verification list) \<times> verify_cache" where
  "provider_verify_batch st ve dns now emails s =
     (if verify_provider st = ''external'' then external_verify_batch emails s
      else verify_batch ve dns now emails s)"

section \<open>The task\<close>

record verify_counts =
  vn_valid :: int
  vn_invalid :: int
  vn_unknown :: int

fun count_result :: "verification_result \<Rightarrow> verify_counts \<Rightarrow> exn + verify_counts" where
  "count_result Valid n = Inr (n\<lparr>vn_valid := vn_valid n + 1\<rparr>)"
| "count_result Invalid n = Inr (n\<lparr>vn_invalid := vn_invalid n + 1\<rparr>)"
| "count_result Unknown n = Inr (n\<lparr>vn_unknown := vn_unknown n + 1\<rparr>)"
| "count_result VPending n = Inl KeyError"

definition counts_items :: "verify_counts \<Rightarrow> (string \<times> json) list" where
  "counts_items n = [(''valid'', JInt (vn_valid n)), (''invalid'', JInt (vn_invalid n)), (''unknown'', JInt (vn_unknown n))]"

record verify_progress =
  vp_counts :: verify_counts
  vp_domains :: "string set"
  vp_db :: db

text \<open>The loop of a batch's transaction; \<open>str.startswith\<close> on the reason.\<close>

definition apply_result :: "email_verification \<Rightarrow> id \<Rightarrow> string \<Rightarrow> verify_progress \<Rightarrow> exn + verify_progress" where
  "apply_result r cid email p =
     (case get_contact_row cid (vp_db p) of
        None \<Rightarrow> Inr p
      | Some contact \<Rightarrow>
          let d1 = upd_contact cid (\<lambda>c. c\<lparr>ct_verification_result := vr_result r\<rparr>) (vp_db p) in
          and_then (count_result (vr_result r) (vp_counts p)) (\<lambda>n.
          if vr_result r = Invalid then
            let reason = (case vr_reason r of None \<Rightarrow> ''None'' | Some x \<Rightarrow> x) in
            Inr \<lparr>vp_counts = n,
                 vp_domains = (case vr_reason r of
                     None \<Rightarrow> vp_domains p
                   | Some x \<Rightarrow> if x \<noteq> [] \<and> \<not> py_startswith x ''syntax'' then insert (domain_of email) (vp_domains p)
                               else vp_domains p),
                 vp_db = snd (suppress_sync None d1 email InvalidAddress (Some (''verification:'' @ reason)) True)\<rparr>
          else Inr (p\<lparr>vp_counts := n, vp_db := d1\<rparr>)))"

fun apply_results ::
  "(string \<rightharpoonup> email_verification) \<Rightarrow> (id \<times> string) list \<Rightarrow> verify_progress \<Rightarrow> exn + verify_progress" where
  "apply_results resmap [] p = Inr p"
| "apply_results resmap ((cid, email) # rows) p =
     (case resmap email of
        None \<Rightarrow> apply_results resmap rows p
      | Some r \<Rightarrow> and_then (apply_result r cid email p) (apply_results resmap rows))"

definition result_map :: "email_verification list \<Rightarrow> string \<rightharpoonup> email_verification" where
  "result_map results = map_of (rev (map (\<lambda>r. (vr_email r, r)) results))"

definition set_summary :: "id \<Rightarrow> (string \<times> json) list \<Rightarrow> db \<Rightarrow> db" where
  "set_summary list_id items d = upd_list list_id (\<lambda>l. l\<lparr>l_verification_summary := Some (JObj items)\<rparr>) d"

definition verify_batch_size :: nat where
  "verify_batch_size = 1000"

record verify_env =
  vv_settings :: settings
  vv_validator :: email_validator
  vv_dns :: resolver
  vv_exc_text :: "exn \<Rightarrow> string"
  vv_reads :: "string \<Rightarrow> exn option"
  vv_lost :: "string \<Rightarrow> bool"
  vv_batch :: nat

text \<open>
  The batches from row \<open>start\<close> on: the results, or the exception, with what was committed
  before it.
\<close>

function verify_batches ::
  "verify_env \<Rightarrow> instant \<Rightarrow> id \<Rightarrow> nat \<Rightarrow> nat \<Rightarrow> (id \<times> string) list \<Rightarrow> verify_progress \<Rightarrow> verify_cache \<Rightarrow>
   exn option \<times> verify_progress \<times> verify_cache" where
  "verify_batches E now list_id total_n start rows p s =
     (if rows = [] \<or> vv_batch E = 0 then (None, p, s)
      else let batch = take (vv_batch E) rows in
        (case provider_verify_batch (vv_settings E) (vv_validator E) (vv_dns E) now (map snd batch) s of
           (Inl e, s1) \<Rightarrow> (Some e, p, s1)
         | (Inr results, s1) \<Rightarrow>
             (case apply_results (result_map results) batch p of
                Inl e \<Rightarrow> (Some e, p, s1)
              | Inr p1 \<Rightarrow>
                  verify_batches E now list_id total_n (start + vv_batch E) (drop (vv_batch E) rows)
                    (p1\<lparr>vp_db := set_summary list_id
                          ([(''total'', JInt (int total_n)), (''processed'', JInt (int (min (start + vv_batch E) total_n)))] @
                           counts_items (vp_counts p1)) (vp_db p1)\<rparr>) s1)))"
  by pat_completeness auto
termination
  by (relation "measure (\<lambda>(E, now, l, t, st, rows, p, s). length rows)") auto

declare verify_batches.simps [simp del]

definition list_rows :: "db \<Rightarrow> id \<Rightarrow> (id \<times> string) list" where
  "list_rows d list_id = map (\<lambda>ct. (ct_id ct, ct_email ct)) (filter (\<lambda>ct. ct_list_id ct = Some list_id) (contacts d))"

definition set_verification ::
  "id \<Rightarrow> list_verification_status \<Rightarrow> (json option \<Rightarrow> json option) \<Rightarrow> db \<Rightarrow> db" where
  "set_verification list_id status f d =
     upd_list list_id (\<lambda>l. l\<lparr>l_verification_status := status, l_verification_summary := f (l_verification_summary l)\<rparr>) d"

text \<open>\<open>dict(summary or {})\<close> with the error set; a summary is an object or absent.\<close>

fun with_error :: "string \<Rightarrow> json option \<Rightarrow> json option" where
  "with_error msg (Some (JObj kvs)) = Some (JObj (dict_set ''error'' (JStr msg) kvs))"
| "with_error msg _ = Some (JObj [(''error'', JStr msg)])"

definition no_verify_counts :: verify_counts where
  "no_verify_counts = \<lparr>vn_valid = 0, vn_invalid = 0, vn_unknown = 0\<rparr>"

text \<open>The provider of one task starts with an empty memory.\<close>

definition new_cache :: "verify_env \<Rightarrow> redis \<Rightarrow> verify_cache" where
  "new_cache E r = \<lparr>vc_mem = Map.empty, vc_redis = r, vc_reads = vv_reads E, vc_lost = vv_lost E\<rparr>"

definition verify_list :: "verify_env \<Rightarrow> instant \<Rightarrow> id \<Rightarrow> db \<Rightarrow> redis \<Rightarrow> json \<times> db \<times> redis" where
  "verify_list E now list_id d r =
     (case get_list_row list_id d of
        None \<Rightarrow> (JObj [(''error'', JStr ''list not found'')], d, r)
      | Some lst \<Rightarrow>
          let rows = list_rows d list_id;
              total_n = length rows;
              d1 = set_verification list_id LVerifying
                     (\<lambda>_. Some (JObj ([(''total'', JInt (int total_n)), (''processed'', JInt 0)] @ counts_items no_verify_counts))) d
          in (case verify_batches E now list_id total_n 0 rows
                     \<lparr>vp_counts = no_verify_counts, vp_domains = {}, vp_db = d1\<rparr> (new_cache E r) of
                (Some e, p, s) \<Rightarrow>
                  (JObj [(''error'', JStr (vv_exc_text E e))],
                   set_verification list_id LFailed (with_error (vv_exc_text E e)) (vp_db p), vc_redis s)
              | (None, p, s) \<Rightarrow>
                  (JObj ([(''list_id'', JInt list_id)] @ counts_items (vp_counts p) @ [(''total'', JInt (int total_n))]),
                   set_verification list_id LReady
                     (\<lambda>_. Some (JObj ([(''total'', JInt (int total_n)), (''processed'', JInt (int total_n))] @
                        counts_items (vp_counts p) @
                        [(''failed_domains'', JList (map JStr (take 200 (sorted_list_of_set (vp_domains p)))))])))
                     (vp_db p), vc_redis s)))"

section \<open>The cache\<close>

lemma mx_key_inject [simp]: "mx_key a = mx_key b \<longleftrightarrow> a = b"
  by (simp add: mx_key_def)

text \<open>
  A cache is sound at an instant when every entry is what the resolver would say: an entry in
  memory, or a live key in Redis; and no read of it raises.
\<close>

definition cache_sound :: "resolver \<Rightarrow> instant \<Rightarrow> verify_cache \<Rightarrow> bool" where
  "cache_sound dns now s \<longleftrightarrow>
     (\<forall>dmn hit. vc_mem s dmn = Some hit \<longrightarrow> fst hit = fst (check_domain dns dmn)) \<and>
     (\<forall>dmn. cached_text now dmn (vc_redis s) \<noteq> [] \<longrightarrow>
        verification_result_of (cached_text now dmn (vc_redis s)) = Inr (fst (check_domain dns dmn))) \<and>
     (\<forall>dmn. vc_reads s dmn = None)"

lemma ttl_pos [simp]: "0 < ttl_valid" "0 < ttl_invalid"
  by (simp_all add: ttl_valid_def ttl_invalid_def)

lemma check_domain_not_pending [simp]: "fst (check_domain dns dmn) \<noteq> VPending"
  by (simp add: check_domain_def a_fallback_def split: dns_answer.split)

lemma cached_text_set:
  "0 < ex \<Longrightarrow> cached_text now dmn (redis_set now (mx_key dmn') v ex r) = (if dmn = dmn' then v else cached_text now dmn r)"
  by (simp add: cached_text_def redis_set_def seconds_def)

text \<open>A lookup through a sound cache says what the resolver says, and keeps the cache sound.\<close>

lemma domain_status_sound:
  assumes "cache_sound dns now s"
  shows "\<exists>reason s'. domain_status dns now dmn s = (Inr (fst (check_domain dns dmn), reason), s') \<and>
    cache_sound dns now s'"
proof (cases "vc_mem s dmn")
  case (Some hit)
  with assms show ?thesis by (cases hit) (auto simp: domain_status_def cache_sound_def)
next
  case None
  have read: "vc_reads s dmn = None" using assms by (simp add: cache_sound_def)
  show ?thesis
  proof (cases "cached_text now dmn (vc_redis s) = []")
    case False
    with assms None show ?thesis by (auto simp: domain_status_def cache_sound_def)
  next
    case True
    obtain st reason where c: "check_domain dns dmn = (st, reason)" by fastforce
    let ?s1 = "s\<lparr>vc_mem := (vc_mem s)(dmn \<mapsto> (st, reason))\<rparr>"
    let ?s2 = "if st \<noteq> Unknown \<and> \<not> vc_lost s dmn
      then ?s1\<lparr>vc_redis := redis_set now (mx_key dmn) (verification_result_value st)
                            (if st = Valid then ttl_valid else ttl_invalid) (vc_redis ?s1)\<rparr> else ?s1"
    have eq: "domain_status dns now dmn s = (Inr (fst (check_domain dns dmn), reason), ?s2)"
      by (simp add: domain_status_def None read True c)
    have "cached_text now x (vc_redis ?s2) = (if x = dmn \<and> st \<noteq> Unknown \<and> \<not> vc_lost s dmn
        then verification_result_value st else cached_text now x (vc_redis s))" for x
      by (cases st) (simp_all add: cached_text_set)
    with assms have "cache_sound dns now ?s2"
      unfolding cache_sound_def by (simp only: verification_result_of_value) (simp add: c)
    with eq show ?thesis by blast
  qed
qed

lemma resolve_all_sound:
  assumes "cache_sound dns now s"
  shows "\<exists>results s'. resolve_all dns now dmns s = (Inr results, s') \<and> cache_sound dns now s' \<and>
    dom results = set dmns \<and> (\<forall>dmn hit. results dmn = Some hit \<longrightarrow> fst hit = fst (check_domain dns dmn))"
  using assms
proof (induction dmns arbitrary: s)
  case (Cons dmn dmns)
  from domain_status_sound [OF Cons.prems, of dmn] obtain reason s1
    where d: "domain_status dns now dmn s = (Inr (fst (check_domain dns dmn), reason), s1)" "cache_sound dns now s1"
    by blast
  from Cons.IH [OF d(2)] d(1) show ?case by fastforce
qed simp

section \<open>A batch against its specification\<close>

text \<open>What the verification of an address should find, without caches, batches or concurrency.\<close>

definition address_verdict :: "email_validator \<Rightarrow> resolver \<Rightarrow> string \<Rightarrow> verification_result" where
  "address_verdict ve dns email =
     (if sc_ok (validate_syntax ve (Some email)) then fst (check_domain dns (domain_of email)) else Invalid)"

lemma address_verdict_not_pending [simp]: "address_verdict ve dns e \<noteq> VPending"
  by (simp add: address_verdict_def)

text \<open>
  The validator's normal form of an address it accepts is not empty and has the domain of the
  address (the addresses of contacts are in normal form already).
\<close>

definition keeps_domain :: "email_validator \<Rightarrow> string \<Rightarrow> bool" where
  "keeps_domain ve email \<longleftrightarrow>
     (sc_ok (validate_syntax ve (Some email)) \<longrightarrow>
        (\<exists>n. accepted_address (validate_syntax ve (Some email)) = Some n \<and> domain_of n = domain_of email))"

lemma domains_of_resolved:
  "email \<in> set emails \<Longrightarrow> keeps_domain ve email \<Longrightarrow> sc_ok (validate_syntax ve (Some email)) \<Longrightarrow>
   domain_of email \<in> set (domains_of ve emails)"
  by (force simp: domains_of_def keeps_domain_def List.map_filter_def image_iff)

lemma verify_batch_sound:
  assumes "cache_sound dns now s" "\<forall>e \<in> set emails. keeps_domain ve e"
  shows "\<exists>results s'. verify_batch ve dns now emails s = (Inr results, s') \<and> cache_sound dns now s' \<and>
    map vr_email results = emails \<and> map vr_result results = map (address_verdict ve dns) emails"
proof -
  from resolve_all_sound [OF assms(1), of "domains_of ve emails"] obtain res s' where
    r: "resolve_all dns now (domains_of ve emails) s = (Inr res, s')" "cache_sound dns now s'"
       "dom res = set (domains_of ve emails)" "\<forall>dmn hit. res dmn = Some hit \<longrightarrow> fst hit = fst (check_domain dns dmn)"
    by blast
  have "vr_result (outcome_of ve res e) = address_verdict ve dns e" if "e \<in> set emails" for e
    using domains_of_resolved [OF that] assms(2) that r(3,4)
    by (auto simp: outcome_of_def address_verdict_def Let_def split: option.split prod.split)
  moreover have "vr_email (outcome_of ve res e) = e" for e
    by (simp add: outcome_of_def Let_def split: prod.split)
  then have "map (vr_email \<circ> outcome_of ve res) emails = emails" by (simp add: comp_def)
  ultimately show ?thesis using r(1,2) by (simp add: verify_batch_def)
qed

section \<open>The interface of a verification provider\<close>

text \<open>
  What the task needs of a provider: in a good state, a batch of addresses in its scope yields a
  result for each address, in order, with the verdict of the address.
\<close>

locale verifier =
  fixes verify :: "string list \<Rightarrow> 's \<Rightarrow> (exn + email_verification list) \<times> 's"
    and good :: "'s \<Rightarrow> bool"
    and scope :: "string \<Rightarrow> bool"
    and verdict :: "string \<Rightarrow> verification_result"
  assumes verify_results: "good s \<Longrightarrow> \<forall>e \<in> set es. scope e \<Longrightarrow>
      \<exists>rs s'. verify es s = (Inr rs, s') \<and> good s' \<and> map vr_email rs = es \<and> map vr_result rs = map verdict es"
    and verdict_decided: "verdict e \<noteq> VPending"
begin

lemma verify_lookup:
  assumes "good s" "\<forall>e \<in> set es. scope e"
  shows "\<exists>rs s'. verify es s = (Inr rs, s') \<and> good s' \<and>
    (\<forall>e \<in> set es. \<exists>r. result_map rs e = Some r \<and> vr_result r = verdict e)"
proof -
  from verify_results [OF assms] obtain rs s' where r: "verify es s = (Inr rs, s')" "good s'"
    "map vr_email rs = es" "map vr_result rs = map verdict es" by blast
  have same: "vr_result r = verdict (vr_email r)" if "r \<in> set rs" for r
  proof -
    from r(3,4) have "map vr_result rs = map (\<lambda>r. verdict (vr_email r)) rs" by auto
    with that show ?thesis by auto
  qed
  have "\<exists>r. result_map rs e = Some r \<and> vr_result r = verdict e" if e: "e \<in> set es" for e
  proof -
    have "e \<in> fst ` set (rev (map (\<lambda>r. (vr_email r, r)) rs))" using e r(3) by (force simp: image_image)
    then obtain r where m: "result_map rs e = Some r" unfolding result_map_def
      by (metis map_of_eq_None_iff not_None_eq)
    then have "(e, r) \<in> set (rev (map (\<lambda>r. (vr_email r, r)) rs))" unfolding result_map_def by (rule map_of_SomeD)
    then have "r \<in> set rs" "vr_email r = e" by auto
    with m same show ?thesis by auto
  qed
  with r(1,2) show ?thesis by blast
qed

end

interpretation inhouse: verifier "verify_batch ve dns now" "cache_sound dns now" "keeps_domain ve" "address_verdict ve dns"
  by unfold_locales (use verify_batch_sound in auto)

section \<open>The loop over the batches\<close>

text \<open>The rows of a list are contacts of the database.\<close>

definition rows_of :: "db \<Rightarrow> (id \<times> string) list \<Rightarrow> bool" where
  "rows_of d rows \<longleftrightarrow> (\<forall>(cid, email) \<in> set rows. get_contact_row cid d \<noteq> None \<and>
     (\<forall>ct \<in> set (contacts d). ct_id ct = cid \<longrightarrow> ct_email ct = email))"

definition verification_view :: "contact \<Rightarrow> id \<times> string \<times> id option \<times> verification_result" where
  "verification_view ct = (ct_id ct, ct_email ct, ct_list_id ct, ct_verification_result ct)"

definition judged :: "(string \<Rightarrow> verification_result) \<Rightarrow> id set \<Rightarrow> contact \<Rightarrow> id \<times> string \<times> id option \<times> verification_result" where
  "judged V cids ct = (ct_id ct, ct_email ct, ct_list_id ct, if ct_id ct \<in> cids then V (ct_email ct) else ct_verification_result ct)"

definition invalid_addresses :: "(string \<Rightarrow> verification_result) \<Rightarrow> string list \<Rightarrow> string set" where
  "invalid_addresses V emails = {n. \<exists>e \<in> set emails. V e = Invalid \<and> normalize_email (Some e) = Some n}"

text \<open>The effect of the rows: every verdict is recorded, the invalid addresses are suppressed.\<close>

definition applied :: "(string \<Rightarrow> verification_result) \<Rightarrow> (id \<times> string) list \<Rightarrow> db \<Rightarrow> db \<Rightarrow> bool" where
  "applied V rows d d' \<longleftrightarrow>
     map verification_view (contacts d') = map (judged V (fst ` set rows)) (contacts d) \<and>
     suppressed_set d' = suppressed_set d \<union> invalid_addresses V (map snd rows)"

definition tally :: "(string \<Rightarrow> verification_result) \<Rightarrow> (id \<times> string) list \<Rightarrow> verify_counts \<Rightarrow> verify_counts" where
  "tally V rows n =
     \<lparr>vn_valid = vn_valid n + count_rows (\<lambda>r. V (snd r) = Valid) rows,
      vn_invalid = vn_invalid n + count_rows (\<lambda>r. V (snd r) = Invalid) rows,
      vn_unknown = vn_unknown n + count_rows (\<lambda>r. V (snd r) = Unknown) rows\<rparr>"

lemma judged_none [simp]: "judged V {} = verification_view"
  by (simp add: judged_def verification_view_def fun_eq_iff)

lemma applied_Nil [simp]: "applied V [] d d"
  by (simp add: applied_def invalid_addresses_def)

lemma applied_trans:
  assumes "applied V rows1 d d1" "applied V rows2 d1' d2" "contacts d1' = contacts d1" "suppressions d1' = suppressions d1"
  shows "applied V (rows1 @ rows2) d d2"
proof -
  let ?j = "\<lambda>(i, e, l, v). (i, e, l, if i \<in> fst ` set rows2 then V e else v)"
  have "judged V (fst ` set rows2) ct = ?j (verification_view ct)" for ct
    by (simp add: judged_def verification_view_def)
  then have "map (judged V (fst ` set rows2)) (contacts d1) = map ?j (map verification_view (contacts d1))" by simp
  also have "\<dots> = map ?j (map (judged V (fst ` set rows1)) (contacts d))" using assms(1) by (simp add: applied_def)
  also have "\<dots> = map (judged V (fst ` set (rows1 @ rows2))) (contacts d)"
    by (auto simp: judged_def)
  finally have "map verification_view (contacts d2) = map (judged V (fst ` set (rows1 @ rows2))) (contacts d)"
    using assms(2,3) by (simp add: applied_def)
  moreover have "suppressed_set d2 = suppressed_set d \<union> invalid_addresses V (map snd (rows1 @ rows2))"
    using assms(1,2,4) by (auto simp: applied_def suppressed_set_def invalid_addresses_def)
  ultimately show ?thesis by (simp only: applied_def)
qed

lemma rows_of_pairs:
  "rows_of d rows \<longleftrightarrow> (\<forall>(cid, email) \<in> set rows.
     cid \<in> fst ` (\<lambda>ct. (ct_id ct, ct_email ct)) ` set (contacts d) \<and>
     (\<forall>(i, e) \<in> (\<lambda>ct. (ct_id ct, ct_email ct)) ` set (contacts d). i = cid \<longrightarrow> e = email))"
  unfolding rows_of_def get_contact_row_def row_by_None_iff by (simp add: image_image split_beta)

lemma rows_of_view:
  assumes "map verification_view (contacts d') = map (judged V cids) (contacts d)" "rows_of d rows"
  shows "rows_of d' rows"
proof -
  have "map (\<lambda>(i, e, _). (i, e)) (map verification_view (contacts d')) = map (\<lambda>(i, e, _). (i, e)) (map (judged V cids) (contacts d))"
    by (simp only: assms(1))
  then have "map (\<lambda>ct. (ct_id ct, ct_email ct)) (contacts d') = map (\<lambda>ct. (ct_id ct, ct_email ct)) (contacts d)"
    by (simp add: verification_view_def judged_def comp_def)
  then have "(\<lambda>ct. (ct_id ct, ct_email ct)) ` set (contacts d') = (\<lambda>ct. (ct_id ct, ct_email ct)) ` set (contacts d)"
    by (metis set_map)
  with assms(2) show ?thesis unfolding rows_of_pairs by simp
qed

lemma apply_result_exact:
  assumes "rows_of d [(cid, email)]" "vp_db p = d" "vr_result r = V email" "V email \<noteq> VPending"
  shows "\<exists>p'. apply_result r cid email p = Inr p' \<and> applied V [(cid, email)] d (vp_db p') \<and>
    vp_counts p' = tally V [(cid, email)] (vp_counts p)"
proof -
  from assms(1) obtain ct where ct: "get_contact_row cid d = Some ct" by (auto simp: rows_of_def)
  let ?d1 = "upd_contact cid (\<lambda>c. c\<lparr>ct_verification_result := vr_result r\<rparr>) d"
  have "\<forall>c \<in> set (contacts d). ct_id c = cid \<longrightarrow> ct_email c = email" using assms(1) by (simp add: rows_of_def)
  then have v1: "map verification_view (contacts ?d1) = map (judged V {cid}) (contacts d)"
    unfolding upd_contact_def upd_by_def by (simp add: verification_view_def judged_def assms(3))
  have v2: "map verification_view (contacts (snd (suppress_sync None ?d1 email InvalidAddress det True))) =
      map (judged V {cid}) (contacts d)" for det
    by (subst map_ct_suppress_sync, simp add: verification_view_def, rule v1)
  have s: "suppressed_set ?d1 = suppressed_set d" by (simp add: suppressed_set_def)
  obtain n where n: "count_result (vr_result r) (vp_counts p) = Inr n" "n = tally V [(cid, email)] (vp_counts p)"
    using assms(3,4) by (cases "V email") (auto simp: tally_def count_rows_def)
  show ?thesis
  proof (cases "V email = Invalid")
    case True
    with ct n assms(2,3) v2 s show ?thesis
      by (auto simp: apply_result_def applied_def Let_def invalid_addresses_def suppress_sync_set split: option.split)
  next
    case False
    with ct n assms(2,3) v1 s show ?thesis
      by (auto simp: apply_result_def applied_def invalid_addresses_def)
  qed
qed

lemma tally_Cons: "tally V (row # rows) n = tally V rows (tally V [row] n)"
  by (simp add: tally_def count_rows_def)

lemma tally_append: "tally V (rows1 @ rows2) n = tally V rows2 (tally V rows1 n)"
  by (simp add: tally_def count_rows_def)

lemma tally_Nil [simp]: "tally V [] n = n"
  by (simp add: tally_def count_rows_def)

lemma apply_results_exact:
  assumes "rows_of (vp_db p) rows" "\<forall>e. V e \<noteq> VPending"
    and "\<forall>e \<in> snd ` set rows. \<exists>r. resmap e = Some r \<and> vr_result r = V e"
  shows "\<exists>p'. apply_results resmap rows p = Inr p' \<and> applied V rows (vp_db p) (vp_db p') \<and>
    vp_counts p' = tally V rows (vp_counts p)"
  using assms
proof (induction rows arbitrary: p)
  case (Cons row rows)
  obtain cid email where row: "row = (cid, email)" by (cases row)
  from Cons.prems(3) obtain r where r: "resmap email = Some r" "vr_result r = V email" by (auto simp: row)
  have "rows_of (vp_db p) [(cid, email)]" using Cons.prems(1) by (simp add: rows_of_def row)
  from apply_result_exact [of "vp_db p" cid email p r V, OF this refl r(2)] Cons.prems(2) obtain p1 where p1:
    "apply_result r cid email p = Inr p1" "applied V [(cid, email)] (vp_db p) (vp_db p1)"
    "vp_counts p1 = tally V [(cid, email)] (vp_counts p)" by blast
  have "rows_of (vp_db p) rows" using Cons.prems(1) by (simp add: rows_of_def)
  then have "rows_of (vp_db p1) rows" using p1(2) rows_of_view by (simp add: applied_def)
  from Cons.IH [OF this Cons.prems(2)] Cons.prems(3) obtain p2 where p2:
    "apply_results resmap rows p1 = Inr p2" "applied V rows (vp_db p1) (vp_db p2)"
    "vp_counts p2 = tally V rows (vp_counts p1)" by auto
  from applied_trans [OF p1(2) p2(2)] p1 p2 r(1) show ?case
    by (simp add: row tally_Cons [of V "(cid, email)" rows])
qed simp

lemma set_summary_frame [frame, simp]:
  "contacts (set_summary l x d) = contacts d" "suppressions (set_summary l x d) = suppressions d"
  "suppressed_set (set_summary l x d) = suppressed_set d"
  by (simp_all add: set_summary_def suppressed_set_def)

lemma provider_inhouse [simp]:
  "verify_provider st \<noteq> ''external'' \<Longrightarrow> provider_verify_batch st ve dns now es s = verify_batch ve dns now es s"
  by (simp add: provider_verify_batch_def)

text \<open>Batching is invisible in the effect: the rows are applied as if one by one.\<close>

lemma verify_batches_exact:
  assumes "verify_provider (vv_settings E) \<noteq> ''external''" "0 < vv_batch E"
    and "rows_of (vp_db p) rows" "cache_sound (vv_dns E) now s" "\<forall>e \<in> snd ` set rows. keeps_domain (vv_validator E) e"
    and "V = address_verdict (vv_validator E) (vv_dns E)"
  shows "\<exists>p' s'. verify_batches E now l total_n start rows p s = (None, p', s') \<and>
    applied V rows (vp_db p) (vp_db p') \<and> vp_counts p' = tally V rows (vp_counts p)"
  using assms(3-5)
proof (induction rows arbitrary: p s start rule: length_induct)
  case (1 rows)
  show ?case
  proof (cases "rows = []")
    case True
    then show ?thesis by (subst verify_batches.simps) simp
  next
    case False
    let ?batch = "take (vv_batch E) rows" and ?rest = "drop (vv_batch E) rows"
    let ?ve = "vv_validator E" and ?dns = "vv_dns E"
    have split: "?batch @ ?rest = rows" by simp
    have sub: "set ?batch \<subseteq> set rows" "set ?rest \<subseteq> set rows" by (simp_all add: set_take_subset set_drop_subset)
    have "\<forall>e \<in> set (map snd ?batch). keeps_domain ?ve e" using "1.prems"(3) sub(1) by auto
    from inhouse.verify_lookup [OF "1.prems"(2) this] obtain rs s1 where b:
      "verify_batch ?ve ?dns now (map snd ?batch) s = (Inr rs, s1)" "cache_sound ?dns now s1"
      "\<forall>e \<in> set (map snd ?batch). \<exists>r. result_map rs e = Some r \<and> vr_result r = V e"
      unfolding assms(6) by blast
    have "rows_of (vp_db p) ?batch" using "1.prems"(1) sub(1) unfolding rows_of_def by blast
    moreover have "\<forall>e. V e \<noteq> VPending" by (simp add: assms(6))
    ultimately obtain p1 where p1: "apply_results (result_map rs) ?batch p = Inr p1"
      "applied V ?batch (vp_db p) (vp_db p1)" "vp_counts p1 = tally V ?batch (vp_counts p)"
      using apply_results_exact [of p ?batch V "result_map rs"] b(3) by auto
    let ?p1 = "p1\<lparr>vp_db := set_summary l
       ([(''total'', JInt (int total_n)), (''processed'', JInt (int (min (start + vv_batch E) total_n)))] @
         counts_items (vp_counts p1)) (vp_db p1)\<rparr>"
    have step: "verify_batches E now l total_n start rows p s =
        verify_batches E now l total_n (start + vv_batch E) ?rest ?p1 s1"
      using False assms(1,2) b(1) p1(1) by (subst verify_batches.simps) simp
    have "rows_of (vp_db p) ?rest" using "1.prems"(1) sub(2) unfolding rows_of_def by blast
    then have r1: "rows_of (vp_db ?p1) ?rest"
      using p1(2) rows_of_view [of "vp_db ?p1" V "fst ` set ?batch" "vp_db p"] by (simp add: applied_def)
    have "length ?rest < length rows" using False assms(2) by simp
    moreover have "\<forall>e \<in> snd ` set ?rest. keeps_domain ?ve e" using "1.prems"(3) sub(2) by auto
    ultimately obtain p2 s2 where p2: "verify_batches E now l total_n (start + vv_batch E) ?rest ?p1 s1 = (None, p2, s2)"
      "applied V ?rest (vp_db ?p1) (vp_db p2)" "vp_counts p2 = tally V ?rest (vp_counts ?p1)"
      using "1.IH" r1 b(2) by meson
    have frame: "contacts (vp_db ?p1) = contacts (vp_db p1)" "suppressions (vp_db ?p1) = suppressions (vp_db p1)" by simp_all
    have "applied V rows (vp_db p) (vp_db p2)" using applied_trans [OF p1(2) p2(2) frame] by simp
    moreover have "vp_counts p2 = tally V rows (vp_counts p)"
      using p1(3) p2(3) tally_append [of V ?batch ?rest "vp_counts p"] by simp
    ultimately show ?thesis using step p2(1) by auto
  qed
qed

section \<open>The task as a whole\<close>

lemma list_rows_of: "distinct (map ct_id (contacts d)) \<Longrightarrow> rows_of d (list_rows d l)"
  unfolding rows_of_def get_contact_row_def row_by_None_iff list_rows_def
  by (auto dest: eq_key_imp_eq_value simp: distinct_map inj_on_def)

lemma judged_list_rows:
  assumes "distinct (map ct_id (contacts d))" "ct \<in> set (contacts d)"
  shows "ct_id ct \<in> fst ` set (list_rows d l) \<longleftrightarrow> ct_list_id ct = Some l"
  using assms by (auto simp: list_rows_def distinct_map inj_on_def image_iff)

text \<open>
  What verification may change, whatever the provider answers or raises: the contacts'
  verification result and status, the list's status and summary, and the suppression list, which
  only grows.
\<close>

definition only_verifies :: "db \<Rightarrow> db \<Rightarrow> bool" where
  "only_verifies d d' \<longleftrightarrow>
     map (\<lambda>ct. (ct_id ct, ct_email ct, ct_list_id ct)) (contacts d') = map (\<lambda>ct. (ct_id ct, ct_email ct, ct_list_id ct)) (contacts d) \<and>
     map l_id (contact_lists d') = map l_id (contact_lists d) \<and>
     suppressed_set d \<subseteq> suppressed_set d' \<and> (\<forall>t. t \<noteq> TSuppressions \<longrightarrow> seqs d' t = seqs d t) \<and>
     campaigns d' = campaigns d \<and> recipients d' = recipients d \<and> email_events d' = email_events d \<and>
     templates d' = templates d \<and> app_settings d' = app_settings d \<and> campaign_lists d' = campaign_lists d \<and>
     placements d' = placements d \<and> contact_sends d' = contact_sends d \<and> ip_warm_states d' = ip_warm_states d"

lemma only_verifies_refl [simp]: "only_verifies d d"
  by (simp add: only_verifies_def)

lemma only_verifies_trans: "only_verifies d d1 \<Longrightarrow> only_verifies d1 d2 \<Longrightarrow> only_verifies d d2"
  by (auto simp: only_verifies_def)

lemma only_verifies_upd_list [simp]:
  "(\<And>l. l_id (f l) = l_id l) \<Longrightarrow> only_verifies d (upd_list i f d)"
  by (simp add: only_verifies_def map_upd_by suppressed_set_def)

lemma only_verifies_summary [simp]: "only_verifies d (set_summary l x d)"
  by (simp add: set_summary_def)

lemma only_verifies_set [simp]: "only_verifies d (set_verification l st f d)"
  by (simp add: set_verification_def)

lemma only_verifies_result [simp]: "only_verifies d (upd_contact cid (\<lambda>c. c\<lparr>ct_verification_result := v\<rparr>) d)"
  by (simp add: only_verifies_def map_upd_by suppressed_set_def)

lemma suppress_sync_seqs: "t \<noteq> TSuppressions \<Longrightarrow> seqs (snd (suppress_sync None d e r det upd)) t = seqs d t"
  by (auto simp: suppress_sync_def Let_def insert_suppression_def split: option.split)

lemma only_verifies_suppress [simp]: "only_verifies d (snd (suppress_sync None d e r det upd))"
  by (auto simp: only_verifies_def map_ct_suppress_sync suppress_sync_set suppress_sync_seqs split: option.split)

lemma apply_result_only: "apply_result r cid e p = Inr p' \<Longrightarrow> only_verifies (vp_db p) (vp_db p')"
  by (auto simp: apply_result_def Let_def and_then_Inr_iff intro: only_verifies_trans [OF only_verifies_result only_verifies_suppress]
      split: option.splits if_splits)

lemma apply_results_only: "apply_results m rows p = Inr p' \<Longrightarrow> only_verifies (vp_db p) (vp_db p')"
proof (induction m rows p rule: apply_results.induct)
  case (2 m cid e rows p)
  then show ?case by (auto simp: and_then_Inr_iff split: option.splits dest: apply_result_only intro: only_verifies_trans)
qed simp

lemma verify_batches_step:
  assumes "\<not> (rows = [] \<or> vv_batch E = 0)"
    and "provider_verify_batch (vv_settings E) (vv_validator E) (vv_dns E) now (map snd (take (vv_batch E) rows)) s = (Inr rs, s1)"
    and "apply_results (result_map rs) (take (vv_batch E) rows) p = Inr p1"
  shows "verify_batches E now l total_n start rows p s =
    verify_batches E now l total_n (start + vv_batch E) (drop (vv_batch E) rows)
      (p1\<lparr>vp_db := set_summary l
         ([(''total'', JInt (int total_n)), (''processed'', JInt (int (min (start + vv_batch E) total_n)))] @
           counts_items (vp_counts p1)) (vp_db p1)\<rparr>) s1"
  using assms by (subst verify_batches.simps) simp

lemma verify_batches_only:
  "verify_batches E now l total_n start rows p s = (r, p', s') \<Longrightarrow> only_verifies (vp_db p) (vp_db p')"
proof (induction rows arbitrary: p s start rule: length_induct)
  case (1 rows)
  let ?batch = "take (vv_batch E) rows"
  consider "rows = [] \<or> vv_batch E = 0"
    | (raised) e s1 where "\<not> (rows = [] \<or> vv_batch E = 0)"
        "provider_verify_batch (vv_settings E) (vv_validator E) (vv_dns E) now (map snd ?batch) s = (Inl e, s1)"
    | (bad) e rs s1 where "\<not> (rows = [] \<or> vv_batch E = 0)"
        "provider_verify_batch (vv_settings E) (vv_validator E) (vv_dns E) now (map snd ?batch) s = (Inr rs, s1)"
        "apply_results (result_map rs) ?batch p = Inl e"
    | (go) rs s1 p1 where "\<not> (rows = [] \<or> vv_batch E = 0)"
        "provider_verify_batch (vv_settings E) (vv_validator E) (vv_dns E) now (map snd ?batch) s = (Inr rs, s1)"
        "apply_results (result_map rs) ?batch p = Inr p1"
    by (metis sum.exhaust surj_pair)
  then show ?case
  proof cases
    case go
    have shorter: "length (drop (vv_batch E) rows) < length rows" using go(1) by simp
    from verify_batches_step [OF go] "1.prems" obtain x where "verify_batches E now l total_n (start + vv_batch E)
        (drop (vv_batch E) rows) (p1\<lparr>vp_db := set_summary l x (vp_db p1)\<rparr>) s1 = (r, p', s')" by metis
    with "1.IH" shorter have "only_verifies (set_summary l x (vp_db p1)) (vp_db p')" by fastforce
    with apply_results_only [OF go(3)] show ?thesis by (meson only_verifies_summary only_verifies_trans)
  qed (use "1.prems" in \<open>subst (asm) verify_batches.simps, simp\<close>)+
qed

lemma get_list_only_verifies: "only_verifies d d' \<Longrightarrow> get_list_row l d' = None \<longleftrightarrow> get_list_row l d = None"
  unfolding get_list_row_def row_by_None_iff by (simp add: only_verifies_def flip: set_map)

lemma get_list_set_verification:
  "get_list_row l (set_verification l st f d) =
     map_option (\<lambda>x. x\<lparr>l_verification_status := st, l_verification_summary := f (l_verification_summary x)\<rparr>) (get_list_row l d)"
  by (simp add: set_verification_def get_list_row_def row_by_upd_by)

lemma verify_list_only: "only_verifies d (fst (snd (verify_list E now l d r)))"
proof (cases "get_list_row l d")
  case (Some lst)
  let ?rows = "list_rows d l"
  let ?d1 = "set_verification l LVerifying
    (\<lambda>_. Some (JObj ([(''total'', JInt (int (length ?rows))), (''processed'', JInt 0)] @ counts_items no_verify_counts))) d"
  obtain res p s where b: "verify_batches E now l (length ?rows) 0 ?rows
      \<lparr>vp_counts = no_verify_counts, vp_domains = {}, vp_db = ?d1\<rparr> (new_cache E r) = (res, p, s)"
    by (metis prod_cases3)
  from verify_batches_only [OF b] have "only_verifies ?d1 (vp_db p)" by simp
  from only_verifies_trans [OF only_verifies_set this]
  have "only_verifies d (set_verification l st f (vp_db p))" for st f
    by (rule only_verifies_trans [OF _ only_verifies_set])
  then show ?thesis using b Some by (cases res) (simp_all add: verify_list_def Let_def)
qed (simp add: verify_list_def)

lemma verify_list_exact:
  assumes "get_list_row l d \<noteq> None" "verify_provider (vv_settings E) \<noteq> ''external''" "0 < vv_batch E"
    and "distinct (map ct_id (contacts d))" "cache_sound (vv_dns E) now (new_cache E r)"
    and "\<forall>e \<in> snd ` set (list_rows d l). keeps_domain (vv_validator E) e"
    and V: "V = address_verdict (vv_validator E) (vv_dns E)"
  shows "\<exists>d' r'. verify_list E now l d r =
      (JObj ([(''list_id'', JInt l)] @ counts_items (tally V (list_rows d l) no_verify_counts) @
         [(''total'', JInt (int (length (list_rows d l))))]), d', r') \<and>
    applied V (list_rows d l) d d' \<and> map_option l_verification_status (get_list_row l d') = Some LReady"
proof -
  let ?rows = "list_rows d l" and ?n = "length (list_rows d l)"
  from assms(1) obtain lst where lst: "get_list_row l d = Some lst" by blast
  let ?d1 = "set_verification l LVerifying
    (\<lambda>_. Some (JObj ([(''total'', JInt (int ?n)), (''processed'', JInt 0)] @ counts_items no_verify_counts))) d"
  let ?p = "\<lparr>vp_counts = no_verify_counts, vp_domains = {}, vp_db = ?d1\<rparr>" and ?s = "new_cache E r"
  have frame: "contacts (set_verification l st f x) = contacts x" "suppressions (set_verification l st f x) = suppressions x"
      "suppressed_set (set_verification l st f x) = suppressed_set x" for st f x
    by (simp_all add: set_verification_def suppressed_set_def)
  have "rows_of (vp_db ?p) ?rows" using list_rows_of [OF assms(4), of l] by (simp add: rows_of_def frame get_contact_row_def)
  from verify_batches_exact [OF assms(2,3) this assms(5,6) V, of l ?n 0] obtain p' s' where
    b: "verify_batches E now l ?n 0 ?rows ?p ?s = (None, p', s')" "applied V ?rows ?d1 (vp_db p')"
       "vp_counts p' = tally V ?rows no_verify_counts" by auto
  have "get_list_row l (vp_db p') \<noteq> None"
    using verify_batches_only [OF b(1)] lst by (simp add: get_list_only_verifies get_list_set_verification)
  with b show ?thesis
    by (auto simp: verify_list_def lst Let_def get_list_set_verification applied_def frame)
qed

section \<open>Properties\<close>

text \<open>
  C21: A list verification is exact, and caching and batching are invisible: with the in-house
  provider, a cache that agrees with the resolver and whose reads do not raise (writes may be lost), the
  task records for each contact of the
  list the verdict of its address (and touches no other contact's), suppresses exactly the
  addresses it finds invalid, counts each verdict, and leaves the list ready.
\<close>

theorem verification_exact:
  assumes "get_list_row list_id d \<noteq> None" "verify_provider (vv_settings E) \<noteq> ''external''" "0 < vv_batch E"
    and "distinct (map ct_id (contacts d))" "cache_sound (vv_dns E) now (new_cache E r)"
    and "mine = filter (\<lambda>ct. ct_list_id ct = Some list_id) (contacts d)" "\<forall>ct \<in> set mine. keeps_domain (vv_validator E) (ct_email ct)"
    and "V = address_verdict (vv_validator E) (vv_dns E)"
  shows "\<exists>d' r'. verify_list E now list_id d r =
      (JObj [(''list_id'', JInt list_id), (''valid'', JInt (count_rows (\<lambda>ct. V (ct_email ct) = Valid) mine)),
         (''invalid'', JInt (count_rows (\<lambda>ct. V (ct_email ct) = Invalid) mine)),
         (''unknown'', JInt (count_rows (\<lambda>ct. V (ct_email ct) = Unknown) mine)), (''total'', JInt (int (length mine)))], d', r') \<and>
    map (\<lambda>ct. (ct_id ct, ct_email ct, ct_verification_result ct)) (contacts d') =
      map (\<lambda>ct. (ct_id ct, ct_email ct, if ct_list_id ct = Some list_id then V (ct_email ct) else ct_verification_result ct)) (contacts d) \<and>
    suppressed_set d' = suppressed_set d \<union> {n. \<exists>ct \<in> set mine. V (ct_email ct) = Invalid \<and> normalize_email (Some (ct_email ct)) = Some n} \<and>
    map_option l_verification_status (get_list_row list_id d') = Some LReady"
proof -
  let ?rows = "list_rows d list_id"
  have rows: "?rows = map (\<lambda>ct. (ct_id ct, ct_email ct)) mine" by (simp add: list_rows_def assms(6))
  have "\<forall>e \<in> snd ` set ?rows. keeps_domain (vv_validator E) e" using assms(7) by (simp add: rows)
  from verify_list_exact [OF assms(1-5) this assms(8)] obtain d' r' where
    v: "verify_list E now list_id d r = (JObj ([(''list_id'', JInt list_id)] @ counts_items (tally V ?rows no_verify_counts) @
         [(''total'', JInt (int (length ?rows)))]), d', r')"
       "applied V ?rows d d'" "map_option l_verification_status (get_list_row list_id d') = Some LReady" by blast
  have counts: "count_rows (\<lambda>r. V (snd r) = c) (map (\<lambda>ct. (ct_id ct, ct_email ct)) mine) = count_rows (\<lambda>ct. V (ct_email ct) = c) mine" for c
    by (simp add: count_rows_def filter_map comp_def)
  have "map (\<lambda>(i, e, _, v). (i, e, v)) (map verification_view (contacts d')) =
      map (\<lambda>(i, e, _, v). (i, e, v)) (map (judged V (fst ` set ?rows)) (contacts d))"
    using v(2) by (simp only: applied_def)
  then have view: "map (\<lambda>ct. (ct_id ct, ct_email ct, ct_verification_result ct)) (contacts d') =
      map (\<lambda>ct. (ct_id ct, ct_email ct, if ct_list_id ct = Some list_id then V (ct_email ct) else ct_verification_result ct)) (contacts d)"
    using judged_list_rows [OF assms(4)] by (simp add: verification_view_def judged_def comp_def)
  show ?thesis using v view
    by (simp add: counts_items_def tally_def no_verify_counts_def counts applied_def invalid_addresses_def rows)
qed

text \<open>
  C22: A verification always concludes, whatever provider is configured and whatever it raises, a
  read of the Redis cache included: the
  list is left ready or failed, never verifying, with an error recorded when it failed; no
  campaign, recipient or event changes, and no address leaves the suppression list.
\<close>

theorem verification_concludes:
  assumes "get_list_row list_id d \<noteq> None" "verify_list E now list_id d r = (report, d', r')"
  shows "(\<exists>lst. get_list_row list_id d' = Some lst \<and>
      (l_verification_status lst = LReady \<or>
       l_verification_status lst = LFailed \<and> (\<exists>e msg. report = JObj [(''error'', JStr msg)] \<and> msg = vv_exc_text E e \<and>
          (\<exists>kvs. l_verification_summary lst = Some (JObj kvs) \<and> map_of kvs ''error'' = Some (JStr msg))))) \<and>
    suppressed_set d \<subseteq> suppressed_set d' \<and> campaigns d' = campaigns d \<and> recipients d' = recipients d \<and>
    email_events d' = email_events d"
proof -
  from assms(1) obtain lst where lst: "get_list_row list_id d = Some lst" by blast
  let ?rows = "list_rows d list_id"
  let ?d1 = "set_verification list_id LVerifying
    (\<lambda>_. Some (JObj ([(''total'', JInt (int (length ?rows))), (''processed'', JInt 0)] @ counts_items no_verify_counts))) d"
  obtain res p s where b: "verify_batches E now list_id (length ?rows) 0 ?rows
      \<lparr>vp_counts = no_verify_counts, vp_domains = {}, vp_db = ?d1\<rparr> (new_cache E r) = (res, p, s)"
    by (metis prod_cases3)
  from verify_batches_only [OF b] have "only_verifies ?d1 (vp_db p)" by simp
  from only_verifies_trans [OF only_verifies_set this] have only: "only_verifies d (vp_db p)" .
  with assms(1) obtain l1 where l1: "get_list_row list_id (vp_db p) = Some l1"
    using get_list_only_verifies by (metis not_None_eq)
  have err: "\<exists>kvs. with_error m js = Some (JObj kvs) \<and> map_of kvs ''error'' = Some (JStr m)" for m js
    by (cases "(m, js)" rule: with_error.cases) auto
  from assms(2) b lst obtain st f where d': "d' = set_verification list_id st f (vp_db p)"
    "st = LReady \<or> st = LFailed \<and> (\<exists>e. report = JObj [(''error'', JStr (vv_exc_text E e))] \<and> f = with_error (vv_exc_text E e))"
    by (cases res) (auto simp: verify_list_def Let_def)
  have "only_verifies d d'" unfolding d'(1) by (rule only_verifies_trans [OF only only_verifies_set])
  moreover have "get_list_row list_id d' = Some (l1\<lparr>l_verification_status := st, l_verification_summary := f (l_verification_summary l1)\<rparr>)"
    by (simp add: d'(1) get_list_set_verification l1)
  ultimately show ?thesis using d'(2) err by (auto simp: only_verifies_def)
qed


text \<open>A list with a deliverable and an undeliverable address, for the witnesses.\<close>

definition verify_db :: db where
  "verify_db = insert_contact ''b@no.com'' None None [] 1
     (insert_contact ''a@x.com'' None None [] 1
       (empty_db\<lparr>contact_lists := [\<lparr>l_id = 1, l_name = ''L'', l_description = None, l_source_filename = None,
          l_created_by = None, l_contact_count = 0, l_verification_status = LPending, l_verification_summary = None,
          l_import_summary = None, l_free_provider_filter_applied = False, l_created_at = 0\<rparr>]\<rparr>))"

definition small_dns :: resolver where
  "small_dns ty dmn = (if dmn = ''x.com'' then Records 1 else NoRecords)"

definition small_verify_env :: verify_env where
  "small_verify_env = \<lparr>vv_settings = default_settings, vv_validator = plain_validator, vv_dns = small_dns,
     vv_exc_text = (\<lambda>_. ''error''), vv_reads = (\<lambda>_. None), vv_lost = (\<lambda>_. False), vv_batch = verify_batch_size\<rparr>"


lemma small_verify:
  "list_rows verify_db 1 = [(1, ''a@x.com''), (2, ''b@no.com'')]"
  "contacts verify_db = [new_contact 1 ''a@x.com'' None None [] 1, new_contact 2 ''b@no.com'' None None [] 1]"
  "get_list_row 1 verify_db \<noteq> None"
  by code_simp+

lemma small_verdicts:
  "address_verdict plain_validator small_dns ''a@x.com'' = Valid"
  "address_verdict plain_validator small_dns ''b@no.com'' = Invalid"
  "keeps_domain plain_validator ''a@x.com''" "keeps_domain plain_validator ''b@no.com''"
  "normalize_email (Some ''b@no.com'') = Some ''b@no.com''"
proof -
  show "address_verdict plain_validator small_dns ''a@x.com'' = Valid" by code_simp
  show "address_verdict plain_validator small_dns ''b@no.com'' = Invalid" by code_simp
  have "accepted_address (validate_syntax plain_validator (Some ''a@x.com'')) = Some ''a@x.com''" by code_simp
  then show "keeps_domain plain_validator ''a@x.com''" by (simp add: keeps_domain_def)
  have "accepted_address (validate_syntax plain_validator (Some ''b@no.com'')) = Some ''b@no.com''" by code_simp
  then show "keeps_domain plain_validator ''b@no.com''" by (simp add: keeps_domain_def)
  show "normalize_email (Some ''b@no.com'') = Some ''b@no.com''" by code_simp
qed

theorem verification_exact_witness:
  "\<exists>d' r'. fst (verify_list small_verify_env 0 1 verify_db empty_redis) =
      JObj [(''list_id'', JInt 1), (''valid'', JInt 1), (''invalid'', JInt 1), (''unknown'', JInt 0), (''total'', JInt 2)] \<and>
    snd (verify_list small_verify_env 0 1 verify_db empty_redis) = (d', r') \<and> suppressed_set d' = {''b@no.com''}"
proof -
  let ?mine = "[new_contact 1 ''a@x.com'' None None [] 1, new_contact 2 ''b@no.com'' None None [] 1]"
  let ?V = "address_verdict plain_validator small_dns"
  have mine: "?mine = filter (\<lambda>ct. ct_list_id ct = Some 1) (contacts verify_db)" by (simp add: small_verify)
  have env: "vv_settings small_verify_env = default_settings" "vv_validator small_verify_env = plain_validator"
    "vv_dns small_verify_env = small_dns" "vv_batch small_verify_env = 1000" "verify_provider default_settings \<noteq> ''external''"
    by (simp_all add: small_verify_env_def verify_batch_size_def default_settings_def)
  have sound: "cache_sound small_dns 0 (new_cache small_verify_env empty_redis)"
    by (simp add: new_cache_def small_verify_env_def cache_sound_def cached_text_def empty_redis_def)
  have dist: "distinct (map ct_id (contacts verify_db))" by (simp add: small_verify)
  have scope: "\<forall>ct \<in> set ?mine. keeps_domain plain_validator (ct_email ct)" by (simp add: small_verdicts)
  have none: "suppressed_set verify_db = {}" by (simp add: suppressed_set_def verify_db_def empty_db_def)
  have counts: "count_rows (\<lambda>ct. ?V (ct_email ct) = Valid) ?mine = 1" "count_rows (\<lambda>ct. ?V (ct_email ct) = Invalid) ?mine = 1"
    "count_rows (\<lambda>ct. ?V (ct_email ct) = Unknown) ?mine = 0" by (simp_all add: count_rows_def small_verdicts)
  have inv: "{n. \<exists>ct \<in> set ?mine. ?V (ct_email ct) = Invalid \<and> normalize_email (Some (ct_email ct)) = Some n} = {''b@no.com''}"
    by (auto simp: small_verdicts)
  have prem: "verify_provider (vv_settings small_verify_env) \<noteq> ''external''" "0 < vv_batch small_verify_env"
    "cache_sound (vv_dns small_verify_env) 0 (new_cache small_verify_env empty_redis)"
    "\<forall>ct \<in> set ?mine. keeps_domain (vv_validator small_verify_env) (ct_email ct)"
    "?V = address_verdict (vv_validator small_verify_env) (vv_dns small_verify_env)"
    using env(5) sound scope by (simp_all only: env)
  from verification_exact [OF small_verify(3) prem(1,2) dist prem(3) mine prem(4,5)]
  obtain d' r' where "verify_list small_verify_env 0 1 verify_db empty_redis =
      (JObj [(''list_id'', JInt 1), (''valid'', JInt 1), (''invalid'', JInt 1), (''unknown'', JInt 0), (''total'', JInt 2)], d', r')"
    "suppressed_set d' = {''b@no.com''}"
    unfolding counts inv none by auto
  then show ?thesis by auto
qed

theorem verification_concludes_witness:
  "get_list_row 1 (fst (snd (verify_list (small_verify_env\<lparr>vv_settings := default_settings\<lparr>verify_provider := ''external''\<rparr>\<rparr>)
     0 1 verify_db empty_redis))) \<noteq> None"
  using verification_concludes [OF small_verify(3)] by (metis option.distinct(1) prod.collapse)

end
