(* ===== verification/System.thy ===== *)
theory System
  imports Scheduler Bounce Templates Planner Campaigns Csv_Import Verification
begin

text \<open>
  The system as a whole: every task, webhook, public page and form of the other theories is a
  step on the world (committed database, Redis, task queue, accepted messages), and runs are
  sequences of steps in any order.  Each step is atomic, as the transactions of the database
  are; a task in the queue may run any number of times before it is acknowledged (Celery
  delivers at least once).  \<open>send_killed\<close> is the worker that dies between the provider's
  acceptance and the transaction that records it; \<open>Workers\<close> refines the send task into the steps
  that interleave with others.
\<close>

section \<open>What every operation keeps\<close>

definition core_same :: "db \<Rightarrow> db \<Rightarrow> bool" where
  "core_same d d' \<longleftrightarrow> recipients d' = recipients d \<and> contacts d' = contacts d \<and> placements d' = placements d \<and>
     suppressions d' = suppressions d \<and> seqs d' TRecipients = seqs d TRecipients \<and>
     seqs d' TContacts = seqs d TContacts \<and> seqs d' TPlacements = seqs d TPlacements"

definition placed :: "db \<Rightarrow> bool" where
  "placed d \<longleftrightarrow> placements_ok d \<and> 0 \<le> seqs d TPlacements"

text \<open>
  A database evolves: identifiers of recipients are handed out once, a recipient that is not
  pending never becomes pending, no address leaves the suppression list, and the tables stay well
  formed (the contacts as long as the validator does what it documents).
\<close>

definition evolves :: "bool \<Rightarrow> db \<Rightarrow> db \<Rightarrow> bool" where
  "evolves V d d' \<longleftrightarrow>
     (ids_ok d \<longrightarrow> ids_ok d' \<and> ledger_le d d') \<and> suppressed_set d \<subseteq> suppressed_set d' \<and>
     (V \<longrightarrow> contacts_ok d \<longrightarrow> contacts_ok d') \<and> (placed d \<longrightarrow> placed d')"

lemma core_same_refl [simp]: "core_same d d"
  by (simp add: core_same_def)

lemma core_same_trans: "core_same a b \<Longrightarrow> core_same b c \<Longrightarrow> core_same a c"
  by (simp add: core_same_def)

lemma evolves_refl [simp]: "evolves V d d"
  by (simp add: evolves_def)

lemma evolves_trans: "evolves V a b \<Longrightarrow> evolves V b c \<Longrightarrow> evolves V a c"
  by (auto simp: evolves_def intro: ledger_le_trans)

lemma core_same_evolves:
  assumes "core_same d d'"
  shows "evolves V d d'"
proof -
  have same: "recipients d' = recipients d" "seqs d' TRecipients = seqs d TRecipients"
    "contacts d' = contacts d" "seqs d' TContacts = seqs d TContacts" using assms by (simp_all add: core_same_def)
  have "ids_ok d' = ids_ok d" "ledger_le d d'"
    by (rule ids_ok_same [OF same(1,2)], rule ledger_le_same [OF same(1,2)])
  moreover have "suppressed_set d' = suppressed_set d" using assms by (simp add: core_same_def suppressed_set_def)
  moreover have "contacts_ok d' = contacts_ok d" by (rule contacts_ok_frame [OF same(3,4)])
  moreover have "placed d' = placed d" using assms by (simp add: core_same_def placed_def placements_ok_def)
  ultimately show ?thesis by (simp add: evolves_def)
qed

text \<open>An operation that may raise runs in a transaction: an exception leaves the database.\<close>

definition committed :: "db \<Rightarrow> exn + 'a \<times> db \<Rightarrow> db" where
  "committed d r = (case r of Inl e \<Rightarrow> d | Inr (x, d') \<Rightarrow> d')"

lemma committed_simps [simp]: "committed d (Inl e) = d" "committed d (Inr (x, d')) = d'"
  by (simp_all add: committed_def)

section \<open>Operations that leave the core tables alone\<close>

lemma core_upd_campaign [simp]: "core_same d (upd_campaign i f d)"
  by (simp add: core_same_def)

lemma core_upd_list [simp]: "core_same d (upd_list i f d)"
  by (simp add: core_same_def)

lemma core_insert_campaign: "insert_campaign c d = Inr (c', d') \<Longrightarrow> core_same d d'"
  by (auto simp: insert_campaign_def core_same_def split: if_splits)

lemma core_create_campaign: "core_same d (committed d (create_campaign st now f d))"
  by (auto simp: create_campaign_def committed_def split: sum.split dest: core_insert_campaign)

lemma core_update_campaign: "core_same d (committed d (update_campaign i f d))"
  by (auto simp: update_campaign_def Let_def split: option.split)

lemma core_schedule: "core_same d (snd (schedule_route ve st i w d))"
  by (auto simp: schedule_route_def schedule_def Let_def split: option.split)

lemma core_set_status [simp]: "core_same d (set_status s c d)"
  by (simp add: set_status_def)

lemma core_with_campaign:
  "(\<And>c. core_same d (snd (act c d))) \<Longrightarrow> core_same d (snd (with_campaign act i d))"
  by (auto simp: with_campaign_def split: option.split)

lemma core_pause: "core_same d (snd (pause_route i d))"
  unfolding pause_route_def by (rule core_with_campaign) (simp add: pause_def)

lemma core_cancel: "core_same d (snd (cancel_route i d))"
  unfolding cancel_route_def by (rule core_with_campaign) (simp add: cancel_def)

lemma core_resume: "core_same d (snd (resume_route i d))"
proof -
  have "core_same d (snd (with_campaign resume i d))" by (rule core_with_campaign) (simp add: resume_def)
  then show ?thesis
    by (cases "with_campaign resume i d") (auto simp: resume_route_def split: bool.split)
qed

lemma core_duplicate: "core_same d (committed d (duplicate_campaign now i d))"
  by (auto simp: duplicate_campaign_def committed_def and_then_def split: option.split sum.split prod.split
      dest: core_insert_campaign)

lemma core_set_campaign_lists [simp]: "core_same d (set_campaign_lists i ls d)"
proof -
  have "seqs (add_campaign_lists i ls seen x) t = seqs x t" if "t \<noteq> TCampaignLists" for seen x t
    using that by (induction i ls seen x rule: add_campaign_lists.induct) simp_all
  then show ?thesis by (simp add: core_same_def) (simp add: set_campaign_lists_def)
qed

lemma core_create_recurring: "core_same d (committed d (create_recurring now ls f d))"
  by (auto simp: create_recurring_def committed_def and_then_def split: sum.split prod.split
      dest!: core_insert_campaign intro: core_same_trans)

lemma core_update_recurring: "core_same d (committed d (update_recurring i ls f d))"
  by (auto simp: update_recurring_def Let_def split: option.split
      intro: core_same_trans [OF core_upd_campaign core_set_campaign_lists])

lemma core_link_lists [simp]: "core_same d (link_lists i ls d)"
proof (induction ls arbitrary: d)
  case (Cons l ls)
  have "core_same d (link_lists i [l] d)" by (simp add: link_lists_def core_same_def)
  moreover have "link_lists i (l # ls) d = link_lists i ls (link_lists i [l] d)" by (simp add: link_lists_def)
  ultimately show ?case using Cons core_same_trans by metis
qed (simp add: link_lists_def)

lemma core_ensure_run: "ensure_run zones st now i ld d = Inr (r, d') \<Longrightarrow> core_same d d'"
  by (auto simp: ensure_run_def and_then_Inr_iff Let_def dest!: core_insert_campaign
      split: option.splits if_splits intro: core_same_trans)

lemma core_ensure_runs: "core_same d (snd (ensure_runs zones st now ids ld d))"
  by (induction zones st now ids ld d rule: ensure_runs.induct)
     (auto split: sum.split prod.split option.split dest: core_ensure_run intro: core_same_trans)

lemma core_run_planner: "core_same d (snd (run_planner zones st now d))"
  by (auto simp: run_planner_def dispatch_planner_def Let_def core_ensure_runs split: option.split)

lemma core_upsert [simp]: "core_same d (upsert k v d)"
  by (auto simp: upsert_def core_same_def split: option.split)

lemma core_free_provider: "core_same d (set_free_provider_config b ds d)"
  by (auto simp: set_free_provider_config_def Let_def intro: core_same_trans [OF core_upsert core_upsert])

lemma core_planner_config:
  "core_same d (case update_planner_config a b c e f g h p d of Inl x \<Rightarrow> d | Inr d' \<Rightarrow> d')"
  by (auto simp: update_planner_config_def split: sum.split dest!: set_planner_config_upsert)

lemma core_warming_ip: "core_same d (set_warming_ip now ip pool since d)"
  by (auto simp: set_warming_ip_def ensure_ip_warm_state_def core_same_def Let_def split: option.split)

lemma core_delete_ip: "core_same d (delete_warming_ip ip d)"
  by (simp add: delete_warming_ip_def core_same_def)

lemma core_create_list: "core_same d (snd (create_list now nm de sf cb d))"
  by (simp add: create_list_def core_same_def Let_def)

lemma core_create_template: "core_same d (snd (create_template now nm ty sd b d))"
  by (simp add: create_template_def core_same_def Let_def)

lemma core_update_template: "core_same d (snd (update_template now i nm ty sd b d))"
  by (auto simp: update_template_def core_same_def Let_def split: option.split)

lemma core_delete_template: "core_same d (committed d (delete_template i d))"
  by (auto simp: delete_template_def core_same_def split: option.split)

section \<open>Operations that delete rows\<close>

text \<open>Rows may go or be rewritten, as long as identifiers and statuses stay.\<close>

lemma kept_rows:
  assumes "ids_ok d" "recipients d' = map g (filter P (recipients d))" "seqs d' TRecipients = seqs d TRecipients"
    and "\<And>r. cr_id (g r) = cr_id r" "\<And>r. cr_status (g r) = cr_status r"
  shows "ids_ok d' \<and> ledger_le d d'"
proof
  show "ids_ok d'" using assms(1) by (auto simp: ids_ok_def assms comp_def distinct_map_filter)
  have "\<exists>cr. get_recipient_row i d = Some cr \<and> cr_status cr = RPending"
    if got: "get_recipient_row i d' = Some cr'" and st: "cr_status cr' = RPending" for i cr'
  proof -
    from got obtain r where "r \<in> set (recipients d)" "cr' = g r" "cr_id cr' = i"
      by (auto simp: get_recipient_row_def assms(2) dest!: row_by_SomeD)
    with assms(1) st show ?thesis
      by (auto simp: get_recipient_row_def ids_ok_def assms(4,5) intro: row_by_unique)
  qed
  then show "ledger_le d d'" by (simp add: ledger_le_def assms(3))
qed

lemma evolves_delete_campaign: "evolves V d (delete_campaign_row i d)"
proof -
  have "ids_ok d \<Longrightarrow> ids_ok (delete_campaign_row i d) \<and> ledger_le d (delete_campaign_row i d)"
    by (rule kept_rows [where g = id and P = "\<lambda>r. cr_campaign_id r \<noteq> i"])
       (simp_all add: delete_campaign_row_def delete_recipients_def Let_def)
  moreover have "placements_ok d \<Longrightarrow> placements_ok (delete_campaign_row i d)"
    by (auto simp: placements_ok_def delete_campaign_row_def delete_recipients_def Let_def distinct_map_filter)
  moreover have "contacts_ok d \<Longrightarrow> contacts_ok (delete_campaign_row i d)"
    by (simp add: contacts_ok_def)
  ultimately show ?thesis by (simp add: evolves_def placed_def suppressed_set_def)
qed

lemma evolves_delete_contacts: "evolves V d (delete_contacts P d)"
proof -
  let ?g = "\<lambda>r. case cr_contact_id r of
      Some i \<Rightarrow> if i \<in> ct_id ` {x \<in> set (contacts d). P x} then r\<lparr>cr_contact_id := None\<rparr> else r | None \<Rightarrow> r"
  have "ids_ok d \<Longrightarrow> ids_ok (delete_contacts P d) \<and> ledger_le d (delete_contacts P d)"
  proof (rule kept_rows [where g = ?g and P = "\<lambda>_. True"])
    show "recipients (delete_contacts P d) = map ?g (filter (\<lambda>_. True) (recipients d))"
      by (simp add: delete_contacts_def Let_def)
  qed (auto split: option.split)
  moreover have "placements (delete_contacts P d) = placements d" by (simp add: delete_contacts_def Let_def)
  ultimately show ?thesis
    using delete_contacts_ok [of d P]
    by (simp add: evolves_def placed_def placements_ok_def suppressed_set_def)
qed

lemma evolves_delete_campaign_req: "evolves V d (snd (delete_campaign i d))"
  by (auto simp: delete_campaign_def evolves_delete_campaign split: option.split)

lemma evolves_delete_recurring: "evolves V d (snd (delete_recurring i d))"
  by (auto simp: delete_recurring_def evolves_delete_campaign split: option.split)

lemma evolves_delete_list: "evolves V d (committed d (delete_list i d))"
proof -
  let ?d1 = "delete_contacts (\<lambda>ct. ct_list_id ct = Some i) d"
  have "core_same ?d1 (?d1\<lparr>contact_lists := x, campaign_lists := y\<rparr>)" for x y by (simp add: core_same_def)
  then have "evolves V d (?d1\<lparr>contact_lists := x, campaign_lists := y\<rparr>)" for x y
    by (rule evolves_trans [OF evolves_delete_contacts core_same_evolves])
  then show ?thesis by (auto simp: delete_list_def Let_def split: option.split)
qed

section \<open>Placements, contacts and suppression\<close>

lemma evolves_placements:
  assumes "recipients d' = recipients d" "seqs d' TRecipients = seqs d TRecipients" "contacts d' = contacts d"
    "seqs d' TContacts = seqs d TContacts" "suppressions d' = suppressions d" "placed d \<longrightarrow> placed d'"
  shows "evolves V d d'"
proof -
  have "ids_ok d' = ids_ok d" "ledger_le d d'" "contacts_ok d' = contacts_ok d"
    by (rule ids_ok_same [OF assms(1,2)], rule ledger_le_same [OF assms(1,2)], rule contacts_ok_frame [OF assms(3,4)])
  with assms(5,6) show ?thesis by (simp add: evolves_def suppressed_set_def)
qed

lemma evolves_add_placement: "evolves V d (committed d (add_placement c wk wd d))"
proof (cases "add_placement c wk wd d")
  case (Inr rd)
  obtain r d' where rd: "rd = (r, d')" by (cases rd)
  from Inr have "recipients d' = recipients d" "seqs d' TRecipients = seqs d TRecipients" "contacts d' = contacts d"
    "seqs d' TContacts = seqs d TContacts" "suppressions d' = suppressions d" "seqs d TPlacements \<le> seqs d' TPlacements"
    by (auto simp: rd add_placement_def Let_def split: if_splits option.splits)
  moreover have "placed d \<longrightarrow> placed d'"
    using add_placement_ok [OF _ Inr [unfolded rd]] calculation(6) by (auto simp: placed_def)
  ultimately show ?thesis by (simp add: Inr rd evolves_placements)
qed simp

lemma evolves_move_placement: "evolves V d (snd (move_placement i wk wd d))"
proof -
  have seqs: "seqs (snd (move_placement i wk wd d)) = seqs d"
    by (auto simp: move_placement_def Let_def split: option.split)
  have "placed d \<longrightarrow> placed (snd (move_placement i wk wd d))"
    using move_placement_ok by (auto simp: placed_def seqs)
  with seqs show ?thesis
    by (intro evolves_placements) (auto simp: move_placement_def Let_def split: option.split)
qed

lemma evolves_remove_placement: "evolves V d (snd (remove_placement i d))"
proof -
  have "placed d \<longrightarrow> placed (snd (remove_placement i d))"
    by (auto simp: placed_def placements_ok_def remove_placement_def set_del_by distinct_del_by)
  then show ?thesis by (intro evolves_placements) (simp_all add: remove_placement_def)
qed

lemma evolves_suppress: "evolves V d (snd (suppress_sync None d e r det upd))"
proof -
  let ?d = "snd (suppress_sync None d e r det upd)"
  have seqs: "seqs ?d t = seqs d t" if "t \<noteq> TSuppressions" for t
    using that by (auto simp: suppress_sync_def Let_def insert_suppression_def split: option.split)
  have same: "recipients ?d = recipients d" "seqs ?d TRecipients = seqs d TRecipients" by (simp_all add: seqs)
  have "ids_ok ?d = ids_ok d" "ledger_le d ?d"
    by (rule ids_ok_same [OF same], rule ledger_le_same [OF same])
  moreover have "suppressed_set d \<subseteq> suppressed_set ?d" by (auto simp: suppress_sync_set split: option.split)
  ultimately show ?thesis
    using suppress_sync_contacts_ok [of d]
    by (simp add: evolves_def placed_def placements_ok_def seqs)
qed

lemma evolves_suppress_async: "evolves V d (snd (suppress_async None d e r det upd))"
  by (simp add: suppress_async_eq evolves_suppress)

lemma evolves_remove_and_suppress: "evolves V d (snd (remove_and_suppress None e d))"
  by (auto simp: remove_and_suppress_def split: option.split
      intro: evolves_trans [OF evolves_suppress_async evolves_delete_contacts])

lemma evolves_suppress_only: "evolves V d (snd (suppress_only None e r d))"
  by (auto simp: suppress_only_def Let_def evolves_suppress_async split: option.split)

lemma evolves_unsubscribe: "evolves V d (snd (unsubscribe loads None token d))"
  by (auto simp: unsubscribe_def evolves_suppress_async split: option.split)

lemma evolves_contacts:
  assumes "recipients d' = recipients d" "\<And>t. t \<noteq> TContacts \<Longrightarrow> seqs d' t = seqs d t"
    "placements d' = placements d" "suppressions d' = suppressions d" "V \<longrightarrow> contacts_ok d \<longrightarrow> contacts_ok d'"
  shows "evolves V d d'"
proof -
  have seqs: "seqs d' TRecipients = seqs d TRecipients" "seqs d' TPlacements = seqs d TPlacements" by (simp_all add: assms(2))
  have "ids_ok d' = ids_ok d" "ledger_le d d'"
    by (rule ids_ok_same [OF assms(1) seqs(1)], rule ledger_le_same [OF assms(1) seqs(1)])
  with assms(3-5) show ?thesis by (simp add: evolves_def suppressed_set_def placed_def placements_ok_def seqs)
qed

lemma insert_contact_rest [simp]:
  "placements (insert_contact e f l c i d) = placements d"
  "t \<noteq> TContacts \<Longrightarrow> seqs (insert_contact e f l c i d) t = seqs d t"
  by (simp_all add: insert_contact_def)

lemma evolves_add_contact: "evolves (validator_wf ve) d (committed d (add_contact ve i e f l d))"
proof (cases "add_contact ve i e f l d")
  case (Inr rd)
  obtain r d' where rd: "rd = (r, d')" by (cases rd)
  have "recipients d' = recipients d" "placements d' = placements d" "suppressions d' = suppressions d"
    "\<And>t. t \<noteq> TContacts \<Longrightarrow> seqs d' t = seqs d t"
    using Inr by (auto simp: rd add_contact_def recount_list_def split: option.splits if_splits)
  moreover have "validator_wf ve \<longrightarrow> contacts_ok d \<longrightarrow> contacts_ok d'"
    using add_contact_Inr [OF _ _ Inr [unfolded rd]] by blast
  ultimately show ?thesis by (simp add: Inr rd evolves_contacts)
qed simp

section \<open>Imports\<close>

text \<open>An import leaves everything but the contacts and the lists alone.\<close>

definition imports_only :: "db \<Rightarrow> db \<Rightarrow> bool" where
  "imports_only d d' \<longleftrightarrow>
     (\<exists>cts ls sq. d' = d\<lparr>contacts := cts, contact_lists := ls, seqs := sq\<rparr> \<and> (\<forall>t. t \<noteq> TContacts \<longrightarrow> sq t = seqs d t))"

lemma imports_only_refl [simp]: "imports_only d d"
  unfolding imports_only_def
  by (rule exI [of _ "contacts d"], rule exI [of _ "contact_lists d"], rule exI [of _ "seqs d"]) simp

lemma imports_only_trans: "imports_only a b \<Longrightarrow> imports_only b c \<Longrightarrow> imports_only a c"
  unfolding imports_only_def by (elim exE conjE) (simp, blast)

lemma imports_only_insert [simp]: "imports_only d (insert_contact e f l c i d)"
  unfolding imports_only_def insert_contact_def bump_seq_def
  by (rule exI [of _ "contacts d @ [new_contact (next_id TContacts d) e f l c i]"],
      rule exI [of _ "contact_lists d"], rule exI [of _ "(seqs d)(TContacts := seqs d TContacts + 1)"]) simp

lemma imports_only_list [simp]: "imports_only d (upd_list i f d)"
  unfolding imports_only_def upd_list_def
  by (rule exI [of _ "contacts d"], rule exI [of _ "upd_by l_id i f (contact_lists d)"], rule exI [of _ "seqs d"]) simp

lemma flush_rows_only: "imports_only d (snd (flush_rows l supp ex ps n d))"
proof (induction l supp ex ps n d rule: flush_rows.induct)
  case (2 l supp ex p ps n d)
  then show ?case by (auto intro: imports_only_trans [OF imports_only_insert])
qed simp

lemma flush_batch_only: "flush_batch fk ft l ps n d = (r, n', d') \<Longrightarrow> imports_only d d'"
  using flush_rows_only [of d l "emails_in suppressed_set d ps" "emails_in contact_emails d ps" ps n]
  by (auto simp: flush_batch_def Let_def split: if_splits prod.splits option.splits)

lemma import_row_only: "imports_only (im_db s) (im_db (import_row E cn m raw s))"
proof -
  have full: "imports_only (im_db t) (im_db (flush_full E t))" for t
    by (auto simp: flush_full_def dest: flush_batch_only split: prod.splits option.splits)
  have "imports_only (im_db t) (im_db (flush_full E (t\<lparr>im_counts := x, im_seen := y, im_pending := z\<rparr>)))" for t x y z
    using full [of "t\<lparr>im_counts := x, im_seen := y, im_pending := z\<rparr>"] by simp
  then show ?thesis by (auto simp: import_row_def Let_def split: option.split)
qed

lemma import_rows_only: "imports_only d (im_db (import_rows E cn m rows d))"
proof -
  have "imports_only (im_db s) (im_db (fold (import_row E cn m) rows s))" for s
    by (induction rows arbitrary: s) (auto intro: imports_only_trans [OF import_row_only])
  from this [of "\<lparr>im_counts = no_counts, im_seen = {}, im_pending = [], im_flushes = 0, im_db = d\<rparr>"]
  show ?thesis by (simp add: import_rows_def)
qed

lemma finish_import_only: "imports_only (im_db s) (snd (finish_import E s))"
proof -
  have "imports_only d (finalize_import l n b d)" for l n b d
    by (simp add: finalize_import_def split: option.split)
  then show ?thesis
    by (auto simp: finish_import_def dest: flush_batch_only intro: imports_only_trans split: prod.split option.split)
qed

lemma import_body_only: "imports_only d (snd (import_body E ov rows err d))"
  by (auto simp: import_body_def Let_def import_rows_only split: prod.split option.split
      intro: imports_only_trans [OF import_rows_only finish_import_only])

lemma import_csv_only: "imports_only d (snd (import_csv st ve fk flt l tx ov af d))"
proof -
  have "imports_only d (finalize_import l n b d)" for l n b d
    by (simp add: finalize_import_def split: option.split)
  then have "imports_only d (snd (import_into_list st ve fk flt l tx ov af d))"
    by (auto simp: import_into_list_def Let_def import_body_only split: sum.split prod.split list.split option.split)
  then show ?thesis
    by (cases "import_into_list st ve fk flt l tx ov af d") (auto simp: import_csv_def split: sum.split)
qed

lemma evolves_import: "evolves (validator_wf ve) d (snd (import_csv st ve fk flt l tx ov af d))"
proof -
  let ?d = "snd (import_csv st ve fk flt l tx ov af d)"
  have eq: "?d = snd (import_into_list st ve fk flt l tx ov af d)"
    by (cases "import_into_list st ve fk flt l tx ov af d") (auto simp: import_csv_def split: sum.split)
  have "validator_wf ve \<longrightarrow> contacts_ok d \<longrightarrow> contacts_ok ?d"
    unfolding eq using import_into_list_safe only_imports_def by blast
  moreover from import_csv_only [of d st ve fk flt l tx ov af]
  have "recipients ?d = recipients d" "\<And>t. t \<noteq> TContacts \<Longrightarrow> seqs ?d t = seqs d t"
    "placements ?d = placements d" "suppressions ?d = suppressions d"
    by (auto simp: imports_only_def)
  ultimately show ?thesis by (intro evolves_contacts)
qed

section \<open>Verification, materialization and webhooks\<close>

lemma contacts_ok_maps:
  assumes "map ct_id (contacts d') = map ct_id (contacts d)" "map ct_email (contacts d') = map ct_email (contacts d)"
    "seqs d' TContacts = seqs d TContacts"
  shows "contacts_ok d' = contacts_ok d"
proof -
  have "contacts_ok x \<longleftrightarrow> distinct (map ct_id (contacts x)) \<and> distinct (map ct_email (contacts x)) \<and>
      list_all (\<lambda>i. i \<le> seqs x TContacts) (map ct_id (contacts x)) \<and> list_all canonical (map ct_email (contacts x))" for x
    by (auto simp: contacts_ok_def list_all_iff)
  then show ?thesis by (simp only: assms)
qed

lemma evolves_verify: "evolves V d (fst (snd (verify_list E now l d r)))"
proof -
  let ?d = "fst (snd (verify_list E now l d r))"
  have only: "only_verifies d ?d" by (rule verify_list_only)
  then have same: "recipients ?d = recipients d" "seqs ?d TRecipients = seqs d TRecipients" by (simp_all add: only_verifies_def)
  have "ids_ok ?d = ids_ok d" "ledger_le d ?d" by (rule ids_ok_same [OF same], rule ledger_le_same [OF same])
  moreover have "contacts_ok ?d = contacts_ok d"
  proof (rule contacts_ok_maps)
    let ?v = "\<lambda>ct. (ct_id ct, ct_email ct, ct_list_id ct)"
    have m: "map ?v (contacts ?d) = map ?v (contacts d)" using only by (simp add: only_verifies_def)
    show "map ct_id (contacts ?d) = map ct_id (contacts d)" "map ct_email (contacts ?d) = map ct_email (contacts d)"
      using arg_cong [OF m, of "map fst"] arg_cong [OF m, of "map (fst \<circ> snd)"] by (simp_all add: comp_def)
    show "seqs ?d TContacts = seqs d TContacts" using only by (simp add: only_verifies_def)
  qed
  ultimately show ?thesis using only by (simp add: evolves_def only_verifies_def placed_def placements_ok_def)
qed

lemma add_rows_evolves:
  "evolves V d (snd (add_rows now c inel js ex n d))"
proof (induction now c inel js ex n d rule: add_rows.induct)
  case (2 now c inel j js ex n d)
  let ?d = "add_recipient now c (row_status inel j) (j_contact j) d"
  have "ids_ok ?d \<and> ledger_le d ?d" if ok: "ids_ok d"
  proof -
    have "seqs d TRecipients + 1 \<notin> cr_id ` set (recipients d)" using ok by (force simp: ids_ok_def)
    with ok have "ids_ok ?d" by (auto simp: ids_ok_def add_recipient_def next_id_def)
    moreover have "ledger_le d ?d"
      by (auto simp: ledger_le_def get_recipient_row_def add_recipient_def next_id_def row_by_append split: option.splits)
    ultimately show ?thesis ..
  qed
  then have "evolves V d ?d"
    by (simp add: evolves_def suppressed_set_def contacts_ok_def placed_def placements_ok_def)
       (simp add: add_recipient_def)
  with 2 show ?case by (auto simp: Let_def intro: evolves_trans)
qed simp

lemma evolves_materialize: "materialize_db now cid d = Inr (res, d') \<Longrightarrow> evolves V d d'"
proof -
  assume m: "materialize_db now cid d = Inr (res, d')"
  have rec: "core_same x (recount cid x)" for x by (simp add: recount_def Let_def)
  have fin: "evolves V d (recount cid (snd (add_rows now c inel js ex n d)))" for c inel js ex n
    by (rule evolves_trans [OF add_rows_evolves core_same_evolves [OF rec]])
  show ?thesis
  proof (cases "get_campaign_row cid d")
    case (Some c)
    with m show ?thesis
      by (cases "c_status c = Sending"; cases "campaign_list_ids_sync d cid = []")
         (auto simp: materialize_db_def Let_def and_then_Inr_iff core_same_evolves split_beta intro: fin)
  qed (use m in \<open>simp add: materialize_db_def\<close>)
qed

lemma evolves_save:
  assumes "\<And>r. cr_id (f r) = cr_id r" "\<And>r. cr_status (f r) = RPending \<Longrightarrow> cr_status r = RPending"
  shows "evolves V d (save_recipient now i f d)"
proof -
  let ?d = "save_recipient now i f d"
  have "ids_ok ?d \<and> ledger_le d ?d" if ok: "ids_ok d"
  proof
    show "ids_ok ?d" by (rule upd_recipients_ids_ok [OF ok, of _ i "touch now f"]) (simp_all add: assms)
    have "get_recipient_row j ?d = (if j = i then map_option (touch now f) (get_recipient_row j d) else get_recipient_row j d)" for j
      by (simp add: get_recipient_row_def row_by_upd_by assms)
    then show "ledger_le d ?d" using assms(2) by (auto simp: ledger_le_def split: if_splits)
  qed
  then show ?thesis by (simp add: evolves_def contacts_ok_def placed_def placements_ok_def)
qed

lemma evolves_bump [simp]: "evolves V d (bump_campaign i ds d)"
  by (rule core_same_evolves) (simp add: core_same_def)

lemma evolves_log_event [simp]: "evolves V d (log_event i e d)"
  by (rule core_same_evolves) (simp add: core_same_def log_event_def)

lemma evolves_apply_event: "evolves V d (snd (apply_event now None d e))"
proof (cases "match_recipient d e")
  case None
  then show ?thesis by (simp add: apply_event_def evolves_suppress)
next
  case (Some cr)
  define d1 where "d1 = save_recipient now (cr_id cr) (\<lambda>r. r\<lparr>cr_last_event_at := Some (pe_occurred_at e)\<rparr>) (log_event (cr_id cr) e d)"
  have d1: "evolves V d d1"
    unfolding d1_def by (rule evolves_trans [OF evolves_log_event evolves_save]) simp_all
  have st: "evolves V x (save_recipient now (cr_id cr) (\<lambda>r. r\<lparr>cr_status := s\<rparr>) x)" if "s \<noteq> RPending" for s x
    by (rule evolves_save) (use that in simp_all)
  have er: "evolves V x (save_recipient now (cr_id cr) (\<lambda>r. r\<lparr>cr_error_detail := s\<rparr>) x)" for s x
    by (rule evolves_save) simp_all
  define d2 where "d2 = save_recipient now (cr_id cr) (\<lambda>r. r\<lparr>cr_status := RBounced\<rparr>) d1"
  define d3 where "d3 = (if cr_error_detail cr = None \<and> present (pe_detail e)
      then save_recipient now (cr_id cr) (\<lambda>r. r\<lparr>cr_error_detail := Some (take 1000 (the (pe_detail e)))\<rparr>) d2 else d2)"
  define d4 where "d4 = (if cr_status cr \<noteq> RBounced then bump_campaign (cr_campaign_id cr) [(BouncedCount, 1)] d3 else d3)"
  define d5 where "d5 = (if classify_bounce e
      then snd (suppress_sync None d4 (cr_email_snapshot cr) (suppress_reason e) (pe_detail e) True) else d4)"
  define dd where "dd = (if cr_status cr \<noteq> RDelivered
      then bump_campaign (cr_campaign_id cr) [(DeliveredCount, 1)]
        (save_recipient now (cr_id cr) (\<lambda>r. r\<lparr>cr_status := RDelivered\<rparr>) d1) else d1)"
  have d2: "evolves V d d2" unfolding d2_def by (rule evolves_trans [OF d1 st]) simp
  have d3: "evolves V d d3" unfolding d3_def using d2 by (auto intro: evolves_trans [OF d2 er])
  have d4: "evolves V d d4" unfolding d4_def using d3 by (auto intro: evolves_trans [OF d3 evolves_bump])
  have d5: "evolves V d d5" unfolding d5_def using d4 by (auto intro: evolves_trans [OF d4 evolves_suppress])
  have dd: "evolves V d dd" unfolding dd_def
    using d1 by (auto intro: evolves_trans [OF evolves_trans [OF d1 st] evolves_bump])
  have "snd (apply_event now None d e) \<in> {d, dd, d1, d5}"
    unfolding apply_event_def Some Let_def option.case d1_def [symmetric] d2_def [symmetric] d3_def [symmetric]
      d4_def [symmetric] d5_def [symmetric] dd_def [symmetric] by simp
  then show ?thesis using d1 dd d5 by auto
qed

lemma evolves_webhook: "process_webhook rep now None body d = Inr (r, d') \<Longrightarrow> evolves V d d'"
  by (auto simp: process_webhook_def and_then_Inr_iff) (metis evolves_apply_event snd_conv)

section \<open>Sending\<close>

lemma log_send_rest [simp]:
  "placements (log_send now k d) = placements d" "t \<noteq> TContactSends \<Longrightarrow> seqs (log_send now k d) t = seqs d t"
  by (simp_all add: log_send_def record_send_def split: option.split prod.split)

lemma settled_rest [simp]:
  "placements (settled now rid f cid k fq d) = placements d"
  "t \<noteq> TContactSends \<Longrightarrow> seqs (settled now rid f cid k fq d) t = seqs d t"
  by (simp_all add: settled_def)

lemma evolves_settled: "closing f \<Longrightarrow> evolves V d (settled now i f cid k fq d)"
  using settled_ledger_le [of f d] settled_ids_ok [of f d]
  by (simp add: evolves_def suppressed_set_def contacts_ok_def placed_def placements_ok_def)

lemma evolves_send: "evolves V (w_db w) (w_db (snd (send_one E now rid n w)))"
  using send_effect_db [OF send_one_effect [of E now rid w n]] evolves_settled by auto

section \<open>Requests\<close>

text \<open>
  The forms that change the database in one transaction, with the values the route hands to
  its service, and the public unsubscribe page.
\<close>

datatype request =
    CreateCampaign campaign_fields
  | UpdateCampaign id campaign_fields
  | ScheduleCampaign id "instant option"
  | PauseCampaign id
  | CancelCampaign id
  | DuplicateCampaign id
  | DeleteCampaign id
  | AddPlacement id int int
  | MovePlacement id int int
  | RemovePlacement id
  | CreateRecurring "id list" recurring_fields
  | UpdateRecurring id "id list" recurring_fields
  | DeleteRecurring id
  | UpdatePlannerConfig int int int int int int int string
  | SetWarmingIp string string "instant option"
  | DeleteWarmingIp string
  | UploadList string "string option" id
  | DeleteList id
  | AddContact id string string string
  | RemoveAddress string
  | SuppressAddress string
  | CreateTemplate string string "string option" string
  | UpdateTemplate id string string "string option" string
  | DeleteTemplate id
  | UpdateFreeProvider bool "string list"
  | UnsubscribeLink string

text \<open>What the system is configured with: the fixed part of the tasks' environment and the parameters.\<close>

record system =
  y_env :: env
  y_validator :: email_validator
  y_loads :: "string \<Rightarrow> json option"
  y_zones :: zone_db

fun handle :: "system \<Rightarrow> instant \<Rightarrow> request \<Rightarrow> db \<Rightarrow> db" where
  "handle S now (CreateCampaign f) d = committed d (create_campaign (e_settings (y_env S)) now f d)"
| "handle S now (UpdateCampaign i f) d = committed d (update_campaign i f d)"
| "handle S now (ScheduleCampaign i w) d = snd (schedule_route (y_validator S) (e_settings (y_env S)) i w d)"
| "handle S now (PauseCampaign i) d = snd (pause_route i d)"
| "handle S now (CancelCampaign i) d = snd (cancel_route i d)"
| "handle S now (DuplicateCampaign i) d = committed d (duplicate_campaign now i d)"
| "handle S now (DeleteCampaign i) d = snd (delete_campaign i d)"
| "handle S now (AddPlacement i wk wd) d = committed d (add_placement i wk wd d)"
| "handle S now (MovePlacement i wk wd) d = snd (move_placement i wk wd d)"
| "handle S now (RemovePlacement i) d = snd (remove_placement i d)"
| "handle S now (CreateRecurring ls f) d = committed d (create_recurring now ls f d)"
| "handle S now (UpdateRecurring i ls f) d = committed d (update_recurring i (Some ls) f d)"
| "handle S now (DeleteRecurring i) d = snd (delete_recurring i d)"
| "handle S now (UpdatePlannerConfig r1 r2 r3 r4 full rate interval policy) d =
     (case update_planner_config r1 r2 r3 r4 full rate interval policy d of Inl e \<Rightarrow> d | Inr d' \<Rightarrow> d')"
| "handle S now (SetWarmingIp ip pool since) d = set_warming_ip now ip pool since d"
| "handle S now (DeleteWarmingIp ip) d = delete_warming_ip ip d"
| "handle S now (UploadList name filename user_id) d = snd (create_list now name None filename (Some user_id) d)"
| "handle S now (DeleteList i) d = committed d (delete_list i d)"
| "handle S now (AddContact i email first_name last_name) d =
     committed d (add_contact (y_validator S) i email (Some first_name) (Some last_name) d)"
| "handle S now (RemoveAddress email) d = snd (remove_and_suppress None email d)"
| "handle S now (SuppressAddress email) d = snd (suppress_only None email ''manual'' d)"
| "handle S now (CreateTemplate name ty subject_default body) d = snd (create_template now name ty subject_default body d)"
| "handle S now (UpdateTemplate i name ty subject_default body) d =
     snd (update_template now i (Some name) (Some ty) subject_default (Some body) d)"
| "handle S now (DeleteTemplate i) d = committed d (delete_template i d)"
| "handle S now (UpdateFreeProvider enabled domains) d = set_free_provider_config enabled domains d"
| "handle S now (UnsubscribeLink token) d = snd (unsubscribe (y_loads S) None token d)"

lemmas core_requests =
  core_create_campaign core_update_campaign core_schedule core_pause core_cancel core_duplicate
  core_create_recurring core_update_recurring core_planner_config core_warming_ip core_delete_ip
  core_create_list core_create_template core_update_template core_delete_template core_free_provider

lemmas evolves_requests =
  evolves_delete_campaign_req evolves_add_placement evolves_move_placement evolves_remove_placement
  evolves_delete_recurring evolves_delete_list evolves_add_contact evolves_remove_and_suppress
  evolves_suppress_only evolves_unsubscribe

lemma handle_evolves: "evolves (validator_wf (y_validator S)) d (handle S now rq d)"
  by (cases rq) (simp_all add: core_requests core_same_evolves evolves_requests)

section \<open>Steps\<close>

text \<open>
  \<open>submit\<close> and \<open>clash\<close> are the provider's answers and the clashes of the pacing transaction,
  which may differ from step to step, and so may the answers of the resolver, the reads and writes of
  the verification cache that fail and the commits of an import that fail.  A task runs when it is due and stays in the queue until it is acknowledged.
\<close>

definition verify_env_of ::
  "system \<Rightarrow> resolver \<Rightarrow> (exn \<Rightarrow> string) \<Rightarrow> (string \<Rightarrow> exn option) \<Rightarrow> (string \<Rightarrow> bool) \<Rightarrow> verify_env" where
  "verify_env_of S dns exc_text reads lost =
     \<lparr>vv_settings = e_settings (y_env S), vv_validator = y_validator S, vv_dns = dns, vv_exc_text = exc_text,
      vv_reads = reads, vv_lost = lost, vv_batch = verify_batch_size\<rparr>"

fun task_of :: "enqueue \<Rightarrow> task" where
  "task_of (EnqueueMaterialize cid) = MaterializeTask cid"

text \<open>The logins and keys live in two tables of their own, which the rest of the system does not read.\<close>

definition accounts_only :: "db \<Rightarrow> db \<Rightarrow> bool" where
  "accounts_only d d' \<longleftrightarrow> d'\<lparr>users := users d, api_keys := api_keys d, seqs := seqs d\<rparr> = d \<and>
     (\<forall>t. t \<notin> {TUsers, TApiKeys} \<longrightarrow> seqs d' t = seqs d t)"

lemma accounts_only_core: "accounts_only d d' \<Longrightarrow> core_same d d' \<and> campaigns d' = campaigns d"
  by (cases d; cases d') (simp add: accounts_only_def core_same_def)

inductive sys_step :: "system \<Rightarrow> world \<Rightarrow> world \<Rightarrow> bool" for S where
  Request: "sys_step S w (w\<lparr>w_db := handle S now rq (w_db w)\<rparr>)"
| Resume: "resume_route cid (w_db w) = (tasks, d) \<Longrightarrow>
    sys_step S w (w\<lparr>w_db := d, w_queue := w_queue w @ map (\<lambda>t. (now, task_of t)) tasks\<rparr>)"
| Send: "(due_at, SendTask rid n) \<in> set (w_queue w) \<Longrightarrow> due_at \<le> now \<Longrightarrow>
    sys_step S w (snd (send_one ((y_env S)\<lparr>e_submit := submit, e_clash := clash\<rparr>) now rid n w))"
| Materialize: "(due_at, MaterializeTask cid) \<in> set (w_queue w) \<Longrightarrow> due_at \<le> now \<Longrightarrow>
    materialize_campaign now cid w = Inr (res, w') \<Longrightarrow> sys_step S w w'"
| Acknowledge: "w_queue w = before @ entry # after \<Longrightarrow> sys_step S w (w\<lparr>w_queue := before @ after\<rparr>)"
| Dispatch: "sys_step S w (snd (dispatch_due_campaigns now w))"
| Recover: "sys_step S w (snd (finalize_and_repump now w))"
| Plan: "sys_step S w (w\<lparr>w_db := snd (run_planner (y_zones S) (e_settings (y_env S)) now (w_db w))\<rparr>)"
| Webhook: "process_webhook rep now None body (w_db w) = Inr (outcome, d) \<Longrightarrow> sys_step S w (w\<lparr>w_db := d\<rparr>)"
| Import: "sys_step S w (w\<lparr>w_db := snd (import_csv (e_settings (y_env S)) (y_validator S) fk_text fault_at list_id
    content override free (w_db w))\<rparr>)"
| Verify: "verify_list (verify_env_of S dns exc_text reads lost) now list_id (w_db w) (w_redis w) = (report, d, r) \<Longrightarrow>
    sys_step S w (w\<lparr>w_db := d, w_redis := r\<rparr>)"
| Account: "accounts_only (w_db w) d \<Longrightarrow> sys_step S w (w\<lparr>w_db := d\<rparr>)"

definition initial_world :: world where
  "initial_world = \<lparr>w_db = empty_db, w_redis = empty_redis, w_queue = [], w_mail = []\<rparr>"

inductive reachable :: "system \<Rightarrow> world \<Rightarrow> bool" for S where
  Start: "reachable S initial_world"
| Step: "reachable S w \<Longrightarrow> sys_step S w w' \<Longrightarrow> reachable S w'"

inductive_cases sys_stepE: "sys_step S w w'"

lemma run_reachable: "(sys_step S)\<^sup>*\<^sup>* w w' \<Longrightarrow> reachable S w \<Longrightarrow> reachable S w'"
  by (induction rule: rtranclp_induct) (auto intro: Step)

section \<open>Invariants of every step\<close>

lemma materialize_campaign_effect:
  "materialize_campaign now cid w = Inr (res, w') \<Longrightarrow>
     w_mail w' = w_mail w \<and> materialize_db now cid (w_db w) = Inr (res, w_db w')"
  by (cases res) (auto simp: materialize_campaign_def and_then_Inr_iff enqueue_pending_def Let_def)

text \<open>The two ways a step meets the outgoing mail: it leaves it alone, or it is a send task.\<close>

lemma step_mail:
  assumes "sys_step S w w'"
  shows "w_mail w' = w_mail w \<or>
    (\<exists>submit clash now rid n. w' = snd (send_one ((y_env S)\<lparr>e_submit := submit, e_clash := clash\<rparr>) now rid n w))"
  using assms
proof cases
  case Materialize
  then show ?thesis by (simp add: materialize_campaign_effect)
next
  case Send
  then show ?thesis by blast
qed simp_all

lemma step_evolves:
  assumes "sys_step S w w'"
  shows "evolves (validator_wf (y_validator S)) (w_db w) (w_db w')"
  using assms
proof cases
  case (Request now rq)
  then show ?thesis by (simp add: handle_evolves)
next
  case (Resume cid tasks d now)
  with core_resume [of "w_db w" cid] show ?thesis by (simp add: core_same_evolves)
next
  case (Send due_at rid n now submit clash)
  then show ?thesis by (simp add: evolves_send)
next
  case (Materialize due_at cid now res)
  then show ?thesis by (auto dest!: materialize_campaign_effect evolves_materialize)
next
  case (Dispatch now)
  then show ?thesis by (simp add: core_same_evolves core_same_def dispatch_due_campaigns_def Let_def)
next
  case (Recover now)
  have "core_same (w_db w) (w_db (snd (finalize_and_repump now w)))"
  proof -
    have one: "core_same (w_db v) (w_db (snd (repump_one now i (acc, v))))" for i acc v
      by (auto simp: repump_one_def enqueue_pending_def Let_def split: prod.split option.split bool.split)
    have "core_same (w_db (snd av)) (w_db (snd (fold (repump_one now) ids av)))" for ids av
    proof (induction ids arbitrary: av)
      case (Cons i ids)
      from one [of "snd av" i "fst av"] Cons [of "repump_one now i av"] show ?case by (auto intro: core_same_trans)
    qed simp
    from this [of "(([], []), w)"] show ?thesis by (simp add: finalize_and_repump_def Let_def)
  qed
  then show ?thesis using Recover by (simp add: core_same_evolves)
next
  case (Plan now)
  then show ?thesis by (simp add: core_same_evolves core_run_planner)
next
  case (Webhook rep now body outcome d)
  then show ?thesis by (simp add: evolves_webhook)
next
  case (Import fk_text fault_at list_id content override free)
  then show ?thesis by (simp add: evolves_import)
next
  case (Verify dns exc_text reads lost now list_id report d r)
  with evolves_verify [of _ "w_db w" "verify_env_of S dns exc_text reads lost" now list_id "w_redis w"] show ?thesis by simp
next
  case (Account d)
  then show ?thesis by (simp add: accounts_only_core core_same_evolves)
qed simp_all

text \<open>The invariant of the reachable worlds.\<close>

definition world_ok :: "world \<Rightarrow> bool" where
  "world_ok w \<longleftrightarrow> ids_ok (w_db w) \<and> mail_ok w"

lemma initial_ok: "world_ok initial_world" "contacts_ok (w_db initial_world)" "placed (w_db initial_world)"
  by (simp_all add: world_ok_def initial_world_def ids_ok_def mail_ok_def empty_db_def contacts_ok_def placed_def
      placements_ok_def)

lemma step_world_ok:
  assumes "sys_step S w w'" "world_ok w"
  shows "world_ok w'"
proof -
  have ids: "ids_ok (w_db w)" and mail: "mail_ok w" using assms(2) by (simp_all add: world_ok_def)
  from step_evolves [OF assms(1)] ids have ev: "ids_ok (w_db w')" "ledger_le (w_db w) (w_db w')" by (simp_all add: evolves_def)
  from step_mail [OF assms(1)] have "mail_ok w'"
  proof
    assume "w_mail w' = w_mail w"
    then show ?thesis using mail ev(2) by (rule mail_ok_step [rotated 2])
  next
    assume "\<exists>submit clash now rid n. w' = snd (send_one ((y_env S)\<lparr>e_submit := submit, e_clash := clash\<rparr>) now rid n w)"
    then show ?thesis using send_effect_mail_ok [OF send_one_effect ids mail] by auto
  qed
  with ev show ?thesis by (simp add: world_ok_def)
qed

lemma reachable_ok: "reachable S w \<Longrightarrow> world_ok w"
  by (induction rule: reachable.induct) (auto simp: initial_ok intro: step_world_ok)

lemma reachable_tables:
  assumes "reachable S w" "validator_wf (y_validator S)"
  shows "ids_ok (w_db w) \<and> contacts_ok (w_db w) \<and> placed (w_db w)"
  using assms(1)
proof (induction rule: reachable.induct)
  case Start
  then show ?case using initial_ok by (simp add: world_ok_def)
next
  case (Step w w')
  with step_evolves [OF Step.hyps(2)] assms(2) show ?case by (simp add: evolves_def)
qed

text \<open>The suppression list only grows along a run.\<close>

lemma run_suppressed: "(sys_step S)\<^sup>*\<^sup>* w w' \<Longrightarrow> suppressed_set (w_db w) \<subseteq> suppressed_set (w_db w')"
proof (induction rule: rtranclp_induct)
  case (step v v')
  then have "suppressed_set (w_db v) \<subseteq> suppressed_set (w_db v')" using step_evolves by (simp add: evolves_def)
  with step.IH show ?case by blast
qed simp

lemma step_new_mail:
  assumes "sys_step S w w'"
  shows "\<exists>new. w_mail w' = w_mail w @ new \<and> (\<forall>(i, m) \<in> set new. \<not> is_suppressed_sync (w_db w) (sm_to m))"
  using step_mail [OF assms]
proof
  assume "\<exists>submit clash now rid n. w' = snd (send_one ((y_env S)\<lparr>e_submit := submit, e_clash := clash\<rparr>) now rid n w)"
  then obtain E now rid n where w': "w' = snd (send_one E now rid n w)" by blast
  from send_one_effect [of E now rid w n] w' have "send_effect E now rid w w'" by simp
  then consider "w_mail w' = w_mail w" |
    x where "send_validate now rid (w_db w) = Inr (Go x)" "w_mail w' = w_mail w @ [(rid, send_message_of E x)]"
    unfolding send_effect_def by blast
  then show ?thesis
  proof cases
    case 2
    from send_validate_Go [OF 2(1)] have "\<not> is_suppressed_sync (w_db w) (x_email x)" by auto
    moreover have "sm_to (send_message_of E x) = x_email x" by (simp add: send_message_of_def Let_def)
    ultimately show ?thesis using 2(2) by auto
  qed auto
qed auto

lemma run_never_mailed:
  assumes "(sys_step S)\<^sup>*\<^sup>* w w'" "n \<in> suppressed_set (w_db w)"
  shows "\<exists>new. w_mail w' = w_mail w @ new \<and> (\<forall>(i, m) \<in> set new. normalize_email (Some (sm_to m)) \<noteq> Some n)"
  using assms(1)
proof (induction rule: rtranclp_induct)
  case (step v v')
  from step.IH obtain new where new: "w_mail v = w_mail w @ new"
    "\<forall>(i, m) \<in> set new. normalize_email (Some (sm_to m)) \<noteq> Some n" by blast
  from step_new_mail [OF step.hyps(2)] obtain more where more: "w_mail v' = w_mail v @ more"
    "\<forall>(i, m) \<in> set more. \<not> is_suppressed_sync (w_db v) (sm_to m)" by blast
  have "n \<in> suppressed_set (w_db v)" using run_suppressed [OF step.hyps(1)] assms(2) by blast
  with more(2) have "\<forall>(i, m) \<in> set more. normalize_email (Some (sm_to m)) \<noteq> Some n"
    by (auto simp: is_suppressed_sync_iff)
  with new more(1) show ?case by (intro exI [of _ "new @ more"]) auto
qed simp

section \<open>A run from the empty system\<close>

definition small_system :: system where
  "small_system = \<lparr>y_env = demo_env, y_validator = plain_validator, y_loads = mark_loads, y_zones = (\<lambda>_. None)\<rparr>"

definition small_fields :: campaign_fields where
  "small_fields = \<lparr>f_name = Some ''N'', f_subject = Some ''Hi'', f_from_name = None, f_from_email = None,
     f_reply_to = None, f_template_id = Some 1, f_list_id = Some 1, f_ip_pool = None\<rparr>"

definition small_requests :: "request list" where
  "small_requests =
     [UploadList ''L'' None 1, AddContact 1 ''A@x.com'' ''Al'' '''',
      CreateTemplate ''T'' ''plain'' None ''Bye {{ unsubscribe_url }}'', CreateCampaign small_fields,
      ScheduleCampaign 1 (Some 0)]"

definition prepared_db :: db where
  "prepared_db = fold (handle small_system 0) small_requests empty_db"

definition prepared_world :: world where
  "prepared_world = initial_world\<lparr>w_db := prepared_db\<rparr>"

definition dispatched_world :: world where
  "dispatched_world = snd (dispatch_due_campaigns 5 prepared_world)"

definition materialized_world :: world where
  "materialized_world =
     (case materialize_campaign 5 1 dispatched_world of Inl e \<Rightarrow> dispatched_world | Inr (res, w) \<Rightarrow> w)"

definition sent_world :: world where
  "sent_world = snd (send_one demo_env 5 1 0 materialized_world)"

lemma fold_requests:
  "reachable S w \<Longrightarrow> reachable S (w\<lparr>w_db := fold (handle S now) rqs (w_db w)\<rparr>)"
proof (induction rqs arbitrary: w)
  case (Cons rq rqs)
  from Cons.IH [OF reachable.Step [OF Cons.prems sys_step.Request, of now rq]] show ?case by simp
qed simp

lemma dispatched_queue: "w_queue dispatched_world = [(5, MaterializeTask 1)]"
  by code_simp

lemma materialized_ok: "\<exists>res. materialize_campaign 5 1 dispatched_world = Inr (res, materialized_world)"
proof -
  have "case materialize_campaign 5 1 dispatched_world of Inl e \<Rightarrow> False | Inr _ \<Rightarrow> True" by code_simp
  then show ?thesis by (auto simp: materialized_world_def split: sum.splits)
qed

lemma materialized_queue: "w_queue materialized_world = [(5, MaterializeTask 1), (5, SendTask 1 0)]"
  by code_simp

lemma materialized_row: "map_option cr_email_snapshot (get_recipient_row 1 (w_db materialized_world)) = Some ''a@x.com''"
  by code_simp

definition small_ctx :: send_ctx where
  "small_ctx = demo_ctx\<lparr>x_subject := ''Hi'', x_from_name := ''COD-ST'', x_from_email := ''news@marketing.cod-st.com''\<rparr>"

lemma small_validate: "send_validate 5 1 (w_db materialized_world) = Inr (Go small_ctx)"
proof -
  have "case send_validate 5 1 (w_db materialized_world) of Inr (Go x) \<Rightarrow> x = small_ctx | _ \<Rightarrow> False" by code_simp
  then show ?thesis by (simp split: sum.splits validated.splits)
qed

lemma materialize_campaign_redis: "materialize_campaign now cid w = Inr (res, w') \<Longrightarrow> w_redis w' = w_redis w"
  by (cases res) (auto simp: materialize_campaign_def and_then_Inr_iff enqueue_pending_def Let_def)

lemma materialized_rest: "w_redis materialized_world = empty_redis" "w_mail materialized_world = []"
proof -
  have d: "w_redis dispatched_world = empty_redis" "w_mail dispatched_world = []"
    by (simp_all add: dispatched_world_def dispatch_due_campaigns_def prepared_world_def initial_world_def Let_def)
  obtain res where res: "materialize_campaign 5 1 dispatched_world = Inr (res, materialized_world)"
    using materialized_ok by blast
  show "w_redis materialized_world = empty_redis" "w_mail materialized_world = []"
    using materialize_campaign_redis [OF res] materialize_campaign_effect [OF res] d by simp_all
qed

lemma small_pace:
  assumes "r_hashes r = r_hashes empty_redis" "r_counters r = r_counters empty_redis"
  shows "\<exists>r'. send_pace demo_env 5 small_ctx r = Inr (Clear, r')"
proof (rule send_pace_clear)
  show "\<forall>b \<in> set (build_send_buckets (e_settings demo_env) (x_domain small_ctx) (Some (x_send_rate small_ctx))).
      1 \<le> bucket_level 5 r b"
    using assms(1) by (simp add: small_ctx_def demo_ctx_def build_send_buckets_def bucket_level_def redis_hget_def
        per_minute_bucket_def Let_def empty_redis_def default_settings_def demo_env_def)
qed (use assms(2) in \<open>simp_all add: small_ctx_def demo_ctx_def daily_cap_usage_def global_sent_today_def
    redis_get_counter_def empty_redis_def default_settings_def demo_env_def\<close>)

lemma sent_mail: "w_mail sent_world = [(1, send_message_of demo_env small_ctx)]"
proof -
  have pace: "\<exists>r'. send_pace demo_env 5 small_ctx r = Inr (Clear, r')"
    if "r_hashes r = r_hashes (w_redis materialized_world)" "r_counters r = r_counters (w_redis materialized_world)" for r
    using small_pace that by (simp add: materialized_rest)
  have lock: "live 5 (r_strings (w_redis materialized_world) (lock_key 1)) = None"
    by (simp add: materialized_rest empty_redis_def)
  have acc: "e_submit demo_env (send_message_of demo_env small_ctx) =
      Accepted \<lparr>sr_message_token = JStr ''tok'', sr_message_id = JNull, sr_raw = JNull\<rparr>"
    by (simp add: demo_env_def)
  from send_one_clear [OF lock small_validate pace acc, of 0] show ?thesis by (simp add: sent_world_def materialized_rest)
qed

lemma materialized_reachable: "reachable small_system materialized_world"
proof -
  have "reachable small_system (initial_world\<lparr>w_db := fold (handle small_system 0) small_requests (w_db initial_world)\<rparr>)"
    by (rule fold_requests [OF reachable.Start])
  then have "reachable small_system prepared_world"
    by (simp add: prepared_world_def prepared_db_def initial_world_def)
  then have d: "reachable small_system dispatched_world"
    unfolding dispatched_world_def by (rule reachable.Step [OF _ Dispatch])
  obtain res where res: "materialize_campaign 5 1 dispatched_world = Inr (res, materialized_world)" using materialized_ok by blast
  show ?thesis by (rule reachable.Step [OF d Materialize [OF _ _ res, of 5]]) (simp_all add: dispatched_queue)
qed

lemma sending_step: "sys_step small_system materialized_world sent_world"
proof -
  have env: "(y_env small_system)\<lparr>e_submit := e_submit demo_env, e_clash := e_clash demo_env\<rparr> = demo_env"
    by (simp add: small_system_def)
  have "(5, SendTask 1 0) \<in> set (w_queue materialized_world)" by (simp add: materialized_queue)
  from Send [OF this, of 5 small_system "e_clash demo_env" "e_submit demo_env"] show ?thesis
    by (simp only: env sent_world_def order_refl)
qed

lemma sent_reachable: "reachable small_system sent_world"
  by (rule reachable.Step [OF materialized_reachable sending_step])

section \<open>The status graph of the system\<close>

text \<open>Beside the users, the dispatch starts a scheduled campaign, and sending ends in success or failure.\<close>

definition sys_edge :: "campaign_status \<Rightarrow> campaign_status \<Rightarrow> bool" where
  "sys_edge s s' \<longleftrightarrow> user_edge s s' \<or> (s = Scheduled \<and> s' = Sending) \<or> (s = Sending \<and> s' \<in> {Completed, Failed})"

definition same_status :: "db \<Rightarrow> db \<Rightarrow> bool" where
  "same_status d d' \<longleftrightarrow> (\<forall>i s. status_at i d = Some s \<longrightarrow> status_at i d' = Some s)"

definition graph_step :: "db \<Rightarrow> db \<Rightarrow> bool" where
  "graph_step d d' \<longleftrightarrow> (\<forall>i s s'. status_at i d = Some s \<longrightarrow> status_at i d' = Some s' \<longrightarrow> sys_edge s s')"

lemma sys_edge_refl [simp]: "sys_edge s s"
  by (simp add: sys_edge_def)

lemma same_status_refl [simp]: "same_status d d"
  by (simp add: same_status_def)

lemma same_status_trans: "same_status a b \<Longrightarrow> same_status b c \<Longrightarrow> same_status a c"
  by (simp add: same_status_def)

lemma same_status_graph: "same_status d d' \<Longrightarrow> graph_step d d'"
  by (auto simp: same_status_def graph_step_def)

lemma graph_step_refl [simp]: "graph_step d d"
  by (simp add: same_status_graph)

lemma same_status_campaigns: "campaigns d' = campaigns d \<Longrightarrow> same_status d d'"
  by (simp add: same_status_def status_at_def get_campaign_row_def)

lemma same_status_insert: "insert_campaign c d = Inr (c', d') \<Longrightarrow> same_status d d'"
  by (auto simp: insert_campaign_def same_status_def status_at_def get_campaign_row_def row_by_append split: if_splits)

lemma same_status_upd:
  "(\<And>c. c_id (f c) = c_id c) \<Longrightarrow> (\<And>c. c_status (f c) = c_status c) \<Longrightarrow> same_status d (upd_campaign i f d)"
  by (auto simp: same_status_def status_at_def get_upd_campaign)

lemma same_status_bump: "same_status d (bump_campaign i ds d)"
  by (auto simp: same_status_def status_at_def get_campaign_bump)

lemma graph_delete: "graph_step d (delete_campaign_row i d)"
  by (auto simp: graph_step_def status_at_def get_campaign_delete split: if_splits)

lemma set_fields_keep [simp]:
  "c_id (set_campaign_fields f c) = c_id c" "c_status (set_campaign_fields f c) = c_status c"
  "c_id (set_recurring_fields g c) = c_id c" "c_status (set_recurring_fields g c) = c_status c"
  by (simp_all add: set_campaign_fields_def set_recurring_fields_def)

lemma graph_create: "graph_step d (committed d (create_campaign st now f d))"
  by (auto simp: create_campaign_def committed_def split: sum.split dest: same_status_insert intro: same_status_graph)

lemma graph_update: "graph_step d (committed d (update_campaign i f d))"
  by (cases "update_campaign i f d") (auto simp: graph_step_def update_campaign_status)

lemma graph_duplicate: "graph_step d (committed d (duplicate_campaign now i d))"
  by (auto simp: duplicate_campaign_def committed_def and_then_def split: option.split sum.split prod.split
      dest: same_status_insert intro: same_status_graph)

lemma graph_schedule: "graph_step d (snd (schedule_route ve st i w d))"
  by (auto simp: graph_step_def schedule_status sys_edge_def split: if_splits)

lemma graph_set_status:
  "get_campaign_row i d = Some c \<Longrightarrow> sys_edge (c_status c) s \<Longrightarrow> graph_step d (set_status s c d)"
  by (auto simp: graph_step_def status_at_set) (auto simp: status_at_def)

lemma graph_pause: "graph_step d (snd (pause_route i d))"
  by (auto simp: pause_route_def with_campaign_def pause_def same_status_graph split: option.split
      intro!: graph_set_status simp: sys_edge_def)

lemma graph_cancel: "graph_step d (snd (cancel_route i d))"
  by (auto simp: cancel_route_def with_campaign_def cancel_def same_status_graph split: option.split
      intro!: graph_set_status simp: sys_edge_def)

lemma graph_resume: "resume_route i d = (tasks, d') \<Longrightarrow> graph_step d d'"
  by (auto simp: resume_route_def with_campaign_def resume_def same_status_graph split: option.splits if_splits prod.splits
      intro!: graph_set_status simp: sys_edge_def)

lemma same_status_lists [simp]: "same_status d (set_campaign_lists i ls d)" "same_status d (link_lists i ls d)"
  by (rule same_status_campaigns; simp)+

lemma graph_create_recurring: "graph_step d (committed d (create_recurring now ls f d))"
  by (auto simp: create_recurring_def committed_def and_then_def split: sum.split prod.split
      dest!: same_status_insert intro: same_status_graph [OF same_status_trans [OF _ same_status_lists(1)]])

lemma graph_update_recurring: "graph_step d (committed d (update_recurring i ls f d))"
  by (auto simp: update_recurring_def Let_def split: option.split
      intro!: same_status_graph same_status_upd same_status_trans [OF same_status_upd same_status_lists(1)])

lemma graph_delete_campaign: "graph_step d (snd (delete_campaign i d))"
  by (auto simp: delete_campaign_def graph_delete same_status_graph split: option.split)

lemma graph_delete_recurring: "graph_step d (snd (delete_recurring i d))"
  by (auto simp: delete_recurring_def graph_delete same_status_graph split: option.split)

lemma graph_handle: "graph_step d (handle S now rq d)"
proof -
  have frames: "campaigns (committed d (add_placement i wk wd d)) = campaigns d"
    "campaigns (snd (move_placement i wk wd d)) = campaigns d" "campaigns (snd (remove_placement i d)) = campaigns d"
    "campaigns (set_warming_ip now ip pool since d) = campaigns d" "campaigns (delete_warming_ip ip d) = campaigns d"
    "campaigns (snd (create_list now nm de sf cb d)) = campaigns d" "campaigns (committed d (delete_list i d)) = campaigns d"
    "campaigns (committed d (add_contact ve i e f l d)) = campaigns d"
    "campaigns (snd (remove_and_suppress None e d)) = campaigns d" "campaigns (snd (suppress_only None e r d)) = campaigns d"
    "campaigns (snd (create_template now nm ty sd b d)) = campaigns d"
    "campaigns (snd (update_template now i nm2 ty2 sd2 b2 d)) = campaigns d"
    "campaigns (committed d (delete_template i d)) = campaigns d" "campaigns (set_free_provider_config en ds d) = campaigns d"
    for i wk wd ip pool since nm de sf cb ve e f l r ty sd b nm2 ty2 sd2 b2 en ds
    by (auto simp: add_placement_def move_placement_def remove_placement_def set_warming_ip_def ensure_ip_warm_state_def
        delete_warming_ip_def create_list_def delete_list_def add_contact_def remove_and_suppress_def suppress_only_def
        suppress_async_eq create_template_def update_template_def delete_template_def set_free_provider_config_def
        committed_def Let_def split: option.split sum.split)
  have cfg: "campaigns (case update_planner_config a b c e f g h p d of Inl x \<Rightarrow> d | Inr d' \<Rightarrow> d') = campaigns d" for a b c e f g h p
    by (auto simp: update_planner_config_def split: sum.split dest!: set_planner_config_upsert)
  note same = frames [THEN same_status_campaigns, THEN same_status_graph] cfg [THEN same_status_campaigns, THEN same_status_graph]
  show ?thesis
    by (cases rq) (simp_all add: same graph_create graph_update graph_schedule graph_pause graph_cancel graph_duplicate
        graph_delete_campaign graph_create_recurring graph_update_recurring graph_delete_recurring
        same_status_campaigns same_status_graph)
qed

lemma same_status_ensure_run: "ensure_run zones st now i ld d = Inr (r, d') \<Longrightarrow> same_status d d'"
  by (auto simp: ensure_run_def and_then_Inr_iff Let_def dest!: same_status_insert split: option.splits if_splits
      intro: same_status_trans [OF _ same_status_lists(2)])

lemma same_status_ensure_runs: "same_status d (snd (ensure_runs zones st now ids ld d))"
  by (induction zones st now ids ld d rule: ensure_runs.induct)
     (auto split: sum.split prod.split option.split dest: same_status_ensure_run intro: same_status_trans)

lemma same_status_run_planner: "same_status d (snd (run_planner zones st now d))"
  by (auto simp: run_planner_def dispatch_planner_def Let_def same_status_ensure_runs split: option.split)

lemma sys_edges [simp]: "sys_edge Scheduled Sending" "sys_edge Sending Completed" "sys_edge Sending Failed"
  by (simp_all add: sys_edge_def)

lemma graph_stepI:
  assumes "\<And>i c s. get_campaign_row i d = Some c \<Longrightarrow> map_option c_status (get_campaign_row i d') = Some s \<Longrightarrow>
    s = c_status c \<or> sys_edge (c_status c) s"
  shows "graph_step d d'"
  unfolding graph_step_def status_at_def
proof (intro allI impI)
  fix i s s'
  assume s: "map_option c_status (get_campaign_row i d) = Some s" and s': "map_option c_status (get_campaign_row i d') = Some s'"
  from s obtain c where "get_campaign_row i d = Some c" "c_status c = s" by auto
  with assms [OF _ s'] show "sys_edge s s'" by auto
qed

lemma graph_settled: "graph_step d (settled now rid f cid k fq d)"
proof (rule graph_stepI)
  fix i c s
  assume "get_campaign_row i d = Some c"
    and "map_option c_status (get_campaign_row i (settled now rid f cid k fq d)) = Some s"
  then have "s = c_status c \<or> (c_status c = Sending \<and> s = Completed)"
    unfolding settled_campaign by (simp add: Let_def split: if_splits)
  then show "s = c_status c \<or> sys_edge (c_status c) s" by auto
qed

lemma graph_send: "graph_step (w_db w) (w_db (snd (send_one E now rid n w)))"
  using send_effect_db [OF send_one_effect [of E now rid w n]] graph_settled by auto

lemma graph_materialize: "materialize_db now cid d = Inr (res, d') \<Longrightarrow> graph_step d d'"
proof -
  assume m: "materialize_db now cid d = Inr (res, d')"
  have rec: "same_status d (recount cid (snd (add_rows now c inel js ex n d)))" for c inel js ex n
    unfolding recount_def Let_def
    by (rule same_status_trans [OF same_status_campaigns same_status_upd]) simp_all
  show ?thesis
  proof (cases "get_campaign_row cid d")
    case (Some c)
    have failed: "c_status c = Sending \<Longrightarrow> graph_step d (upd_campaign cid (\<lambda>c. c\<lparr>c_status := Failed\<rparr>) d)"
      using Some by (auto simp: graph_step_def status_at_def get_upd_campaign sys_edge_def)
    from Some m show ?thesis
      by (cases "c_status c = Sending"; cases "campaign_list_ids_sync d cid = []")
         (auto simp: materialize_db_def Let_def and_then_Inr_iff split_beta failed intro: same_status_graph [OF rec])
  qed (use m in \<open>simp add: materialize_db_def\<close>)
qed

lemma graph_webhook: "process_webhook rep now None body d = Inr (r, d') \<Longrightarrow> graph_step d d'"
proof -
  have "same_status d (snd (apply_event now None d e))" for e
  proof (cases "event_deltas d e")
    case (Some x)
    obtain cid ds where x: "x = (cid, ds)" by (cases x)
    have "same_status d d'' \<longleftrightarrow> same_status d (bump_campaign cid ds d)"
      if "campaigns d'' = campaigns (bump_campaign cid ds d)" for d''
      using that by (simp add: same_status_def status_at_def get_campaign_row_def)
    then show ?thesis using same_status_bump by (simp add: apply_event_campaigns Some x)
  qed (simp add: same_status_campaigns apply_event_campaigns)
  then show "process_webhook rep now None body d = Inr (r, d') \<Longrightarrow> graph_step d d'"
    by (auto simp: process_webhook_def and_then_Inr_iff intro: same_status_graph) (metis same_status_graph snd_conv)
qed

lemma graph_recover: "graph_step (w_db w) (w_db (snd (finalize_and_repump now w)))"
proof (rule graph_stepI)
  fix i c s
  assume "get_campaign_row i (w_db w) = Some c"
    and "map_option c_status (get_campaign_row i (w_db (snd (finalize_and_repump now w)))) = Some s"
  with finalize_status [of i w c now] have "s = c_status c \<or> (c_status c = Sending \<and> s = Completed)"
    by (simp split: if_splits)
  then show "s = c_status c \<or> sys_edge (c_status c) s" by auto
qed

lemma graph_dispatch: "graph_step (w_db w) (w_db (snd (dispatch_due_campaigns now w)))"
proof (rule graph_stepI)
  fix i c s
  assume "get_campaign_row i (w_db w) = Some c"
    and "map_option c_status (get_campaign_row i (w_db (snd (dispatch_due_campaigns now w)))) = Some s"
  then have "s = (if due now c then Sending else c_status c)" by (simp add: dispatch_campaign split: if_splits)
  moreover have "due now c \<Longrightarrow> c_status c = Scheduled" by (simp add: due_def)
  ultimately show "s = c_status c \<or> sys_edge (c_status c) s" by (auto split: if_splits)
qed

lemma step_graph:
  assumes "sys_step S w w'"
  shows "graph_step (w_db w) (w_db w')"
  using assms
proof cases
  case (Verify dns exc_text reads lost now list_id report d r)
  with verify_list_only [of "w_db w" "verify_env_of S dns exc_text reads lost" now list_id "w_redis w"] show ?thesis
    by (simp add: only_verifies_def same_status_campaigns same_status_graph)
next
  case (Import fk_text fault_at list_id content override free)
  have "campaigns (snd (import_csv (e_settings (y_env S)) (y_validator S) fk_text fault_at list_id content override free (w_db w))) =
      campaigns (w_db w)"
    using import_csv_only [of "w_db w" "e_settings (y_env S)" "y_validator S" fk_text fault_at list_id content override free]
    by (auto simp: imports_only_def)
  with Import show ?thesis by (simp add: same_status_campaigns same_status_graph)
next
  case Materialize
  then show ?thesis by (auto dest!: materialize_campaign_effect graph_materialize)
next
  case (Account d)
  then show ?thesis by (simp add: accounts_only_core same_status_campaigns same_status_graph)
qed (auto simp: graph_handle graph_send graph_recover graph_dispatch same_status_run_planner same_status_graph
      dest: graph_resume graph_webhook)

section \<open>A worker that dies\<close>

text \<open>
  The worker is lost after the provider accepted the message and before the transaction that
  records it: the lock stays until it expires, the recipient stays pending, and the task, not
  acknowledged, is delivered again.
\<close>

definition send_killed :: "env \<Rightarrow> instant \<Rightarrow> id \<Rightarrow> world \<Rightarrow> world" where
  "send_killed E now rid w =
     (case redis_set_nx now (lock_key rid) ''1'' 180 (w_redis w) of
        (False, _) \<Rightarrow> w
      | (True, r) \<Rightarrow>
          (case send_validate now rid (w_db w) of
             Inr (Go x) \<Rightarrow>
               (case send_pace E now x r of
                  Inr (Clear, r') \<Rightarrow>
                    (case e_submit E (send_message_of E x) of
                       Accepted res \<Rightarrow> w\<lparr>w_redis := r', w_mail := w_mail w @ [(rid, send_message_of E x)]\<rparr>
                     | _ \<Rightarrow> w)
                | _ \<Rightarrow> w)
           | _ \<Rightarrow> w))"

definition redelivery_time :: instant where
  "redelivery_time = 5 + seconds 181"

lemma later_validate: "send_validate redelivery_time 1 (w_db materialized_world) = Inr (Go small_ctx)"
proof -
  have "case send_validate redelivery_time 1 (w_db materialized_world) of Inr (Go x) \<Rightarrow> x = small_ctx | _ \<Rightarrow> False" by code_simp
  then show ?thesis by (simp split: sum.splits validated.splits)
qed

lemma later_levels:
  "case send_pace demo_env 5 small_ctx (snd (redis_set_nx 5 (lock_key 1) ''1'' 180 empty_redis)) of
     Inr (Clear, r) \<Rightarrow> live redelivery_time (r_strings r (lock_key 1)) = None \<and>
       (\<forall>b \<in> set (build_send_buckets (e_settings demo_env) (x_domain small_ctx) (Some (x_send_rate small_ctx))).
          1 \<le> bucket_level redelivery_time r b) \<and>
       daily_cap_usage redelivery_time (x_pool small_ctx) r = 0 \<and> global_sent_today redelivery_time r = 0
   | _ \<Rightarrow> False"
  by code_simp

text \<open>The task that is delivered again sends the message a second time.\<close>

lemma killed_worker_sends_twice:
  "w_mail (snd (send_one demo_env redelivery_time 1 0 (send_killed demo_env 5 1 materialized_world))) =
     [(1, send_message_of demo_env small_ctx), (1, send_message_of demo_env small_ctx)]"
proof -
  let ?m = "send_message_of demo_env small_ctx" and ?acc = "\<lparr>sr_message_token = JStr ''tok'', sr_message_id = JNull, sr_raw = JNull\<rparr>"
  obtain r0 where first: "redis_set_nx 5 (lock_key 1) ''1'' 180 empty_redis = (True, r0)"
    by (simp add: redis_set_nx_def empty_redis_def)
  have acc: "e_submit demo_env ?m = Accepted ?acc" by (simp add: demo_env_def)
  from later_levels [unfolded first snd_conv] obtain r where pace: "send_pace demo_env 5 small_ctx r0 = Inr (Clear, r)"
    and lock: "live redelivery_time (r_strings r (lock_key 1)) = None"
    and levels: "\<forall>b \<in> set (build_send_buckets (e_settings demo_env) (x_domain small_ctx) (Some (x_send_rate small_ctx))).
          1 \<le> bucket_level redelivery_time r b"
    and counts: "daily_cap_usage redelivery_time (x_pool small_ctx) r = 0" "global_sent_today redelivery_time r = 0"
    by (auto split: sum.splits prod.splits paced.splits)
  let ?k = "send_killed demo_env 5 1 materialized_world"
  have k: "?k = materialized_world\<lparr>w_redis := r, w_mail := [(1, ?m)]\<rparr>"
    by (simp add: send_killed_def materialized_rest first small_validate pace acc)
  have caps: "x_send_rate small_ctx \<noteq> 0" "\<And>i. e_clash demo_env i = None"
    "daily_cap_usage redelivery_time (x_pool small_ctx) r < per_ip_daily_cap (e_settings demo_env)"
    "global_sent_today redelivery_time r < x_warming_cap small_ctx"
    using counts by (simp_all add: small_ctx_def demo_ctx_def demo_env_def default_settings_def)
  have pace2: "\<exists>r'. send_pace demo_env redelivery_time small_ctx x = Inr (Clear, r')"
    if "r_hashes x = r_hashes (w_redis ?k)" "r_counters x = r_counters (w_redis ?k)" for x
  proof (rule send_pace_clear [OF caps(2,1)])
    show "\<forall>b \<in> set (build_send_buckets (e_settings demo_env) (x_domain small_ctx) (Some (x_send_rate small_ctx))).
        1 \<le> bucket_level redelivery_time x b"
      using levels that(1) by (simp add: k bucket_level_def redis_hget_def)
  qed (use caps(3,4) that(2) in \<open>simp_all add: k daily_cap_usage_def global_sent_today_def redis_get_counter_def\<close>)
  have "live redelivery_time (r_strings (w_redis ?k) (lock_key 1)) = None" "send_validate redelivery_time 1 (w_db ?k) = Inr (Go small_ctx)"
    using lock later_validate by (simp_all add: k)
  from send_one_clear [OF this pace2 acc, of 0] show ?thesis by (simp add: k)
qed

section \<open>A campaign completed before it starts\<close>

text \<open>
  Dispatch and materialization are two tasks.  The recovery task, which has a schedule of its own, may
  run between them; it takes a campaign without ledger rows for a finished one.
\<close>

lemma dispatched_queued:
  assumes "get_campaign_row i (w_db w) = Some c" "due t c"
  shows "(t, MaterializeTask i) \<in> set (w_queue (snd (dispatch_due_campaigns t w)))"
proof -
  have "c \<in> set (campaigns (w_db w))" "c_id c = i"
    using assms(1) by (auto simp: get_campaign_row_def dest: row_by_SomeD)
  with assms(2) show ?thesis by (auto simp: dispatch_due_campaigns_def Let_def)
qed

lemma repump_keeps_queue: "\<exists>tasks. w_queue (snd (finalize_and_repump t w)) = w_queue w @ tasks"
proof -
  have one: "\<exists>tasks. w_queue (snd (repump_one t i av)) = w_queue (snd av) @ tasks" for i av
    by (cases av) (auto simp: repump_one_def enqueue_pending_def Let_def split: prod.split option.split bool.split)
  have "\<exists>tasks. w_queue (snd (fold (repump_one t) ids av)) = w_queue (snd av) @ tasks" for ids av
  proof (induction ids arbitrary: av)
    case (Cons i ids)
    from Cons.IH [of "repump_one t i av"] one [of i av] show ?case by auto
  qed simp
  from this [of _ "(([], []), w)"] show ?thesis by (simp add: finalize_and_repump_def Let_def)
qed

lemma materialize_skips:
  "status_at i (w_db w) = Some s \<Longrightarrow> s \<noteq> Sending \<Longrightarrow> materialize_campaign t i w = Inr (MatSkipped s, w)"
  by (auto simp: materialize_campaign_def materialize_db_def status_at_def)

text \<open>
  C10: When the recovery task runs after a due campaign without pending recipients is dispatched and
  before its materialization, the campaign is completed with nobody mailed: its materialization is in
  the queue, but whenever it runs in that state it refuses and changes nothing.  This is a run of the system.
\<close>

theorem completed_before_materialized:
  assumes "get_campaign_row i (w_db w) = Some c"
    and "c_status c = Scheduled" "c_scheduled_at c = Some at_time" "at_time \<le> t"
    and "pending_count (w_db w) i = 0"
    and "w1 = snd (dispatch_due_campaigns t w)" "w2 = snd (finalize_and_repump t' w1)"
  shows "(sys_step S)\<^sup>*\<^sup>* w w2 \<and>
    map_option c_status (get_campaign_row i (w_db w1)) = Some Sending \<and> (t, MaterializeTask i) \<in> set (w_queue w1) \<and>
    map_option c_status (get_campaign_row i (w_db w2)) = Some Completed \<and> (t, MaterializeTask i) \<in> set (w_queue w2) \<and>
    (\<forall>now. materialize_campaign now i w2 = Inr (MatSkipped Completed, w2)) \<and>
    recipients (w_db w2) = recipients (w_db w) \<and> w_mail w2 = w_mail w"
proof -
  have due: "due t c" using assms(2-4) by (simp add: due_def)
  have "sys_step S w w1" "sys_step S w1 w2" unfolding assms(6,7) by (rule sys_step.Dispatch sys_step.Recover)+
  then have run: "(sys_step S)\<^sup>*\<^sup>* w w2" by auto
  have row: "get_campaign_row i (w_db w1) = Some (c\<lparr>c_status := Sending\<rparr>)"
    by (simp add: assms(6) dispatch_campaign assms(1) due)
  have "pending_count (w_db w1) i = 0" using assms(5) by (simp add: assms(6) pending_count_def)
  with finalize_status [OF row, of t'] have finished: "map_option c_status (get_campaign_row i (w_db w2)) = Some Completed"
    by (simp add: assms(7))
  have queued: "(t, MaterializeTask i) \<in> set (w_queue w1)" using dispatched_queued [OF assms(1) due] by (simp add: assms(6))
  then have "(t, MaterializeTask i) \<in> set (w_queue w2)" using repump_keeps_queue [of t' w1] by (auto simp: assms(7))
  moreover have "materialize_campaign now i w2 = Inr (MatSkipped Completed, w2)" for now
    using finished by (intro materialize_skips) (simp_all add: status_at_def)
  ultimately show ?thesis using run row queued finished by (simp add: assms(6,7))
qed

lemma prepared_campaigns:
  "map (\<lambda>c. (c_id c, c_status c, c_scheduled_at c)) (campaigns prepared_db) = [(1, Scheduled, Some 0)]"
  by code_simp

lemma prepared_recipients: "map cr_id (recipients prepared_db) = []"
  by code_simp

theorem completed_before_materialized_witness:
  "map_option c_status (get_campaign_row 1 (w_db (snd (finalize_and_repump 6 dispatched_world)))) = Some Completed \<and>
   materialize_campaign 7 1 (snd (finalize_and_repump 6 dispatched_world)) =
     Inr (MatSkipped Completed, snd (finalize_and_repump 6 dispatched_world))"
proof -
  from prepared_campaigns obtain c where cs: "campaigns prepared_db = [c]"
    and fields: "c_id c = 1" "c_status c = Scheduled" "c_scheduled_at c = Some 0" by auto
  have row: "get_campaign_row 1 (w_db prepared_world) = Some c"
    by (simp add: prepared_world_def get_campaign_row_def cs fields)
  have none: "pending_count (w_db prepared_world) 1 = 0"
    using prepared_recipients by (simp add: prepared_world_def pending_count_def)
  from completed_before_materialized [OF row fields(2,3) _ none dispatched_world_def refl, where t' = 6 and S = small_system]
  show ?thesis by simp
qed

section \<open>What every message ever sent carries\<close>

definition one_click :: "env \<Rightarrow> send_message \<Rightarrow> bool" where
  "one_click E m \<longleftrightarrow>
     sm_headers m = [(''List-Unsubscribe'', ''<'' @ unsubscribe_url (e_dumps E) (e_settings E) (sm_to m) @ ''>''),
                     (''List-Unsubscribe-Post'', ''List-Unsubscribe=One-Click'')]"

lemma send_message_one_click: "one_click E (send_message_of E x)"
  by (simp add: one_click_def send_message_of_def Let_def)

lemma step_one_click:
  assumes "sys_step S w w'" "\<forall>(i, m) \<in> set (w_mail w). one_click (y_env S) m"
  shows "\<forall>(i, m) \<in> set (w_mail w'). one_click (y_env S) m"
  using step_mail [OF assms(1)]
proof
  assume "\<exists>submit clash now rid n. w' = snd (send_one ((y_env S)\<lparr>e_submit := submit, e_clash := clash\<rparr>) now rid n w)"
  then obtain submit clash now rid n where w': "w' = snd (send_one ((y_env S)\<lparr>e_submit := submit, e_clash := clash\<rparr>) now rid n w)"
    by blast
  let ?E = "(y_env S)\<lparr>e_submit := submit, e_clash := clash\<rparr>"
  have same: "one_click (y_env S) m = one_click ?E m" for m by (simp add: one_click_def)
  from send_one_effect [of ?E now rid w n]
  have "w_mail w' = w_mail w \<or> (\<exists>x. w_mail w' = w_mail w @ [(rid, send_message_of ?E x)])"
    unfolding send_effect_def w' by blast
  with assms(2) same send_message_one_click [of ?E] show ?thesis by auto
qed (use assms(2) in simp)

lemma reachable_one_click: "reachable S w \<Longrightarrow> \<forall>(i, m) \<in> set (w_mail w). one_click (y_env S) m"
proof (induction rule: reachable.induct)
  case Start
  then show ?case by (simp add: initial_world_def)
next
  case (Step w w')
  from step_one_click [OF Step.hyps(2) Step.IH] show ?case .
qed

section \<open>What holds of every run\<close>

lemma reachable_at_most_one:
  assumes "reachable S w"
  shows "distinct (map fst (w_mail w)) \<and>
    (\<forall>(i, m) \<in> set (w_mail w).
       map_option cr_status (get_recipient_row i (w_db w)) \<noteq> Some RPending \<and>
       sm_headers m = [(''List-Unsubscribe'', ''<'' @ unsubscribe_url (e_dumps (y_env S)) (e_settings (y_env S)) (sm_to m) @ ''>''),
                       (''List-Unsubscribe-Post'', ''List-Unsubscribe=One-Click'')])"
proof -
  have "mail_ok w" using reachable_ok [OF assms] by (simp add: world_ok_def)
  moreover have "\<forall>(i, m) \<in> set (w_mail w). one_click (y_env S) m" by (rule reachable_one_click [OF assms])
  ultimately show ?thesis by (force simp: mail_ok_def one_click_def)
qed

lemma run_suppression_final:
  assumes "is_suppressed_sync (w_db w) e" "normalize_email (Some e) \<noteq> None" "(sys_step S)\<^sup>*\<^sup>* w w'"
  shows "\<exists>new. w_mail w' = w_mail w @ new \<and> (\<forall>(i, m) \<in> set new. \<not> same_address (sm_to m) e) \<and>
    is_suppressed_sync (w_db w') e"
proof -
  from assms(2) obtain n where n: "normalize_email (Some e) = Some n" by blast
  with assms(1) have "n \<in> suppressed_set (w_db w)" by (simp add: is_suppressed_sync_iff)
  with run_never_mailed [OF assms(3)] run_suppressed [OF assms(3)] show ?thesis
    by (auto simp: n same_address_def is_suppressed_sync_iff)
qed

lemma step_lifecycle:
  assumes "graph_step d d'" "status_at i d = Some s" "status_at i d' = Some s'"
  shows "user_edge s s' \<or> (s = Scheduled \<and> s' = Sending) \<or> (s = Sending \<and> s' \<in> {Completed, Failed})"
  using assms by (auto simp: graph_step_def sys_edge_def)

lemma reachable_run: "reachable S w \<Longrightarrow> (sys_step S)\<^sup>*\<^sup>* initial_world w"
  by (induction rule: reachable.induct) auto

end
