(* ===== verification/Workers.thy ===== *)
theory Workers
  imports System
begin

text \<open>
  Concurrent send workers (\<open>app/tasks/sending.py\<close>, \<open>send_one\<close>; four Celery workers by default,
  \<open>app/config.py\<close>).  \<open>System\<close> runs a send task in one step; here a worker goes through the
  commands and transactions of \<open>send_one\<close> one at a time, and anything else, other workers
  included, may happen in between.  A step is what the stores make atomic: a database
  transaction, a Redis command or pipeline, the WATCH/MULTI transaction of the rate limiter, the
  call of the provider.  The first part shows that a worker nobody disturbs is \<open>send_one\<close>; the
  second that, while workers stay within their lock and do not die before recording a message, the lock
  keeps one worker on a recipient and a recipient gets at most one message; the third what a
  suppression does to workers on the way; then how far the messages of a day pass the warming cap, and
  a run outside these conditions that mails a recipient twice.
\<close>

section \<open>The phases of a task\<close>

datatype phase =
    Validating
  | Pacing send_ctx
  | PoolCap send_ctx
  | TotalCap send_ctx
  | Stopping send_ctx
  | Submitting send_ctx
  | Rejecting send_ctx string
  | Recording send_ctx json
  | CountPool send_ctx
  | CountTotal send_ctx
  | Releasing task_result
  | Finished task_result

definition requeue :: "instant \<Rightarrow> int \<Rightarrow> id \<Rightarrow> world \<Rightarrow> world" where
  "requeue now countdown rid w =
     w\<lparr>w_queue := w_queue w @ [(now + seconds countdown, SendTask rid 0)]\<rparr>"

definition take_lock :: "instant \<Rightarrow> id \<Rightarrow> world \<Rightarrow> world option" where
  "take_lock now rid w =
     (case redis_set_nx now (lock_key rid) ''1'' 180 (w_redis w) of
        (False, _) \<Rightarrow> None
      | (True, r) \<Rightarrow> Some (w\<lparr>w_redis := r\<rparr>))"

fun phase_step :: "env \<Rightarrow> instant \<Rightarrow> id \<Rightarrow> nat \<Rightarrow> phase \<Rightarrow> world \<Rightarrow> phase \<times> world" where
  "phase_step E now rid n Validating w =
     (case send_validate now rid (w_db w) of
        Inl e \<Rightarrow> (Releasing (Raised e), w)
      | Inr (Stop status d) \<Rightarrow> (Releasing (Returned status), w\<lparr>w_db := d\<rparr>)
      | Inr (Go x) \<Rightarrow> (Pacing x, w))"
| "phase_step E now rid n (Pacing x) w =
     (case acquire 25 (\<lambda>_. now) (e_clash E)
             (build_send_buckets (e_settings E) (x_domain x) (Some (x_send_rate x))) (w_redis w) of
        Inl e \<Rightarrow> (Releasing (Raised e), w)
      | Inr (rate, r) \<Rightarrow>
          if ar_allowed rate then (PoolCap x, w\<lparr>w_redis := r\<rparr>)
          else (Releasing (Returned ''rate-limited''),
                requeue now (min (max 1 (ceil_rat (ar_retry_after rate))) 60) rid (w\<lparr>w_redis := r\<rparr>)))"
| "phase_step E now rid n (PoolCap x) w =
     (let cap = is_under_daily_cap (e_settings E) now (x_pool x) None (w_redis w) in
      if dc_allowed cap then (TotalCap x, w)
      else (Releasing (Returned ''daily-cap''), requeue now (min (max 60 (dc_retry_after cap)) 3600) rid w))"
| "phase_step E now rid n (TotalCap x) w =
     (if global_sent_today now (w_redis w) \<ge> x_warming_cap x
      then if x_overflow x = JStr ''defer''
           then (Releasing (Returned ''warming-deferred''), requeue now 3600 rid w)
           else (Stopping x, w)
      else (Submitting x, w))"
| "phase_step E now rid n (Stopping x) w =
     (Releasing (Returned ''warming-cap''),
      w\<lparr>w_db := close_if_pending now rid (\<lambda>r. r\<lparr>cr_status := RSkippedCap\<rparr>)
                  (x_campaign_id x) SkippedCount (w_db w)\<rparr>)"
| "phase_step E now rid n (Submitting x) w =
     (let m = send_message_of E x in
      case e_submit E m of
        Crashed e \<Rightarrow> (Releasing (Raised e), w)
      | Transient exc \<Rightarrow> (case send_transient E now rid n exc w of (res, w') \<Rightarrow> (Releasing res, w'))
      | Permanent exc \<Rightarrow> (Rejecting x exc, w)
      | Accepted res \<Rightarrow> (Recording x (sr_message_token res), w\<lparr>w_mail := w_mail w @ [(rid, m)]\<rparr>))"
| "phase_step E now rid n (Rejecting x exc) w =
     (Releasing (Returned ''failed''),
      w\<lparr>w_db := close_if_pending now rid
                  (\<lambda>r. r\<lparr>cr_status := RFailed, cr_error_detail := Some (''permanent: '' @ exc)\<rparr>)
                  (x_campaign_id x) FailedCount (w_db w)\<rparr>)"
| "phase_step E now rid n (Recording x token) w =
     (case send_record E now rid x token (w_db w) of
        (status, d) \<Rightarrow>
          (if status = ''missing-after-send'' then Releasing (Returned status) else CountPool x, w\<lparr>w_db := d\<rparr>))"
| "phase_step E now rid n (CountPool x) w =
     (CountTotal x, w\<lparr>w_redis := snd (record_daily_send now (x_pool x) (w_redis w))\<rparr>)"
| "phase_step E now rid n (CountTotal x) w =
     (Releasing (Returned ''sent''), w\<lparr>w_redis := snd (record_global_send now (w_redis w))\<rparr>)"
| "phase_step E now rid n (Releasing res) w = (Finished res, unlock rid w)"
| "phase_step E now rid n (Finished res) w = (Finished res, w)"

fun run_phases :: "nat \<Rightarrow> env \<Rightarrow> instant \<Rightarrow> id \<Rightarrow> nat \<Rightarrow> phase \<Rightarrow> world \<Rightarrow> phase \<times> world" where
  "run_phases 0 E now rid n ph w = (ph, w)"
| "run_phases (Suc k) E now rid n ph w =
     (case phase_step E now rid n ph w of (ph', w') \<Rightarrow> run_phases k E now rid n ph' w')"

lemma run_phases_Finished [simp]: "run_phases k E now rid n (Finished res) w = (Finished res, w)"
  by (induction k) simp_all

lemma run_phases_Releasing: "run_phases (Suc k) E now rid n (Releasing res) w = (Finished res, unlock rid w)"
  by simp

text \<open>The rest of a task, from each phase on, against the functions of \<open>Sending\<close>.\<close>

definition ends :: "id \<Rightarrow> task_result \<times> world \<Rightarrow> phase \<times> world" where
  "ends rid rw = (Finished (fst rw), unlock rid (snd rw))"

lemma send_record_status:
  "send_record E now rid x token d = (status, d') \<Longrightarrow> status \<noteq> ''missing-after-send'' \<Longrightarrow> status = ''sent''"
  by (auto simp: send_record_def split: option.splits)

lemma phases_submit: "run_phases 5 E now rid n (Submitting x) w = ends rid (send_submit E now rid n x w)"
proof (cases "e_submit E (send_message_of E x)")
  case (Accepted res)
  obtain status d where rec: "send_record E now rid x (sr_message_token res) (w_db w) = (status, d)" by force
  show ?thesis
    using send_record_status [OF rec]
    by (simp add: ends_def send_submit_def Accepted rec Let_def numeral_eq_Suc)
next
  case (Transient exc)
  then show ?thesis
    by (cases "send_transient E now rid n exc w") (simp add: ends_def send_submit_def numeral_eq_Suc)
qed (simp_all add: ends_def send_submit_def numeral_eq_Suc)

lemma run_phases_step:
  "0 < k \<Longrightarrow> run_phases k E now rid n ph w =
     (case phase_step E now rid n ph w of (ph', w') \<Rightarrow> run_phases (k - 1) E now rid n ph' w')"
  by (cases k) simp_all

lemma phases_stop:
  "run_phases (Suc (Suc k)) E now rid n (Stopping x) w = (Finished (Returned ''warming-cap''),
     unlock rid (w\<lparr>w_db := close_if_pending now rid (\<lambda>r. r\<lparr>cr_status := RSkippedCap\<rparr>)
                   (x_campaign_id x) SkippedCount (w_db w)\<rparr>))"
  by simp

text \<open>What pacing decides, and the world it leaves to the rest of the task.\<close>

definition after_pace :: "env \<Rightarrow> instant \<Rightarrow> id \<Rightarrow> nat \<Rightarrow> send_ctx \<Rightarrow> world \<Rightarrow> task_result \<times> world" where
  "after_pace E now rid n x w =
     (case send_pace E now x (w_redis w) of
        Inl e \<Rightarrow> (Raised e, w)
      | Inr (Later status countdown, r) \<Rightarrow> (Returned status, requeue now countdown rid (w\<lparr>w_redis := r\<rparr>))
      | Inr (HardStop, r) \<Rightarrow>
          (Returned ''warming-cap'',
           w\<lparr>w_redis := r, w_db := close_if_pending now rid (\<lambda>r. r\<lparr>cr_status := RSkippedCap\<rparr>)
                                    (x_campaign_id x) SkippedCount (w_db w)\<rparr>)
      | Inr (Clear, r) \<Rightarrow> send_submit E now rid n x (w\<lparr>w_redis := r\<rparr>))"

lemma phases_total:
  "run_phases 6 E now rid n (TotalCap x) w =
     ends rid (if global_sent_today now (w_redis w) \<ge> x_warming_cap x
               then if x_overflow x = JStr ''defer''
                    then (Returned ''warming-deferred'', requeue now 3600 rid w)
                    else (Returned ''warming-cap'',
                          w\<lparr>w_db := close_if_pending now rid (\<lambda>r. r\<lparr>cr_status := RSkippedCap\<rparr>)
                                      (x_campaign_id x) SkippedCount (w_db w)\<rparr>)
               else send_submit E now rid n x w)"
  using run_phases_Releasing [of 4 E now rid n] phases_stop [of 3 E now rid n]
  by (simp add: run_phases_step [of 6, simplified] phases_submit ends_def)

lemma phases_pace: "run_phases 8 E now rid n (Pacing x) w = ends rid (after_pace E now rid n x w)"
proof (cases "acquire 25 (\<lambda>_. now) (e_clash E)
      (build_send_buckets (e_settings E) (x_domain x) (Some (x_send_rate x))) (w_redis w)")
  case (Inl e)
  then show ?thesis
    using run_phases_Releasing [of 6 E now rid n]
    by (simp add: run_phases_step [of 8, simplified] after_pace_def send_pace_def ends_def)
next
  case (Inr rr)
  obtain rate r where rr: "rr = (rate, r)" by force
  show ?thesis
  proof (cases "ar_allowed rate")
    case False
    then show ?thesis
      using run_phases_Releasing [of 6 E now rid n]
      by (simp add: run_phases_step [of 8, simplified] after_pace_def send_pace_def ends_def Inr rr)
  next
    case True
    let ?w = "w\<lparr>w_redis := r\<rparr>" and ?cap = "is_under_daily_cap (e_settings E) now (x_pool x) None r"
    have one: "run_phases 8 E now rid n (Pacing x) w = run_phases 7 E now rid n (PoolCap x) ?w"
      by (simp add: run_phases_step [of 8, simplified] Inr rr True)
    have two: "run_phases 7 E now rid n (PoolCap x) ?w =
        (if dc_allowed ?cap then run_phases 6 E now rid n (TotalCap x) ?w
         else ends rid (Returned ''daily-cap'', requeue now (min (max 60 (dc_retry_after ?cap)) 3600) rid ?w))"
      using run_phases_Releasing [of 5 E now rid n]
      by (simp add: run_phases_step [of 7, simplified] Let_def ends_def)
    have pace: "send_pace E now x (w_redis w) =
       (if \<not> dc_allowed ?cap then Inr (Later ''daily-cap'' (min (max 60 (dc_retry_after ?cap)) 3600), r)
        else if global_sent_today now r \<ge> x_warming_cap x
        then Inr (if x_overflow x = JStr ''defer'' then Later ''warming-deferred'' 3600 else HardStop, r)
        else Inr (Clear, r))"
      by (simp add: send_pace_def Inr rr True Let_def)
    show ?thesis unfolding one two by (simp add: phases_total after_pace_def pace)
  qed
qed

lemma send_body_alt:
  "send_body E now rid n w =
     (case send_validate now rid (w_db w) of
        Inl e \<Rightarrow> (Raised e, w)
      | Inr (Stop status d) \<Rightarrow> (Returned status, w\<lparr>w_db := d\<rparr>)
      | Inr (Go x) \<Rightarrow> after_pace E now rid n x w)"
  by (simp add: send_body_def after_pace_def requeue_def split: sum.split validated.split paced.split prod.split)

lemma phases_body: "run_phases 9 E now rid n Validating w = ends rid (send_body E now rid n w)"
  using run_phases_Releasing [of 7 E now rid n]
  by (simp add: run_phases_step [of 9, simplified] send_body_alt phases_pace ends_def
      split: sum.split validated.split)

section \<open>The cluster\<close>

text \<open>
  A worker knows its recipient, the retries of its task, when it took the lock and the phase it
  is in.  The clock is shared and may advance by any amount; a worker may die in any phase, and its
  lock stays.  \<open>EOther\<close> is every other step of the system.  A step is labelled by what happens, so that
  a property can say which runs it is about: \<open>moves S P\<close> are the steps that keep the condition \<open>P\<close> on
  the event and on the cluster it leads to.
\<close>

record worker =
  wk_rid :: id
  wk_retries :: nat
  wk_since :: instant
  wk_phase :: phase

record cluster =
  k_world :: world
  k_now :: instant
  k_workers :: "worker list"

definition same_locks :: "redis \<Rightarrow> redis \<Rightarrow> bool" where
  "same_locks r r' \<longleftrightarrow> (\<forall>i. r_strings r' (lock_key i) = r_strings r (lock_key i))"

text \<open>
  What other commands leave: the locks, and the counters of the day's messages, which only send
  workers move.  A clash of the rate limiter is a change of the buckets it watches.
\<close>

definition same_keys :: "redis \<Rightarrow> redis \<Rightarrow> bool" where
  "same_keys r r' \<longleftrightarrow> same_locks r r' \<and> r_counters r' = r_counters r"

fun is_recording :: "phase \<Rightarrow> bool" where
  "is_recording (Recording x token) = True"
| "is_recording _ = False"

fun is_finished :: "phase \<Rightarrow> bool" where
  "is_finished (Finished res) = True"
| "is_finished _ = False"

definition still_working :: "worker \<Rightarrow> worker list" where
  "still_working wk = (if is_finished (wk_phase wk) then [] else [wk])"

datatype cluster_event = EStart | EWork | EDie worker | ETick | EOther

inductive cluster_step :: "system \<Rightarrow> cluster_event \<Rightarrow> cluster \<Rightarrow> cluster \<Rightarrow> bool" for S where
  Start: "(due_at, SendTask rid n) \<in> set (w_queue (k_world k)) \<Longrightarrow> due_at \<le> k_now k \<Longrightarrow>
    take_lock (k_now k) rid (k_world k) = Some w \<Longrightarrow>
    cluster_step S EStart k (k\<lparr>k_world := w, k_workers := k_workers k @
      [\<lparr>wk_rid = rid, wk_retries = n, wk_since = k_now k, wk_phase = Validating\<rparr>]\<rparr>)"
| Work: "k_workers k = before @ wk # after \<Longrightarrow>
    (\<forall>i r. clash i = Some r \<longrightarrow> same_keys (w_redis (k_world k)) r) \<Longrightarrow>
    phase_step ((y_env S)\<lparr>e_submit := submit, e_clash := clash\<rparr>) (k_now k) (wk_rid wk) (wk_retries wk)
      (wk_phase wk) (k_world k) = (ph, w) \<Longrightarrow>
    cluster_step S EWork k (k\<lparr>k_world := w, k_workers := before @ still_working (wk\<lparr>wk_phase := ph\<rparr>) @ after\<rparr>)"
| Die: "k_workers k = before @ wk # after \<Longrightarrow> cluster_step S (EDie wk) k (k\<lparr>k_workers := before @ after\<rparr>)"
| Tick: "k_now k \<le> t \<Longrightarrow> cluster_step S ETick k (k\<lparr>k_now := t\<rparr>)"
| Background: "sys_step S (k_world k) w \<Longrightarrow> w_mail w = w_mail (k_world k) \<Longrightarrow>
    same_keys (w_redis (k_world k)) (w_redis w) \<Longrightarrow> cluster_step S EOther k (k\<lparr>k_world := w\<rparr>)"

definition moves :: "system \<Rightarrow> (cluster_event \<Rightarrow> cluster \<Rightarrow> bool) \<Rightarrow> cluster \<Rightarrow> cluster \<Rightarrow> bool" where
  "moves S P a b \<longleftrightarrow> (\<exists>e. cluster_step S e a b \<and> P e b)"

definition initial_cluster :: "instant \<Rightarrow> cluster" where
  "initial_cluster t = \<lparr>k_world = initial_world, k_now = t, k_workers = []\<rparr>"

text \<open>
  Every worker is within the 180 seconds of its lock (no task limit in \<open>app/celery_app.py\<close> enforces
  it), and no worker dies between the provider's acceptance and its record.
\<close>

definition prompt :: "cluster_event \<Rightarrow> cluster \<Rightarrow> bool" where
  "prompt e k \<longleftrightarrow> (\<forall>wk \<in> set (k_workers k). k_now k < wk_since wk + seconds 180) \<and>
     (\<forall>wk. e = EDie wk \<longrightarrow> \<not> is_recording (wk_phase wk))"

inductive_cases cluster_stepE: "cluster_step S e k k'"

lemma movesI: "cluster_step S e a b \<Longrightarrow> P e b \<Longrightarrow> moves S P a b"
  unfolding moves_def by blast

section \<open>What one phase does\<close>

text \<open>A transaction of a worker leaves the database alone or closes its recipient.\<close>

definition settles :: "id \<Rightarrow> db \<Rightarrow> db \<Rightarrow> bool" where
  "settles rid d d' \<longleftrightarrow> d' = d \<or> (\<exists>t f cid k fq. closing f \<and> d' = settled t rid f cid k fq d)"

lemma settles_refl [simp]: "settles rid d d"
  by (simp add: settles_def)

lemma settlesI: "closing f \<Longrightarrow> settles rid d (settled t rid f cid k fq d)"
  unfolding settles_def by blast

lemma settles_evolves: "settles rid d d' \<Longrightarrow> evolves V d d'"
  by (auto simp: settles_def evolves_settled)

lemma settles_validate: "send_validate now rid d = Inr (Stop s d') \<Longrightarrow> settles rid d d'"
  unfolding settles_def using send_validate_Stop by blast

lemma settles_close: "closing f \<Longrightarrow> settles rid d (close_if_pending now rid f cid k d)"
  using settlesI [of f rid d _ cid k None]
  by (simp add: close_if_pending_def settled_None split: option.split)

lemma send_record_cases:
  assumes "send_record E now rid x token d = (s, d')"
  shows "settles rid d d' \<and> (\<forall>cr. get_recipient_row rid d' = Some cr \<longrightarrow> cr_status cr \<noteq> RPending)"
proof (cases "\<exists>cr. get_recipient_row rid d = Some cr \<and> cr_status cr = RPending")
  case True
  let ?f = "\<lambda>r. r\<lparr>cr_status := RSent, cr_postal_message_id := Some (py_str (e_rep E) token), cr_ip_pool := Some (x_pool x)\<rparr>"
  have cl: "closing ?f" by simp
  from True assms have "d' = settled now rid ?f (x_campaign_id x) SentCount (freq_entry x) d"
    by (auto simp: send_record_def settled_def log_send_def freq_entry_def Let_def split: option.splits)
  with settlesI [OF cl] show ?thesis by (auto simp: settled_recipient closing_touch [OF cl] cl)
next
  case False
  with assms show ?thesis by (auto simp: send_record_def split: option.splits if_splits)
qed

lemma same_locks_refl [simp]: "same_locks r r"
  by (simp add: same_locks_def)

lemma same_keys_refl [simp]: "same_keys r r"
  by (simp add: same_keys_def)

lemma keys_locks: "\<forall>i s. f i = Some s \<longrightarrow> same_keys r s \<Longrightarrow> \<forall>i s. f i = Some s \<longrightarrow> same_locks r s"
  by (simp add: same_keys_def)

lemma same_keysD:
  "same_keys r r' \<Longrightarrow> same_locks r r'" "same_keys r r' \<Longrightarrow> r_counters r' = r_counters r"
  by (simp_all add: same_keys_def)

lemma same_locks_strings: "r_strings r' = r_strings r \<Longrightarrow> same_locks r r'"
  by (simp add: same_locks_def)

lemma attempt_strings [simp]: "r_strings (snd (attempt now bs r)) = r_strings r"
proof -
  have "r_strings (fold (write_bucket now ok) cs s) = r_strings s" for ok cs s
    by (induction cs arbitrary: s)
       (auto simp: write_bucket_def redis_expire_hash_def redis_hset_def split: prod.split)
  then show ?thesis by (simp add: attempt_def Let_def)
qed

lemma acquire_loop_locks:
  "acquire_loop m i clock clash bs r = Inr (res, r') \<Longrightarrow> (\<forall>j s. clash j = Some s \<longrightarrow> same_locks r0 s) \<Longrightarrow>
   same_locks r0 r \<Longrightarrow> same_locks r0 r'"
proof (induction m i clock clash bs r rule: acquire_loop.induct)
  case (2 m i clock clash bs r)
  show ?case
  proof (cases "clash i")
    case None
    with "2.prems" have "r' = snd (attempt (clock i) bs r)" by (auto split: if_splits)
    with "2.prems"(3) show ?thesis by (simp add: same_locks_def)
  next
    case (Some r1)
    with "2.prems"(1) have nz: "\<not> (\<exists>b \<in> set bs. b_refill_per_sec b = 0)" by (auto split: if_splits)
    with "2.prems"(1) Some have "acquire_loop m (i + 1) clock clash bs r1 = Inr (res, r')" by (simp split: if_splits)
    from "2.IH" [OF nz Some this "2.prems"(2)] "2.prems"(2) Some show ?thesis by blast
  qed
qed simp

lemma acquire_locks:
  "acquire m clock clash bs r = Inr (res, r') \<Longrightarrow> (\<forall>j s. clash j = Some s \<longrightarrow> same_locks r s) \<Longrightarrow> same_locks r r'"
  using acquire_loop_locks [of m 0 clock clash bs r res r' r] by (auto simp: acquire_def split: if_splits)

lemma send_transient_frame:
  "send_transient E now rid n exc w = (res, w') \<Longrightarrow> w_db w' = w_db w \<and> w_mail w' = w_mail w \<and> w_redis w' = w_redis w"
  by (auto simp: send_transient_def Let_def split: if_splits)

lemma requeue_frame [simp]:
  "w_db (requeue now k rid w) = w_db w" "w_mail (requeue now k rid w) = w_mail w"
  "w_redis (requeue now k rid w) = w_redis w"
  by (simp_all add: requeue_def)

text \<open>The message a worker may still send.\<close>

fun carries :: "phase \<Rightarrow> send_ctx option" where
  "carries (Pacing x) = Some x"
| "carries (PoolCap x) = Some x"
| "carries (TotalCap x) = Some x"
| "carries (Submitting x) = Some x"
| "carries _ = None"


text \<open>
  A phase leaves the mail alone, except the submission the provider accepts; it leaves the locks
  alone, except the release of its own; a worker carries what its validation gave it.
\<close>

definition phase_effect :: "env \<Rightarrow> instant \<Rightarrow> id \<Rightarrow> phase \<Rightarrow> world \<Rightarrow> phase \<Rightarrow> world \<Rightarrow> bool" where
  "phase_effect E now rid ph w ph' w' \<longleftrightarrow>
     settles rid (w_db w) (w_db w') \<and>
     (is_recording ph \<longrightarrow> (\<forall>cr. get_recipient_row rid (w_db w') = Some cr \<longrightarrow> cr_status cr \<noteq> RPending)) \<and>
     (case ph of Releasing res \<Rightarrow> ph' = Finished res \<and> w' = unlock rid w
      | _ \<Rightarrow> same_locks (w_redis w) (w_redis w') \<and> (is_finished ph \<or> \<not> is_finished ph')) \<and>
     (if is_recording ph' then \<exists>x. ph = Submitting x \<and> w_mail w' = w_mail w @ [(rid, send_message_of E x)]
      else w_mail w' = w_mail w) \<and>
     (carries ph' = None \<or> carries ph' = carries ph \<or>
      (\<exists>x. ph = Validating \<and> carries ph' = Some x \<and> send_validate now rid (w_db w) = Inr (Go x)))"

lemma phase_effect_evolves: "phase_effect E now rid ph w ph' w' \<Longrightarrow> evolves V (w_db w) (w_db w')"
  by (rule settles_evolves [of rid]) (simp add: phase_effect_def)

lemma count_send_strings [simp]: "r_strings (snd (count_send now key r)) = r_strings r"
  by (simp add: count_send_def redis_incr_def redis_expire_counter_def Let_def)

lemma phase_step_effect:
  assumes keys: "\<forall>i s. e_clash E i = Some s \<longrightarrow> same_keys (w_redis w) s"
    and step: "phase_step E now rid n ph w = (ph', w')"
  shows "phase_effect E now rid ph w ph' w'"
proof (cases ph)
  case Validating
  with step show ?thesis
    by (auto simp: phase_effect_def dest: settles_validate split: sum.splits validated.splits)
next
  case (Pacing x)
  with step acquire_locks [OF _ keys_locks [OF keys]] show ?thesis
    by (auto simp: phase_effect_def split: sum.splits prod.splits if_splits)
next
  case (Submitting x)
  with step show ?thesis
    by (auto simp: phase_effect_def Let_def dest: send_transient_frame split: send_outcome.splits prod.splits)
next
  case (Recording x token)
  with step send_record_cases [of E now rid x token "w_db w"] show ?thesis
    by (auto simp: phase_effect_def split: prod.splits if_splits)
next
  case (Stopping x)
  with step show ?thesis
    using settles_close [of "\<lambda>r. r\<lparr>cr_status := RSkippedCap\<rparr>"] by (auto simp: phase_effect_def)
next
  case (Rejecting x exc)
  with step show ?thesis
    using settles_close [of "\<lambda>r. r\<lparr>cr_status := RFailed, cr_error_detail := Some (''permanent: '' @ exc)\<rparr>"]
    by (auto simp: phase_effect_def)
qed (use step in \<open>auto simp: phase_effect_def Let_def unlock_def same_locks_strings record_daily_send_def
    record_global_send_def split: if_splits\<close>)


section \<open>One worker, one message\<close>

definition recorder :: "id \<Rightarrow> worker list \<Rightarrow> bool" where
  "recorder i ws \<longleftrightarrow> (\<exists>wk \<in> set ws. wk_rid wk = i \<and> is_recording (wk_phase wk))"

definition holds_lock :: "instant \<Rightarrow> redis \<Rightarrow> worker \<Rightarrow> bool" where
  "holds_lock now r wk \<longleftrightarrow> now < wk_since wk + seconds 180 \<and>
     r_strings r (lock_key (wk_rid wk)) = Some (''1'', Some (wk_since wk + seconds 180))"

text \<open>
  The invariant: at most one worker on a recipient, each holding its lock; a recipient mailed to
  is not pending, or its worker is about to record it; a worker that may still send has a
  recipient nobody has mailed to.
\<close>

definition answered :: "db \<Rightarrow> worker list \<Rightarrow> id \<Rightarrow> bool" where
  "answered d ws i \<longleftrightarrow> i \<le> seqs d TRecipients \<and>
     (recorder i ws \<or> (\<forall>cr. get_recipient_row i d = Some cr \<longrightarrow> cr_status cr \<noteq> RPending))"

definition may_send :: "db \<Rightarrow> (id \<times> send_message) list \<Rightarrow> worker \<Rightarrow> bool" where
  "may_send d mail wk \<longleftrightarrow> (carries (wk_phase wk) \<noteq> None \<longrightarrow>
     wk_rid wk \<le> seqs d TRecipients \<and> wk_rid wk \<notin> fst ` set mail)"

definition cluster_ok :: "cluster \<Rightarrow> bool" where
  "cluster_ok k \<longleftrightarrow> ids_ok (w_db (k_world k)) \<and> distinct (map wk_rid (k_workers k)) \<and>
     (\<forall>wk \<in> set (k_workers k). holds_lock (k_now k) (w_redis (k_world k)) wk) \<and>
     distinct (map fst (w_mail (k_world k))) \<and>
     (\<forall>i \<in> fst ` set (w_mail (k_world k)). answered (w_db (k_world k)) (k_workers k) i) \<and>
     (\<forall>wk \<in> set (k_workers k). may_send (w_db (k_world k)) (w_mail (k_world k)) wk)"

lemma lock_key_inject [simp]: "lock_key i = lock_key j \<longleftrightarrow> i = j"
  by (simp add: lock_key_def)

lemma take_lock_effect:
  assumes "take_lock now rid w = Some w'"
  shows "live now (r_strings (w_redis w) (lock_key rid)) = None" "w_db w' = w_db w" "w_mail w' = w_mail w"
    "w_queue w' = w_queue w"
    "r_strings (w_redis w') = (r_strings (w_redis w))(lock_key rid \<mapsto> (''1'', Some (now + seconds 180)))"
  using assms by (auto simp: take_lock_def redis_set_nx_def split: option.splits prod.splits bool.splits)

lemma holds_lock_live: "holds_lock now r wk \<Longrightarrow> live now (r_strings r (lock_key (wk_rid wk))) \<noteq> None"
  by (simp add: holds_lock_def)

lemma holds_lock_same: "same_locks r r' \<Longrightarrow> holds_lock now r' wk \<longleftrightarrow> holds_lock now r wk"
  by (simp add: holds_lock_def same_locks_def)

lemma answered_evolves:
  assumes "evolves V d d'" "ids_ok d" "recorder i ws \<Longrightarrow> recorder i ws' \<or>
    (\<forall>cr. get_recipient_row i d' = Some cr \<longrightarrow> cr_status cr \<noteq> RPending)" "answered d ws i"
  shows "answered d' ws' i"
proof -
  have le: "ledger_le d d'" using assms(1,2) by (simp add: evolves_def)
  with assms(3,4) show ?thesis by (fastforce simp: answered_def ledger_le_def)
qed

lemma may_send_evolves: "evolves V d d' \<Longrightarrow> ids_ok d \<Longrightarrow> may_send d mail wk \<Longrightarrow> may_send d' mail wk"
  by (auto simp: may_send_def evolves_def ledger_le_def)

lemma cluster_ok_background:
  assumes "cluster_ok k" "sys_step S (k_world k) w" "w_mail w = w_mail (k_world k)"
    "same_keys (w_redis (k_world k)) (w_redis w)"
  shows "cluster_ok (k\<lparr>k_world := w\<rparr>)"
proof -
  note ev = step_evolves [OF assms(2)]
  have ids: "ids_ok (w_db (k_world k))" using assms(1) by (simp add: cluster_ok_def)
  with ev have "ids_ok (w_db w)" by (simp add: evolves_def)
  moreover have "answered (w_db (k_world k)) ws i \<Longrightarrow> answered (w_db w) ws i" for ws i
    by (rule answered_evolves [OF ev ids]) simp_all
  ultimately show ?thesis using assms(1,3) may_send_evolves [OF ev ids]
    by (simp add: cluster_ok_def holds_lock_same [OF same_keysD(1) [OF assms(4)]])
qed

lemma cluster_ok_start:
  assumes "cluster_ok k" "take_lock (k_now k) rid (k_world k) = Some w"
  shows "cluster_ok (k\<lparr>k_world := w, k_workers := k_workers k @
      [\<lparr>wk_rid = rid, wk_retries = n, wk_since = k_now k, wk_phase = Validating\<rparr>]\<rparr>)"
proof -
  note tl = take_lock_effect [OF assms(2)]
  have free: "wk_rid wk \<noteq> rid" if "wk \<in> set (k_workers k)" for wk
    using assms(1) that tl(1) holds_lock_live [of "k_now k" "w_redis (k_world k)" wk] by (auto simp: cluster_ok_def)
  then have fresh: "rid \<notin> wk_rid ` set (k_workers k)" by auto
  have "holds_lock (k_now k) (w_redis w) wk" if "wk \<in> set (k_workers k)" for wk
    using assms(1) that free [OF that] by (simp add: cluster_ok_def holds_lock_def tl(5))
  moreover have "answered d ws i \<Longrightarrow> answered d (ws @ [v]) i" for d ws v i
    by (auto simp: answered_def recorder_def)
  moreover have "0 < seconds 180" by (simp add: seconds_def)
  ultimately show ?thesis
    using assms(1) fresh by (auto simp: cluster_ok_def tl may_send_def holds_lock_def)
qed

lemma cluster_ok_die:
  assumes "cluster_ok k" "k_workers k = before @ wk # after" "\<not> is_recording (wk_phase wk)"
  shows "cluster_ok (k\<lparr>k_workers := before @ after\<rparr>)"
proof -
  have "answered d (before @ wk # after) i \<Longrightarrow> answered d (before @ after) i" for d i
    using assms(3) by (auto simp: answered_def recorder_def)
  with assms(1) show ?thesis by (simp add: cluster_ok_def assms(2))
qed


lemma still_working_set [simp]: "set (still_working wk) = (if is_finished (wk_phase wk) then {} else {wk})"
  by (simp add: still_working_def)

lemma validated_unmailed:
  assumes "cluster_ok k" "wk \<in> set (k_workers k)" "wk_phase wk = Validating"
    and "send_validate now (wk_rid wk) (w_db (k_world k)) = Inr (Go x)"
  shows "wk_rid wk \<le> seqs (w_db (k_world k)) TRecipients \<and> wk_rid wk \<notin> fst ` set (w_mail (k_world k))"
proof -
  from send_validate_Go [OF assms(4)] obtain cr where row: "get_recipient_row (wk_rid wk) (w_db (k_world k)) = Some cr"
    and pend: "cr_status cr = RPending" by (auto simp: sendable_def)
  have "\<not> recorder (wk_rid wk) (k_workers k)"
    using assms(1-3) by (auto simp: cluster_ok_def recorder_def distinct_map dest: inj_onD)
  with row pend assms(1) have "wk_rid wk \<notin> fst ` set (w_mail (k_world k))"
    by (auto simp: cluster_ok_def answered_def)
  moreover have "wk_rid wk \<le> seqs (w_db (k_world k)) TRecipients"
    using assms(1) row by (auto simp: cluster_ok_def ids_ok_def get_recipient_row_def dest!: row_by_SomeD)
  ultimately show ?thesis by blast
qed

lemma other_workers:
  assumes "cluster_ok k" "k_workers k = before @ wk # after" "v \<in> set before \<union> set after"
  shows "wk_rid v \<noteq> wk_rid wk" "v \<in> set (k_workers k)"
proof -
  have "wk_rid wk \<notin> wk_rid ` (set before \<union> set after)"
    using assms(1) by (simp add: cluster_ok_def assms(2)) blast
  with assms(3) show "wk_rid v \<noteq> wk_rid wk" by (metis imageI)
  show "v \<in> set (k_workers k)" using assms(2,3) by auto
qed

text \<open>After a phase: the locks, who still records, and who may still send.\<close>

lemma work_locks:
  assumes ok: "cluster_ok k" and ws: "k_workers k = before @ wk # after"
    and eff: "phase_effect E (k_now k) (wk_rid wk) (wk_phase wk) (k_world k) ph w"
    and v: "v \<in> set (before @ still_working (wk\<lparr>wk_phase := ph\<rparr>) @ after)"
  shows "holds_lock (k_now k) (w_redis w) v"
proof (cases "\<exists>res. wk_phase wk = Releasing res")
  case True
  with eff have ph: "is_finished ph" and w: "w = unlock (wk_rid wk) (k_world k)" by (auto simp: phase_effect_def)
  from ph v have "v \<in> set before \<union> set after" by auto
  moreover from this have "wk_rid v \<noteq> wk_rid wk" by (rule other_workers [OF ok ws])
  ultimately show ?thesis using ok by (auto simp: cluster_ok_def ws w unlock_def holds_lock_def)
next
  case False
  with eff have "same_locks (w_redis (k_world k)) (w_redis w)"
    by (cases "wk_phase wk") (simp_all add: phase_effect_def)
  moreover have "holds_lock (k_now k) r (wk\<lparr>wk_phase := ph\<rparr>) = holds_lock (k_now k) r wk" for r
    by (simp add: holds_lock_def)
  ultimately show ?thesis using ok v by (auto simp: cluster_ok_def ws holds_lock_same split: if_splits)
qed

lemma work_answered:
  assumes ok: "cluster_ok k" and ws: "k_workers k = before @ wk # after"
    and eff: "phase_effect E (k_now k) (wk_rid wk) (wk_phase wk) (k_world k) ph w"
    and i: "i \<in> fst ` set (w_mail w)"
  shows "answered (w_db w) (before @ still_working (wk\<lparr>wk_phase := ph\<rparr>) @ after) i"
proof -
  let ?ws = "before @ still_working (wk\<lparr>wk_phase := ph\<rparr>) @ after"
  have ev: "evolves V (w_db (k_world k)) (w_db w)" for V by (rule phase_effect_evolves [OF eff])
  have ids: "ids_ok (w_db (k_world k))" using ok by (simp add: cluster_ok_def)
  show ?thesis
  proof (cases "i \<in> fst ` set (w_mail (k_world k))")
    case True
    have "answered (w_db (k_world k)) (k_workers k) i" using ok True by (auto simp: cluster_ok_def)
    then show ?thesis
    proof (rule answered_evolves [OF ev ids, rotated])
      assume "recorder i (k_workers k)"
      then show "recorder i ?ws \<or> (\<forall>cr. get_recipient_row i (w_db w) = Some cr \<longrightarrow> cr_status cr \<noteq> RPending)"
        using eff by (auto simp: recorder_def ws phase_effect_def)
    qed
  next
    case False
    with i eff have new: "is_recording ph" "i = wk_rid wk" and sub: "\<exists>x. wk_phase wk = Submitting x"
      by (auto simp: phase_effect_def split: if_splits)
    then have "i \<le> seqs (w_db (k_world k)) TRecipients" using ok by (auto simp: cluster_ok_def ws may_send_def)
    with ev [of False] ids have "i \<le> seqs (w_db w) TRecipients" by (simp add: evolves_def ledger_le_def)
    moreover have "recorder i ?ws" using new by (cases ph) (auto simp: recorder_def)
    ultimately show ?thesis by (simp add: answered_def)
  qed
qed

lemma work_may_send:
  assumes ok: "cluster_ok k" and ws: "k_workers k = before @ wk # after"
    and eff: "phase_effect E (k_now k) (wk_rid wk) (wk_phase wk) (k_world k) ph w"
    and v: "v \<in> set (before @ still_working (wk\<lparr>wk_phase := ph\<rparr>) @ after)"
  shows "may_send (w_db w) (w_mail w) v"
proof -
  have ev: "evolves V (w_db (k_world k)) (w_db w)" for V by (rule phase_effect_evolves [OF eff])
  have ids: "ids_ok (w_db (k_world k))" using ok by (simp add: cluster_ok_def)
  have old: "may_send (w_db (k_world k)) (w_mail (k_world k)) u" if "u \<in> set (k_workers k)" for u
    using ok that by (simp add: cluster_ok_def)
  show ?thesis
  proof (cases "v \<in> set before \<union> set after")
    case True
    then have "wk_rid v \<noteq> wk_rid wk" "v \<in> set (k_workers k)" by (rule other_workers [OF ok ws])+
    moreover have "fst ` set (w_mail w) \<subseteq> insert (wk_rid wk) (fst ` set (w_mail (k_world k)))"
      using eff by (auto simp: phase_effect_def split: if_splits)
    ultimately show ?thesis
      using may_send_evolves [OF ev ids old, of v] by (auto simp: may_send_def)
  next
    case False
    with v have v': "v = wk\<lparr>wk_phase := ph\<rparr>" by (auto split: if_splits)
    have wk: "wk \<in> set (k_workers k)" by (simp add: ws)
    have "may_send (w_db (k_world k)) (w_mail (k_world k)) v"
      using eff old [OF wk] validated_unmailed [OF ok wk] by (auto simp: v' may_send_def phase_effect_def)
    from may_send_evolves [OF ev ids this] eff show ?thesis
      by (cases ph) (auto simp: v' may_send_def phase_effect_def)
  qed
qed

lemma cluster_ok_work:
  assumes ok: "cluster_ok k" and ws: "k_workers k = before @ wk # after"
    and eff: "phase_effect E (k_now k) (wk_rid wk) (wk_phase wk) (k_world k) ph w"
  shows "cluster_ok (k\<lparr>k_world := w, k_workers := before @ still_working (wk\<lparr>wk_phase := ph\<rparr>) @ after\<rparr>)"
proof -
  have "ids_ok (w_db w)" using ok phase_effect_evolves [OF eff, of False]
    by (simp add: cluster_ok_def evolves_def)
  moreover have "distinct (map wk_rid (before @ still_working (wk\<lparr>wk_phase := ph\<rparr>) @ after))"
    using ok by (auto simp: cluster_ok_def ws still_working_def)
  moreover have "distinct (map fst (w_mail w))"
  proof (cases "is_recording ph")
    case True
    with eff obtain x where "wk_phase wk = Submitting x"
      "w_mail w = w_mail (k_world k) @ [(wk_rid wk, send_message_of E x)]" by (auto simp: phase_effect_def)
    with ok show ?thesis by (auto simp: cluster_ok_def ws may_send_def)
  next
    case False
    with eff ok show ?thesis by (simp add: cluster_ok_def phase_effect_def)
  qed
  ultimately show ?thesis
    using work_locks [OF ok ws eff] work_answered [OF ok ws eff] work_may_send [OF ok ws eff]
    by (simp add: cluster_ok_def)
qed

lemma cluster_step_ok:
  assumes "moves S prompt k k'" "cluster_ok k"
  shows "cluster_ok k'"
proof -
  from assms(1) obtain e where step: "cluster_step S e k k'" and prompt: "prompt e k'" by (auto simp: moves_def)
  from step show ?thesis
  proof cases
    case Start
    then show ?thesis using cluster_ok_start [OF assms(2)] by blast
  next
    case (Work before wk after clash submit ph w)
    from phase_step_effect [OF _ Work(5)] Work(4) cluster_ok_work [OF assms(2) Work(3)] show ?thesis
      by (simp add: Work(2))
  next
    case (Die before wk after)
    with prompt show ?thesis using cluster_ok_die [OF assms(2)] by (simp add: prompt_def)
  next
    case (Tick t)
    with assms(2) prompt show ?thesis by (simp add: cluster_ok_def holds_lock_def prompt_def)
  next
    case Background
    then show ?thesis using cluster_ok_background [OF assms(2)] by blast
  qed
qed

lemma initial_cluster_ok: "cluster_ok (initial_cluster t)"
  using initial_ok(1)
  by (simp add: cluster_ok_def initial_cluster_def world_ok_def) (simp add: initial_world_def)

lemma prompt_run_ok: "(moves S prompt)\<^sup>*\<^sup>* (initial_cluster t) k \<Longrightarrow> cluster_ok k"
  by (induction rule: rtranclp_induct) (auto intro: initial_cluster_ok cluster_step_ok)

text \<open>
  C7: As long as every worker stays within the 180 seconds of its lock and none dies between the
  provider's acceptance and its record, at most one worker is on a recipient and every recipient gets
  at most one message, however the workers interleave with each other, with deaths of workers in any
  other phase and with every other step of the system.
\<close>

theorem one_worker_one_message:
  assumes "(moves S prompt)\<^sup>*\<^sup>* (initial_cluster t) k"
  shows "distinct (map wk_rid (k_workers k)) \<and> distinct (map fst (w_mail (k_world k)))"
  using prompt_run_ok [OF assms] by (simp add: cluster_ok_def)

section \<open>Suppression while workers are on their way\<close>

definition to_address :: "string \<Rightarrow> string \<Rightarrow> bool" where
  "to_address n e \<longleftrightarrow> normalize_email (Some e) = Some n"

definition bound_for :: "string \<Rightarrow> worker \<Rightarrow> bool" where
  "bound_for n wk \<longleftrightarrow> (case carries (wk_phase wk) of None \<Rightarrow> False | Some x \<Rightarrow> to_address n (x_email x))"

lemma bound_for_iff: "bound_for n wk \<longleftrightarrow> (\<exists>x. carries (wk_phase wk) = Some x \<and> to_address n (x_email x))"
  by (simp add: bound_for_def split: option.split)

definition in_flight :: "string \<Rightarrow> cluster \<Rightarrow> worker list" where
  "in_flight n k = filter (bound_for n) (k_workers k)"

text \<open>
  From \<open>k\<close> on, only the workers in flight then carry a message to the address, and each message to it
  is one worker in flight less.
\<close>

definition mail_to :: "string \<Rightarrow> (id \<times> send_message) list \<Rightarrow> (id \<times> send_message) list" where
  "mail_to n mail = filter (\<lambda>(i, m). to_address n (sm_to m)) mail"

lemma mail_to_simps [simp]:
  "mail_to n (a @ b) = mail_to n a @ mail_to n b" "mail_to n [] = []"
  "mail_to n [im] = (if to_address n (sm_to (snd im)) then [im] else [])"
  by (simp_all add: mail_to_def split_def)

definition only_in_flight :: "string \<Rightarrow> cluster \<Rightarrow> cluster \<Rightarrow> bool" where
  "only_in_flight n k k' \<longleftrightarrow> n \<in> suppressed_set (w_db (k_world k')) \<and>
     wk_rid ` set (in_flight n k') \<subseteq> wk_rid ` set (in_flight n k) \<and>
     (\<exists>new. w_mail (k_world k') = w_mail (k_world k) @ new \<and>
        fst ` set (mail_to n new) \<subseteq> wk_rid ` set (in_flight n k) \<and>
        length (mail_to n new) + length (in_flight n k') \<le> length (in_flight n k))"

lemma sm_to_message [simp]: "sm_to (send_message_of E x) = x_email x"
  by (simp add: send_message_of_def Let_def)

lemma only_in_flight_trans:
  assumes "only_in_flight n a b" "only_in_flight n b c"
  shows "only_in_flight n a c"
proof -
  from assms(1) obtain new where new: "w_mail (k_world b) = w_mail (k_world a) @ new"
    "fst ` set (mail_to n new) \<subseteq> wk_rid ` set (in_flight n a)"
    "length (mail_to n new) + length (in_flight n b) \<le> length (in_flight n a)" by (auto simp: only_in_flight_def)
  from assms(2) obtain later where later: "w_mail (k_world c) = w_mail (k_world b) @ later"
    "fst ` set (mail_to n later) \<subseteq> wk_rid ` set (in_flight n b)"
    "length (mail_to n later) + length (in_flight n c) \<le> length (in_flight n b)" by (auto simp: only_in_flight_def)
  have sub: "wk_rid ` set (in_flight n b) \<subseteq> wk_rid ` set (in_flight n a)"
    "wk_rid ` set (in_flight n c) \<subseteq> wk_rid ` set (in_flight n b)"
    using assms by (simp_all add: only_in_flight_def)
  have mail: "w_mail (k_world c) = w_mail (k_world a) @ (new @ later)" using new(1) later(1) by simp
  have senders: "fst ` set (mail_to n (new @ later)) \<subseteq> wk_rid ` set (in_flight n a)"
    unfolding mail_to_simps set_append image_Un using new(2) later(2) sub(1) by (meson Un_least order_trans)
  have count: "length (mail_to n (new @ later)) + length (in_flight n c) \<le> length (in_flight n a)"
    using new(3) later(3) by simp
  have "n \<in> suppressed_set (w_db (k_world c))" using assms(2) by (simp add: only_in_flight_def)
  moreover have "wk_rid ` set (in_flight n c) \<subseteq> wk_rid ` set (in_flight n a)" using sub by (rule order_trans [rotated])
  ultimately show ?thesis unfolding only_in_flight_def using mail senders count by metis
qed

lemma in_flight_work:
  assumes ws: "k_workers k = before @ wk # after" and sup: "n \<in> suppressed_set (w_db (k_world k))"
    and eff: "phase_effect E (k_now k) (wk_rid wk) (wk_phase wk) (k_world k) ph w"
  shows "only_in_flight n k (k\<lparr>k_world := w, k_workers := before @ still_working (wk\<lparr>wk_phase := ph\<rparr>) @ after\<rparr>)"
proof -
  have "n \<in> suppressed_set (w_db w)" using sup phase_effect_evolves [OF eff, of False] by (auto simp: evolves_def)
  moreover have "bound_for n wk" if "bound_for n (wk\<lparr>wk_phase := ph\<rparr>)"
  proof -
    from that obtain x where x: "carries ph = Some x" "to_address n (x_email x)"
      by (auto simp: bound_for_iff)
    have "send_validate (k_now k) (wk_rid wk) (w_db (k_world k)) \<noteq> Inr (Go x)"
      using send_validate_Go [of "k_now k" "wk_rid wk" "w_db (k_world k)" x] x(2) sup
      by (auto simp: is_suppressed_sync_iff to_address_def)
    with eff x(1) have "carries (wk_phase wk) = Some x" unfolding phase_effect_def by (metis option.distinct(1) option.inject)
    with x(2) show ?thesis by (simp add: bound_for_iff)
  qed
  note bound = this
  let ?k = "k\<lparr>k_world := w, k_workers := before @ still_working (wk\<lparr>wk_phase := ph\<rparr>) @ after\<rparr>"
  have "wk_rid ` set (in_flight n ?k) \<subseteq> wk_rid ` set (in_flight n k)"
    using bound by (auto simp: in_flight_def ws split: if_splits)
  moreover have "\<exists>new. w_mail w = w_mail (k_world k) @ new \<and> fst ` set (mail_to n new) \<subseteq> wk_rid ` set (in_flight n k) \<and>
      length (mail_to n new) + length (in_flight n ?k) \<le> length (in_flight n k)"
  proof (cases "is_recording ph")
    case True
    with eff obtain x where x: "wk_phase wk = Submitting x"
      "w_mail w = w_mail (k_world k) @ [(wk_rid wk, send_message_of E x)]" by (auto simp: phase_effect_def)
    have "carries ph = None" using True by (cases ph) simp_all
    with x show ?thesis
      by (intro exI [of _ "[(wk_rid wk, send_message_of E x)]"])
        (auto simp: in_flight_def ws bound_for_iff still_working_def)
  next
    case False
    with eff bound show ?thesis
      by (intro exI [of _ "[]"]) (auto simp: phase_effect_def in_flight_def ws still_working_def)
  qed
  ultimately show ?thesis by (simp add: only_in_flight_def)
qed

lemma in_flight_step:
  assumes "cluster_step S e k k'" "n \<in> suppressed_set (w_db (k_world k))"
  shows "only_in_flight n k k'"
  using assms(1)
proof cases
  case (Start due_at rid r w)
  with assms(2) take_lock_effect [OF Start(5)] show ?thesis
    by (simp add: only_in_flight_def in_flight_def bound_for_iff)
next
  case (Work before wk after clash submit ph w)
  from phase_step_effect [OF _ Work(5)] Work(4) in_flight_work [OF Work(3) assms(2)] show ?thesis
    by (simp add: Work(2))
next
  case (Die before wk after)
  with assms(2) show ?thesis by (auto simp: only_in_flight_def in_flight_def)
next
  case (Tick t)
  with assms(2) show ?thesis by (simp add: only_in_flight_def in_flight_def)
next
  case (Background w)
  with assms(2) step_evolves [OF Background(3)] show ?thesis
    by (auto simp: only_in_flight_def in_flight_def evolves_def)
qed

lemma in_flight_run:
  assumes "(moves S P)\<^sup>*\<^sup>* k k'" "n \<in> suppressed_set (w_db (k_world k))"
  shows "only_in_flight n k k'"
  using assms(1)
proof (induction rule: rtranclp_induct)
  case base
  show ?case using assms(2) by (simp add: only_in_flight_def)
next
  case (step a b)
  then obtain e where "cluster_step S e a b" by (auto simp: moves_def)
  with step.IH show ?case using only_in_flight_trans in_flight_step only_in_flight_def by blast
qed

text \<open>
  C8: Once an address is suppressed, the messages it may still get are those of the workers that had
  validated it before, at most one each, however the workers and the rest of the system interleave,
  workers that die or outlive their lock included.
\<close>

theorem suppression_in_flight:
  assumes "(moves S (\<lambda>_ _. True))\<^sup>*\<^sup>* k k'" "n \<in> suppressed_set (w_db (k_world k))"
  shows "\<exists>new. w_mail (k_world k') = w_mail (k_world k) @ new \<and>
    length (filter (\<lambda>(i, m). to_address n (sm_to m)) new) \<le> length (in_flight n k) \<and>
    (\<forall>(i, m) \<in> set new. to_address n (sm_to m) \<longrightarrow> (\<exists>wk \<in> set (in_flight n k). wk_rid wk = i))"
proof -
  from in_flight_run [OF assms] obtain new where new: "w_mail (k_world k') = w_mail (k_world k) @ new"
    "fst ` set (mail_to n new) \<subseteq> wk_rid ` set (in_flight n k)" "length (mail_to n new) \<le> length (in_flight n k)"
    by (auto simp: only_in_flight_def)
  have sender: "\<exists>wk \<in> set (in_flight n k). wk_rid wk = fst im" if "im \<in> set new" "to_address n (sm_to (snd im))" for im
  proof -
    have "im \<in> set (mail_to n new)" using that by (simp add: mail_to_def split_def)
    with new(2) have "fst im \<in> wk_rid ` set (in_flight n k)" by blast
    then show ?thesis by (metis imageE)
  qed
  have "length (filter (\<lambda>(i, m). to_address n (sm_to m)) new) \<le> length (in_flight n k)"
    using new(3) by (simp only: mail_to_def)
  moreover have "\<forall>(i, m) \<in> set new. to_address n (sm_to m) \<longrightarrow> (\<exists>wk \<in> set (in_flight n k). wk_rid wk = i)"
    unfolding split_def using sender by blast
  ultimately show ?thesis using new(1) by blast
qed

section \<open>The atomic steps are runs of the cluster\<close>

text \<open>Every step of \<open>System\<close> but the send task is a background step: it leaves the mail and the locks.\<close>

lemma mx_not_lock [simp]: "lock_key i \<noteq> mx_key dmn" "mx_key dmn \<noteq> lock_key i"
  by (simp_all add: lock_key_def mx_key_def)

lemma domain_status_locks:
  "domain_status dns now dmn s = (res, s') \<Longrightarrow> same_keys (vc_redis s) (vc_redis s')"
  by (auto simp: domain_status_def redis_set_def same_keys_def same_locks_def Let_def
      split: option.splits if_splits prod.splits sum.splits)

lemma same_keys_trans: "same_keys a b \<Longrightarrow> same_keys b c \<Longrightarrow> same_keys a c"
  by (simp add: same_keys_def same_locks_def)

lemma resolve_all_locks: "resolve_all dns now dmns s = (res, s') \<Longrightarrow> same_keys (vc_redis s) (vc_redis s')"
proof (induction dmns arbitrary: s res s')
  case (Cons dmn dmns)
  obtain st s1 where one: "domain_status dns now dmn s = (st, s1)" by force
  show ?case
  proof (cases st)
    case Inl
    with Cons.prems one domain_status_locks [OF one] show ?thesis by simp
  next
    case (Inr v)
    obtain rest s2 where rest: "resolve_all dns now dmns s1 = (rest, s2)" by force
    with Cons.prems one Inr have "s' = s2" by (cases rest) simp_all
    with same_keys_trans [OF domain_status_locks [OF one] Cons.IH [OF rest]] show ?thesis by simp
  qed
qed simp

lemma provider_locks:
  "provider_verify_batch st ve dns now emails s = (res, s') \<Longrightarrow> same_keys (vc_redis s) (vc_redis s')"
  by (auto simp: provider_verify_batch_def external_verify_batch_def verify_batch_def
      dest: resolve_all_locks split: if_splits prod.splits sum.splits)

lemma verify_batches_locks:
  "verify_batches E now i m st rows p s = (e, p', s') \<Longrightarrow> same_keys (vc_redis s) (vc_redis s')"
proof (induction E now i m st rows p s rule: verify_batches.induct)
  case (1 E now i m st rows p s)
  let ?batch = "take (vv_batch E) rows"
  let ?call = "provider_verify_batch (vv_settings E) (vv_validator E) (vv_dns E) now (map snd ?batch) s"
  show ?case
  proof (cases "rows = [] \<or> vv_batch E = 0")
    case True
    with "1.prems" show ?thesis by (auto simp: verify_batches.simps [of E now i m st rows p s])
  next
    case False
    obtain res s1 where call: "?call = (res, s1)" by force
    have s1: "same_keys (vc_redis s) (vc_redis s1)" using call by (rule provider_locks)
    show ?thesis
    proof (cases res)
      case (Inl err)
      with False call "1.prems" s1 show ?thesis by (auto simp: verify_batches.simps [of E now i m st rows p s] Let_def)
    next
      case (Inr results)
      show ?thesis
      proof (cases "apply_results (result_map results) ?batch p")
        case (Inl err)
        with False call \<open>res = Inr results\<close> "1.prems" s1 show ?thesis
          by (simp add: verify_batches.simps [of E now i m st rows p s] Let_def)
      next
        case (Inr p1)
        with False call \<open>res = Inr results\<close> "1.prems" "1.IH" [OF False refl call [symmetric] \<open>res = Inr results\<close> Inr] s1
        show ?thesis by (auto simp: verify_batches.simps [of E now i m st rows p s] Let_def intro: same_keys_trans)
      qed
    qed
  qed
qed

lemma verify_list_locks: "verify_list E now i d r = (report, d', r') \<Longrightarrow> same_keys r r'"
  by (auto simp: verify_list_def new_cache_def Let_def dest!: verify_batches_locks split: option.splits prod.splits)

lemma repump_not_lock [simp]: "lock_key i \<noteq> repump_key c" "repump_key c \<noteq> lock_key i"
  by (simp_all add: lock_key_def repump_key_def)

lemma repump_one_locks: "same_keys (w_redis (snd av)) (w_redis (snd (repump_one now i av)))"
  by (cases av) (auto simp: repump_one_def enqueue_pending_def same_keys_def same_locks_def redis_set_nx_def Let_def
      split: prod.split option.split bool.split)

lemma repump_locks: "same_keys (w_redis w) (w_redis (snd (finalize_and_repump now w)))"
proof -
  have "same_keys (w_redis (snd av)) (w_redis (snd (fold (repump_one now) ids av)))" for ids av
  proof (induction ids arbitrary: av)
    case (Cons i ids)
    from same_keys_trans [OF repump_one_locks Cons.IH] show ?case by simp
  qed simp
  from this [of "(([], []), w)"] show ?thesis by (simp add: finalize_and_repump_def Let_def)
qed

lemma repump_mail: "w_mail (snd (finalize_and_repump now w)) = w_mail w"
proof -
  have one: "w_mail (snd (repump_one now i av)) = w_mail (snd av)" for i av
    by (cases av) (auto simp: repump_one_def enqueue_pending_def Let_def split: prod.split option.split bool.split)
  have "w_mail (snd (fold (repump_one now) ids av)) = w_mail (snd av)" for ids av
    by (induction ids arbitrary: av) (simp_all add: one)
  from this [of _ "(([], []), w)"] show ?thesis by (simp add: finalize_and_repump_def Let_def)
qed

lemma background_steps:
  assumes "sys_step S w w'"
  shows "w_mail w' = w_mail w \<and> same_keys (w_redis w) (w_redis w') \<or>
    (\<exists>submit clash now rid n. w' = snd (send_one ((y_env S)\<lparr>e_submit := submit, e_clash := clash\<rparr>) now rid n w))"
  using assms
proof cases
  case Send
  then show ?thesis by blast
next
  case Materialize
  then show ?thesis by (simp add: materialize_campaign_effect materialize_campaign_redis)
next
  case Dispatch
  then show ?thesis by (simp add: dispatch_due_campaigns_def Let_def)
next
  case (Recover now)
  then show ?thesis by (simp add: repump_locks repump_mail)
next
  case Verify
  then show ?thesis by (simp add: verify_list_locks)
qed simp_all

text \<open>A worker alone: its phases are steps of the cluster, and all of them together are \<open>send_one\<close>.\<close>

definition alone :: "instant \<Rightarrow> id \<Rightarrow> nat \<Rightarrow> instant \<Rightarrow> phase \<times> world \<Rightarrow> cluster" where
  "alone t rid n since pw = \<lparr>k_world = snd pw, k_now = t,
     k_workers = still_working \<lparr>wk_rid = rid, wk_retries = n, wk_since = since, wk_phase = fst pw\<rparr>\<rparr>"

lemma alone_step:
  assumes "phase_step ((y_env S)\<lparr>e_submit := submit, e_clash := \<lambda>_. None\<rparr>) t rid n ph w = pw" "\<not> is_finished ph"
  shows "cluster_step S EWork (alone t rid n since (ph, w)) (alone t rid n since pw)"
  using assms Work [of "alone t rid n since (ph, w)" "[]" "\<lparr>wk_rid = rid, wk_retries = n, wk_since = since, wk_phase = ph\<rparr>"
      "[]" "\<lambda>_. None", where S = S and submit = submit and ph = "fst pw" and w = "snd pw"]
  by (simp add: alone_def still_working_def)

lemma alone_run:
  assumes "\<And>i. P EWork (alone t rid n since
      (run_phases i ((y_env S)\<lparr>e_submit := submit, e_clash := \<lambda>_. None\<rparr>) t rid n ph w))"
  shows "(moves S P)\<^sup>*\<^sup>* (alone t rid n since (ph, w))
    (alone t rid n since (run_phases j ((y_env S)\<lparr>e_submit := submit, e_clash := \<lambda>_. None\<rparr>) t rid n ph w))"
  using assms
proof (induction j arbitrary: ph w)
  case (Suc j)
  show ?case
  proof (cases "is_finished ph")
    case True
    then show ?thesis by (cases ph) simp_all
  next
    case False
    let ?E = "(y_env S)\<lparr>e_submit := submit, e_clash := \<lambda>_. None\<rparr>"
    obtain ph1 w1 where step: "phase_step ?E t rid n ph w = (ph1, w1)" by force
    have next_ok: "P EWork (alone t rid n since (run_phases i ?E t rid n ph1 w1))" for i
      using Suc.prems [of "Suc i"] by (simp add: step)
    have "moves S P (alone t rid n since (ph, w)) (alone t rid n since (ph1, w1))"
      using alone_step [OF step False] next_ok [of 0] by (auto intro: movesI)
    with Suc.IH [OF next_ok] show ?thesis by (simp add: step)
  qed
qed simp

lemma alone_send:
  assumes "(due_at, SendTask rid n) \<in> set (w_queue w)" "due_at \<le> t"
    and "\<And>e pw. e \<in> {EStart, EWork} \<Longrightarrow> P e (alone t rid n t pw)"
  shows "(moves S P)\<^sup>*\<^sup>* \<lparr>k_world = w, k_now = t, k_workers = []\<rparr>
    \<lparr>k_world = snd (send_one ((y_env S)\<lparr>e_submit := submit, e_clash := \<lambda>_. None\<rparr>) t rid n w), k_now = t, k_workers = []\<rparr>"
proof (cases "take_lock t rid w")
  case None
  then show ?thesis by (auto simp: send_one_def take_lock_def split: prod.splits bool.splits)
next
  case (Some w1)
  let ?E = "(y_env S)\<lparr>e_submit := submit, e_clash := \<lambda>_. None\<rparr>"
  have whole: "run_phases 9 ?E t rid n Validating w1 = (Finished (fst (send_one ?E t rid n w)), snd (send_one ?E t rid n w))"
    using Some by (auto simp: send_one_def take_lock_def phases_body ends_def split: prod.splits bool.splits)
  have "cluster_step S EStart \<lparr>k_world = w, k_now = t, k_workers = []\<rparr> (alone t rid n t (Validating, w1))"
    using Start [of due_at rid n "\<lparr>k_world = w, k_now = t, k_workers = []\<rparr>" w1, where S = S] assms(1,2) Some
    by (simp add: alone_def still_working_def)
  from movesI [where P = P, OF this] assms(3) [of EStart "(Validating, w1)"] have "moves S P \<lparr>k_world = w, k_now = t, k_workers = []\<rparr> (alone t rid n t (Validating, w1))"
    by simp
  moreover have "alone t rid n t (run_phases 9 ?E t rid n Validating w1) =
      \<lparr>k_world = snd (send_one ?E t rid n w), k_now = t, k_workers = []\<rparr>"
    by (simp add: whole alone_def still_working_def)
  ultimately show ?thesis
    using alone_run [where P = P and S = S and submit = submit and ph = Validating and w = w1 and j = 9, OF assms(3)]
    by (auto intro: converse_rtranclp_into_rtranclp)
qed

section \<open>A run\<close>

text \<open>
  The campaign of \<open>System\<close>: a worker takes its recipient and validates it; the address is then
  suppressed from a form; the worker goes on, since nothing after the validation looks at the
  suppression list again.
\<close>

definition lone_cluster :: "world \<Rightarrow> worker list \<Rightarrow> cluster" where
  "lone_cluster w ws = \<lparr>k_world = w, k_now = 5, k_workers = ws\<rparr>"

definition small_worker :: "phase \<Rightarrow> worker" where
  "small_worker ph = \<lparr>wk_rid = 1, wk_retries = 0, wk_since = 5, wk_phase = ph\<rparr>"

definition locked_world :: world where
  "locked_world = materialized_world\<lparr>w_redis := snd (redis_set_nx 5 (lock_key 1) ''1'' 180 empty_redis)\<rparr>"

definition suppressed_world :: world where
  "suppressed_world = locked_world\<lparr>w_db := handle small_system 5 (SuppressAddress ''a@x.com'') (w_db locked_world)\<rparr>"

lemma small_env: "(y_env small_system)\<lparr>e_submit := e_submit demo_env, e_clash := \<lambda>_. None\<rparr> = demo_env"
  by (simp add: small_system_def demo_env_def)

text \<open>Steps of the rest of the system while nobody sends keep every condition on the workers.\<close>

lemma background_move:
  assumes "sys_step S w w'" "w_mail w' = w_mail w" "same_keys (w_redis w) (w_redis w')"
  shows "moves S prompt (lone_cluster w []) (lone_cluster w' [])"
proof -
  have "cluster_step S EOther (lone_cluster w []) (lone_cluster w' [])"
    using Background [of S "lone_cluster w []" w'] assms by (simp add: lone_cluster_def)
  then show ?thesis by (rule movesI) (simp add: prompt_def lone_cluster_def)
qed

lemma background_requests:
  "(moves S prompt)\<^sup>*\<^sup>* (lone_cluster w []) (lone_cluster (w\<lparr>w_db := fold (handle S now) rqs (w_db w)\<rparr>) [])"
proof (induction rqs arbitrary: w)
  case (Cons rq rqs)
  have "moves S prompt (lone_cluster w []) (lone_cluster (w\<lparr>w_db := handle S now rq (w_db w)\<rparr>) [])"
    by (rule background_move [OF sys_step.Request]) simp_all
  with Cons.IH [of "w\<lparr>w_db := handle S now rq (w_db w)\<rparr>"] show ?case by simp
qed simp

lemma materialized_run: "(moves small_system prompt)\<^sup>*\<^sup>* (initial_cluster 5) (lone_cluster materialized_world [])"
proof -
  have p: "(moves small_system prompt)\<^sup>*\<^sup>* (initial_cluster 5) (lone_cluster prepared_world [])"
    using background_requests [of small_system initial_world 0 small_requests]
    by (simp add: initial_cluster_def lone_cluster_def prepared_world_def prepared_db_def initial_world_def)
  have d: "moves small_system prompt (lone_cluster prepared_world []) (lone_cluster dispatched_world [])"
    unfolding dispatched_world_def
    by (rule background_move [OF sys_step.Dispatch]) (simp_all add: dispatch_due_campaigns_def Let_def)
  obtain res where res: "materialize_campaign 5 1 dispatched_world = Inr (res, materialized_world)" using materialized_ok by blast
  have "sys_step small_system dispatched_world materialized_world"
    by (rule Materialize [OF _ _ res, of 5]) (simp_all add: dispatched_queue)
  from background_move [OF this] have "moves small_system prompt (lone_cluster dispatched_world []) (lone_cluster materialized_world [])"
    by (simp add: materialize_campaign_effect [OF res] materialize_campaign_redis [OF res])
  with p d show ?thesis by simp
qed

lemma sent_run: "(moves small_system prompt)\<^sup>*\<^sup>* (initial_cluster 5) (lone_cluster sent_world [])"
proof -
  have q: "(5, SendTask 1 0) \<in> set (w_queue materialized_world)" by (simp add: materialized_queue)
  have "e \<in> {EStart, EWork} \<Longrightarrow> prompt e (alone 5 1 0 5 pw)" for e pw
    by (auto simp: prompt_def alone_def still_working_def seconds_def)
  with alone_send [OF q, where S = small_system and submit = "e_submit demo_env" and P = prompt and t = 5, unfolded small_env] materialized_run
  show ?thesis by (simp add: lone_cluster_def sent_world_def)
qed

theorem one_worker_one_message_witness:
  "\<exists>k. (moves small_system prompt)\<^sup>*\<^sup>* (initial_cluster 5) k \<and>
     w_mail (k_world k) = [(1, send_message_of demo_env small_ctx)] \<and>
     distinct (map wk_rid (k_workers k)) \<and> distinct (map fst (w_mail (k_world k)))"
  using one_worker_one_message [OF sent_run] sent_run sent_mail
  by (intro exI [of _ "lone_cluster sent_world []"]) (simp add: lone_cluster_def)

lemma locked_taken: "take_lock 5 1 materialized_world = Some locked_world"
  by (simp add: take_lock_def locked_world_def materialized_rest redis_set_nx_def empty_redis_def)

lemma validate_phase: "phase_step demo_env 5 1 0 Validating locked_world = (Pacing small_ctx, locked_world)"
  by (simp add: locked_world_def small_validate)

lemma start_step:
  "cluster_step small_system EStart (lone_cluster materialized_world []) (lone_cluster locked_world [small_worker Validating])"
proof -
  have q: "(5, SendTask 1 0) \<in> set (w_queue (k_world (lone_cluster materialized_world [])))"
    by (simp add: lone_cluster_def materialized_queue)
  with Start [OF q, of locked_world] locked_taken show ?thesis by (simp add: lone_cluster_def small_worker_def)
qed

lemma alone_small: "alone 5 1 0 5 (ph, w) = lone_cluster w (still_working (small_worker ph))"
  by (simp add: alone_def lone_cluster_def small_worker_def)

lemma validate_step:
  "cluster_step small_system EWork (lone_cluster locked_world [small_worker Validating])
     (lone_cluster locked_world [small_worker (Pacing small_ctx)])"
proof -
  from alone_step [where S = small_system and submit = "e_submit demo_env" and since = 5, unfolded small_env, OF validate_phase]
  show ?thesis by (simp add: alone_small) (simp add: still_working_def small_worker_def)
qed

lemma suppressed_now: "''a@x.com'' \<in> suppressed_set (w_db suppressed_world)"
proof -
  have "normalize_email (Some ''a@x.com'') = Some ''a@x.com''" by code_simp
  from suppress_only_effect [OF this] show ?thesis by (simp add: suppressed_world_def)
qed

lemma suppressed_later:
  "\<exists>w'. (moves small_system (\<lambda>_ _. True))\<^sup>*\<^sup>* (lone_cluster suppressed_world [small_worker (Pacing small_ctx)])
     (lone_cluster w' []) \<and> w_mail w' = [(1, send_message_of demo_env small_ctx)]"
proof -
  have r: "r_hashes (w_redis suppressed_world) = r_hashes empty_redis" "r_counters (w_redis suppressed_world) = r_counters empty_redis"
    by (simp_all add: suppressed_world_def locked_world_def)
  from small_pace [OF r] obtain r' where pace: "send_pace demo_env 5 small_ctx (w_redis suppressed_world) = Inr (Clear, r')" by blast
  let ?rest = "after_pace demo_env 5 1 0 small_ctx suppressed_world"
  have acc: "e_submit demo_env (send_message_of demo_env small_ctx) =
      Accepted \<lparr>sr_message_token = JStr ''tok'', sr_message_id = JNull, sr_raw = JNull\<rparr>" by (simp add: demo_env_def)
  have none: "w_mail suppressed_world = []" by (simp add: suppressed_world_def locked_world_def materialized_rest)
  have "w_mail (snd ?rest) = [(1, send_message_of demo_env small_ctx)]"
    by (simp add: after_pace_def pace send_submit_def acc none Let_def split: prod.split)
  then have mail: "w_mail (unlock 1 (snd ?rest)) = [(1, send_message_of demo_env small_ctx)]" by (simp add: unlock_def)
  have run: "run_phases 8 demo_env 5 1 0 (Pacing small_ctx) suppressed_world = (Finished (fst ?rest), unlock 1 (snd ?rest))"
    by (simp add: phases_pace ends_def)
  have "(moves small_system (\<lambda>_ _. True))\<^sup>*\<^sup>* (alone 5 1 0 5 (Pacing small_ctx, suppressed_world))
      (alone 5 1 0 5 (run_phases 8 demo_env 5 1 0 (Pacing small_ctx) suppressed_world))"
    using alone_run [where S = small_system and submit = "e_submit demo_env" and P = "\<lambda>_ _. True" and j = 8, unfolded small_env, OF TrueI] .
  with mail show ?thesis
    unfolding run alone_small
    by (intro exI [of _ "unlock 1 (snd ?rest)"]) (simp add: still_working_def small_worker_def)
qed

theorem suppression_in_flight_witness:
  "\<exists>k (k' :: cluster). w_mail (k_world k) = [] \<and> w_mail (k_world k') = [(1, send_message_of demo_env small_ctx)] \<and>
     ''a@x.com'' \<in> suppressed_set (w_db (k_world k)) \<and> in_flight ''a@x.com'' k = [small_worker (Pacing small_ctx)] \<and>
     (\<exists>new. w_mail (k_world k') = w_mail (k_world k) @ new \<and>
       length (filter (\<lambda>(i, m). to_address ''a@x.com'' (sm_to m)) new) \<le> length (in_flight ''a@x.com'' k))"
proof -
  let ?k = "lone_cluster suppressed_world [small_worker (Pacing small_ctx)]"
  obtain w' where run: "(moves small_system (\<lambda>_ _. True))\<^sup>*\<^sup>* ?k (lone_cluster w' [])"
    and mail: "w_mail w' = [(1, send_message_of demo_env small_ctx)]" using suppressed_later by blast
  have sup: "''a@x.com'' \<in> suppressed_set (w_db (k_world ?k))" using suppressed_now by (simp add: lone_cluster_def)
  have "to_address ''a@x.com'' (x_email small_ctx)" by code_simp
  then have fl: "in_flight ''a@x.com'' ?k = [small_worker (Pacing small_ctx)]"
    by (simp add: in_flight_def bound_for_def lone_cluster_def small_worker_def)
  have none: "w_mail (k_world ?k) = []"
    by (simp add: lone_cluster_def suppressed_world_def locked_world_def materialized_rest)
  have some: "w_mail (k_world (lone_cluster w' [])) = [(1, send_message_of demo_env small_ctx)]"
    by (simp add: lone_cluster_def mail)
  have part: "\<exists>new. w_mail (k_world (lone_cluster w' [])) = w_mail (k_world ?k) @ new \<and>
      length (filter (\<lambda>(i, m). to_address ''a@x.com'' (sm_to m)) new) \<le> length (in_flight ''a@x.com'' ?k)"
    using suppression_in_flight [OF run sup] by (elim exE conjE, intro exI conjI)
  show ?thesis
    by (rule exI [of _ ?k], rule exI [of _ "lone_cluster w' []"]) (intro conjI none some sup fl part)
qed

section \<open>The daily cap under concurrency\<close>

text \<open>
  The hard stop reads the counter of the day (\<open>TotalCap\<close>) several commands before the worker
  adds to it (\<open>CountTotal\<close>): workers that read it together all pass.  A worker owes a count from
  the check to the increment, and a message of its own is uncounted from the provider's acceptance to
  the increment; on one day the counter and what the workers owe pass the cap by less than the number
  of workers, and the messages sent are those counted and those uncounted.
\<close>

fun owed :: "phase \<Rightarrow> int" where
  "owed (Submitting x) = 1"
| "owed (Recording x token) = 1"
| "owed (CountPool x) = 1"
| "owed (CountTotal x) = 1"
| "owed _ = 0"

fun uncounted :: "phase \<Rightarrow> int" where
  "uncounted (Recording x token) = 1"
| "uncounted (CountPool x) = 1"
| "uncounted (CountTotal x) = 1"
| "uncounted _ = 0"

definition counted :: "cluster \<Rightarrow> int" where
  "counted k = global_sent_today (k_now k) (w_redis (k_world k))"

definition owed_total :: "worker list \<Rightarrow> int" where
  "owed_total ws = (\<Sum>wk\<leftarrow>ws. owed (wk_phase wk))"

definition uncounted_total :: "worker list \<Rightarrow> int" where
  "uncounted_total ws = (\<Sum>wk\<leftarrow>ws. uncounted (wk_phase wk))"

text \<open>One day, at most \<open>N\<close> workers, and a cap of at most \<open>C\<close> in every campaign being sent.\<close>

definition capped :: "int \<Rightarrow> nat \<Rightarrow> int \<Rightarrow> cluster \<Rightarrow> bool" where
  "capped C N D k \<longleftrightarrow> k_now k div days 1 = D \<and> length (k_workers k) \<le> N \<and>
     (\<forall>wk \<in> set (k_workers k). case carries (wk_phase wk) of None \<Rightarrow> True | Some x \<Rightarrow> x_warming_cap x \<le> C)"

text \<open>
  No worker dies with a message it has not counted, and the row of a recipient is not deleted while
  its message is being recorded (\<open>send_one\<close> returns without counting when it is).
\<close>

definition accounted :: "cluster_event \<Rightarrow> cluster \<Rightarrow> bool" where
  "accounted e k \<longleftrightarrow> (\<forall>wk. e = EDie wk \<longrightarrow> uncounted (wk_phase wk) = 0) \<and>
     (\<forall>wk \<in> set (k_workers k). is_recording (wk_phase wk) \<longrightarrow> get_recipient_row (wk_rid wk) (w_db (k_world k)) \<noteq> None)"

lemma owed_range: "0 \<le> owed ph" "owed ph \<le> 1" "uncounted ph \<le> owed ph"
  by (cases ph; simp)+

lemma owed_total_simps [simp]:
  "owed_total (a @ b) = owed_total a + owed_total b" "owed_total (wk # a) = owed (wk_phase wk) + owed_total a"
  "owed_total [] = 0"
  "uncounted_total (a @ b) = uncounted_total a + uncounted_total b"
  "uncounted_total (wk # a) = uncounted (wk_phase wk) + uncounted_total a" "uncounted_total [] = 0"
  by (simp_all add: owed_total_def uncounted_total_def)

lemma owed_total_range: "owed_total ws \<le> int (length ws)" "uncounted_total ws \<le> owed_total ws"
proof (induction ws)
  case (Cons wk ws)
  {
    case 1
    show ?case using Cons(1) owed_range(2) [of "wk_phase wk"] by simp
  next
    case 2
    show ?case using Cons(2) owed_range(3) [of "wk_phase wk"] by simp
  }
qed simp_all

lemma owed_still [simp]:
  "owed_total (still_working wk) = owed (wk_phase wk)" "uncounted_total (still_working wk) = uncounted (wk_phase wk)"
  by (cases "wk_phase wk"; simp add: still_working_def)+

lemma keys_counters: "\<forall>i s. f i = Some s \<longrightarrow> same_keys r s \<Longrightarrow> \<forall>i s. f i = Some s \<longrightarrow> r_counters s = r_counters r"
  by (simp add: same_keys_def)

text \<open>One phase: what is counted and owed stays or falls, except where the check passes.\<close>

lemma phase_counts:
  assumes keys: "\<forall>i s. e_clash E i = Some s \<longrightarrow> same_keys (w_redis w) s"
    and step: "phase_step E now rid n ph w = (ph', w')"
  shows "global_sent_today now (w_redis w') + owed ph' \<le> global_sent_today now (w_redis w) + owed ph \<or>
    (\<exists>x. ph = TotalCap x \<and> global_sent_today now (w_redis w) < x_warming_cap x \<and>
       global_sent_today now (w_redis w') = global_sent_today now (w_redis w))"
proof (cases ph)
  case (Pacing x)
  with step same_counters(1) [OF acquire_counters [OF _ keys_counters [OF keys]], of _ _ _ _ _ now] show ?thesis
    by (auto split: sum.splits prod.splits if_splits)
next
  case (Recording x token)
  with step show ?thesis by (auto split: prod.splits if_splits)
next
  case (Submitting x)
  with step show ?thesis
    by (auto simp: Let_def dest: send_transient_frame split: send_outcome.splits prod.splits)
qed (use step in \<open>auto simp: Let_def pool_send_keeps global_send_adds unlock_def
    split: sum.splits validated.splits if_splits\<close>)

text \<open>One phase: the mail grows by what is counted and uncounted, whatever the phase.\<close>

definition tallied :: "int \<Rightarrow> world \<Rightarrow> int \<Rightarrow> int \<Rightarrow> world \<Rightarrow> int \<Rightarrow> bool" where
  "tallied c w u c' w' u' \<longleftrightarrow> (\<exists>new. w_mail w' = w_mail w @ new \<and> int (length new) = (c' + u') - (c + u))"

lemma tallied_same: "w_mail w' = w_mail w \<Longrightarrow> c' + u' = c + u \<Longrightarrow> tallied c w u c' w' u'"
  by (simp add: tallied_def)

lemma phase_tally:
  assumes keys: "\<forall>i s. e_clash E i = Some s \<longrightarrow> same_keys (w_redis w) s"
    and step: "phase_step E now rid n ph w = (ph', w')"
    and row: "is_recording ph \<Longrightarrow> get_recipient_row rid (w_db w) \<noteq> None"
  shows "tallied (global_sent_today now (w_redis w)) w (uncounted ph) (global_sent_today now (w_redis w')) w' (uncounted ph')"
proof (cases ph)
  case (Pacing x)
  with step same_counters(1) [OF acquire_counters [OF _ keys_counters [OF keys]], of _ _ _ _ _ now] show ?thesis
    by (auto intro!: tallied_same split: sum.splits prod.splits if_splits)
next
  case (Recording x token)
  obtain status d where rec: "send_record E now rid x token (w_db w) = (status, d)" by force
  with row Recording have "status = ''sent''" by (auto simp: send_record_def split: option.splits)
  with step Recording rec show ?thesis by (auto intro!: tallied_same)
next
  case (Submitting x)
  show ?thesis
  proof (cases "e_submit E (send_message_of E x)")
    case (Accepted res)
    with Submitting step show ?thesis by (auto simp: Let_def tallied_def)
  next
    case (Transient exc)
    obtain r v where tr: "send_transient E now rid n exc w = (r, v)" by force
    with Transient Submitting step send_transient_frame [OF tr] show ?thesis
      by (auto simp: Let_def intro!: tallied_same)
  qed (use Submitting step in \<open>auto simp: Let_def intro!: tallied_same\<close>)
qed (use step in \<open>auto simp: Let_def pool_send_keeps global_send_adds unlock_def intro!: tallied_same
    split: sum.splits validated.splits if_splits\<close>)

text \<open>The counter of the day outlives the day, whoever moves it.\<close>

definition lasting :: "cluster \<Rightarrow> bool" where
  "lasting k \<longleftrightarrow> counter_ok (k_now k) (global_key (k_now k)) (w_redis (k_world k))"

lemma counter_ok_delete [simp]: "counter_ok now key (redis_delete k r) = counter_ok now key r"
  by (rule same_counters(3)) simp

lemma phase_lasting:
  assumes keys: "\<forall>i s. e_clash E i = Some s \<longrightarrow> same_keys (w_redis w) s"
    and step: "phase_step E now rid n ph w = (ph', w')"
    and ok: "counter_ok now (global_key now) (w_redis w)"
  shows "counter_ok now (global_key now) (w_redis w')"
proof (cases ph)
  case (Pacing x)
  with step ok same_counters(3) [OF acquire_counters [OF _ keys_counters [OF keys]], of _ _ _ _ _ now] show ?thesis
    by (auto split: sum.splits prod.splits if_splits)
next
  case (Recording x token)
  with step ok show ?thesis by (auto split: prod.splits if_splits)
next
  case (Submitting x)
  with step ok show ?thesis
    by (auto simp: Let_def dest: send_transient_frame split: send_outcome.splits prod.splits)
next
  case (CountPool x)
  with step ok show ?thesis by (auto simp: record_daily_send_def counter_ok_def split: option.splits)
next
  case (CountTotal x)
  with step count_send_counter(1) [OF ok, of now] show ?thesis by (auto simp: record_global_send_def same_day_def)
qed (use step ok in \<open>auto simp: Let_def unlock_def split: sum.splits validated.splits if_splits\<close>)

lemma counter_later:
  assumes "counter_ok t key r" "same_day t t'" "t \<le> t'"
  shows "redis_get_counter t' key r = redis_get_counter t key r"
proof (cases "live t (r_counters r key)")
  case None
  then have "live t' (r_counters r key) = None"
    using assms(3) by (cases "(t, r_counters r key)" rule: live.cases) (auto split: if_splits)
  with None show ?thesis by (simp add: redis_get_counter_def)
next
  case (Some n)
  with assms(1) have "outlives_day t (live_ttl t (r_counters r key))" by (simp add: counter_ok_def)
  from live_later(1) [OF this assms(2) Some] Some show ?thesis by (simp add: redis_get_counter_def)
qed

text \<open>What every step of such a run keeps, from the cluster it starts in.\<close>

definition within_cap :: "int \<Rightarrow> nat \<Rightarrow> cluster \<Rightarrow> bool" where
  "within_cap C N k \<longleftrightarrow> lasting k \<and> counted k + owed_total (k_workers k) \<le> C + int N - 1"

definition cluster_tally :: "cluster \<Rightarrow> cluster \<Rightarrow> bool" where
  "cluster_tally k k' \<longleftrightarrow>
     tallied (counted k) (k_world k) (uncounted_total (k_workers k)) (counted k') (k_world k') (uncounted_total (k_workers k'))"

lemma cluster_tally_trans: "cluster_tally a b \<Longrightarrow> cluster_tally b c \<Longrightarrow> cluster_tally a c"
  unfolding cluster_tally_def tallied_def by fastforce

lemma same_counted:
  assumes "r_counters (w_redis w) = r_counters (w_redis (k_world k))"
  shows "counted (k\<lparr>k_world := w\<rparr>) = counted k" "lasting (k\<lparr>k_world := w\<rparr>) = lasting k"
  using same_counters(1,3) [OF assms] by (simp_all add: counted_def lasting_def)

lemma counted_workers [simp]:
  "counted (k\<lparr>k_workers := ws\<rparr>) = counted k" "lasting (k\<lparr>k_workers := ws\<rparr>) = lasting k"
  "counted (k\<lparr>k_world := w, k_workers := ws\<rparr>) = counted (k\<lparr>k_world := w\<rparr>)"
  "lasting (k\<lparr>k_world := w, k_workers := ws\<rparr>) = lasting (k\<lparr>k_world := w\<rparr>)"
  by (simp_all add: counted_def lasting_def)

lemma cap_work:
  assumes ws: "k_workers k = before @ wk # after"
    and keys: "\<forall>i r. clash i = Some r \<longrightarrow> same_keys (w_redis (k_world k)) r"
    and step: "phase_step ((y_env S)\<lparr>e_submit := submit, e_clash := clash\<rparr>) (k_now k) (wk_rid wk) (wk_retries wk)
      (wk_phase wk) (k_world k) = (ph, w)"
    and k': "k' = k\<lparr>k_world := w, k_workers := before @ still_working (wk\<lparr>wk_phase := ph\<rparr>) @ after\<rparr>"
    and caps: "capped C N D k" and acc: "accounted e k" and ok: "within_cap C N k"
  shows "within_cap C N k' \<and> cluster_tally k k'"
proof -
  let ?E = "(y_env S)\<lparr>e_submit := submit, e_clash := clash\<rparr>"
  have clash: "\<forall>i s. e_clash ?E i = Some s \<longrightarrow> same_keys (w_redis (k_world k)) s" using keys by simp
  have "lasting k'" using phase_lasting [OF clash step] ok by (simp add: k' lasting_def within_cap_def)
  moreover from phase_counts [OF clash step] have "counted k' + owed_total (k_workers k') \<le> C + int N - 1"
  proof
    assume "global_sent_today (k_now k) (w_redis w) + owed ph \<le> global_sent_today (k_now k) (w_redis (k_world k)) + owed (wk_phase wk)"
    with ok show ?thesis by (simp add: k' ws counted_def within_cap_def)
  next
    assume "\<exists>x. wk_phase wk = TotalCap x \<and> global_sent_today (k_now k) (w_redis (k_world k)) < x_warming_cap x \<and>
      global_sent_today (k_now k) (w_redis w) = global_sent_today (k_now k) (w_redis (k_world k))"
    then obtain x where x: "wk_phase wk = TotalCap x" "counted k < x_warming_cap x" "counted k' = counted k"
      by (auto simp: k' counted_def)
    from caps x(1) have "x_warming_cap x \<le> C" "length before + length after + 1 \<le> N" by (simp_all add: capped_def ws)
    with x(2,3) owed_total_range(1) [of before] owed_total_range(1) [of after] owed_range(2) [of ph] show ?thesis
      by (simp add: k')
  qed
  moreover have "is_recording (wk_phase wk) \<Longrightarrow> get_recipient_row (wk_rid wk) (w_db (k_world k)) \<noteq> None"
    using acc by (simp add: accounted_def ws)
  from phase_tally [OF clash step this] have "cluster_tally k k'"
    by (auto simp: cluster_tally_def tallied_def counted_def k' ws)
  ultimately show ?thesis by (simp add: within_cap_def)
qed

lemma overshoot_step:
  assumes step: "cluster_step S e k k'" and event: "accounted e k'" "accounted e' k"
    and caps: "capped C N D k" "capped C N D k'" and ok: "within_cap C N k"
  shows "within_cap C N k' \<and> cluster_tally k k'"
  using step
proof cases
  case (Start due_at rid n w)
  have counters: "r_counters (w_redis w) = r_counters (w_redis (k_world k))" "w_mail w = w_mail (k_world k)"
    using Start(5) by (auto simp: take_lock_def redis_set_nx_def split: option.splits)
  with ok show ?thesis
    by (simp add: Start(2) within_cap_def cluster_tally_def tallied_def same_counted [OF counters(1)])
next
  case (Work before wk after clash submit ph w)
  show ?thesis using cap_work [OF Work(3,4,5,2) caps(1) event(2) ok] .
next
  case (Die before wk after)
  with event(1) have "uncounted (wk_phase wk) = 0" by (simp add: accounted_def)
  with ok owed_range(1) [of "wk_phase wk"] show ?thesis by (simp add: Die within_cap_def cluster_tally_def tallied_def)
next
  case (Tick t)
  from caps have day: "same_day (k_now k) t" by (simp add: capped_def same_day_def Tick(2))
  have key: "global_key t = global_key (k_now k)" using same_day_keys [OF day] by simp
  have "counted k' = counted k"
    using counter_later [OF _ day Tick(3), of "global_key (k_now k)" "w_redis (k_world k)"] ok
    by (simp add: counted_def global_sent_today_def key Tick(2) within_cap_def lasting_def)
  moreover have "lasting k'"
    using counter_ok_later [OF _ day Tick(3), of "global_key (k_now k)" "w_redis (k_world k)"] ok
    by (simp add: key Tick(2) within_cap_def lasting_def)
  ultimately show ?thesis using ok by (simp add: Tick(2) within_cap_def cluster_tally_def tallied_def)
next
  case (Background w)
  note counters = same_counted [OF same_keysD(2) [OF Background(5)]]
  with ok Background(4) show ?thesis by (simp add: Background(2) counters within_cap_def cluster_tally_def tallied_def)
qed

text \<open>
  C9: Under concurrency the messages of a day pass the hard stop by less than the number of workers.
  In a run within one UTC day that starts with idle workers, where the campaigns being sent have a cap
  of at most C and there are never more than N workers, the messages counted before and the messages
  sent are together at most C + N - 1, provided no worker dies with a message it has not counted and
  no recipient row is deleted while its message is being recorded.
\<close>

theorem warming_cap_overshoot:
  assumes "(moves S (\<lambda>e b. accounted e b \<and> capped C N D b))\<^sup>*\<^sup>* k k'"
    and "k_workers k = []" "k_now k div days 1 = D" "counter_ok (k_now k) (global_key (k_now k)) (w_redis (k_world k))"
    and "global_sent_today (k_now k) (w_redis (k_world k)) \<le> C" "1 \<le> N"
  shows "\<exists>new. w_mail (k_world k') = w_mail (k_world k) @ new \<and>
    global_sent_today (k_now k) (w_redis (k_world k)) + int (length new) \<le> C + int N - 1"
proof -
  have start: "capped C N D k" "accounted EOther k" "within_cap C N k"
    using assms(2-6) by (simp_all add: capped_def accounted_def within_cap_def lasting_def counted_def)
  from assms(1) have "capped C N D k' \<and> (\<exists>e. accounted e k') \<and> within_cap C N k' \<and> cluster_tally k k'"
  proof (induction rule: rtranclp_induct)
    case base
    show ?case using start by (auto simp: cluster_tally_def tallied_def)
  next
    case (step a b)
    then obtain e e' where "cluster_step S e a b" "accounted e b" "capped C N D b" "accounted e' a"
      by (auto simp: moves_def)
    with step.IH overshoot_step show ?case by (meson cluster_tally_trans)
  qed
  then show ?thesis
    using owed_total_range(2) [of "k_workers k'"] assms(2)
    by (auto simp: cluster_tally_def tallied_def within_cap_def counted_def)
qed

text \<open>The run of one worker that sends its message keeps the conditions.\<close>

definition on_small :: "phase \<times> world \<Rightarrow> bool" where
  "on_small pw \<longleftrightarrow> fst pw \<noteq> Validating \<and> (carries (fst pw) = None \<or> carries (fst pw) = Some small_ctx) \<and>
     get_recipient_row 1 (w_db (snd pw)) \<noteq> None"

lemma settles_row: "settles rid d d' \<Longrightarrow> get_recipient_row i d \<noteq> None \<Longrightarrow> get_recipient_row i d' \<noteq> None"
  by (auto simp: settles_def settled_recipient)

lemma phase_moves_on: "phase_step E now rid n ph w = (ph', w') \<Longrightarrow> ph' \<noteq> Validating"
  by (cases ph) (auto simp: Let_def split: sum.splits validated.splits prod.splits if_splits send_outcome.splits)

lemma on_small_run: "on_small (ph, w) \<Longrightarrow> on_small (run_phases i demo_env 5 1 0 ph w)"
proof (induction i arbitrary: ph w)
  case (Suc i)
  obtain ph1 w1 where step: "phase_step demo_env 5 1 0 ph w = (ph1, w1)" by force
  have "\<forall>i s. e_clash demo_env i = Some s \<longrightarrow> same_keys (w_redis w) s" by (simp add: demo_env_def)
  from phase_step_effect [OF this step] phase_moves_on [OF step] Suc.prems have "on_small (ph1, w1)"
    by (auto simp: on_small_def phase_effect_def dest: settles_row)
  from Suc.IH [OF this] show ?case by (simp add: step)
qed simp

lemma on_small_conditions:
  "on_small pw \<Longrightarrow> accounted EWork (alone 5 1 0 5 pw) \<and> capped 2000 1 0 (alone 5 1 0 5 pw)"
  by (auto simp: on_small_def accounted_def capped_def alone_def days_eq still_working_def small_ctx_def demo_ctx_def)

lemma capped_run:
  "\<exists>w'. (moves small_system (\<lambda>e b. accounted e b \<and> capped 2000 1 0 b))\<^sup>*\<^sup>* (lone_cluster materialized_world []) (lone_cluster w' []) \<and>
     w_mail w' = [(1, send_message_of demo_env small_ctx)]"
proof -
  let ?P = "\<lambda>e b. accounted e b \<and> capped 2000 1 0 b"
  have row: "get_recipient_row 1 (w_db locked_world) \<noteq> None" using materialized_row by (auto simp: locked_world_def)
  have "?P EStart (lone_cluster locked_world [small_worker Validating])"
    by (simp add: accounted_def capped_def lone_cluster_def small_worker_def days_eq)
  from movesI [where P = ?P, OF start_step this]
  have one: "moves small_system ?P (lone_cluster materialized_world []) (lone_cluster locked_world [small_worker Validating])" .
  have small: "on_small (Pacing small_ctx, locked_world)" using row by (simp add: on_small_def)
  have pacing: "alone 5 1 0 5 (Pacing small_ctx, locked_world) = lone_cluster locked_world [small_worker (Pacing small_ctx)]"
    by (simp add: alone_small still_working_def small_worker_def)
  from movesI [where P = ?P, OF validate_step] on_small_conditions [OF small]
  have two: "moves small_system ?P (lone_cluster locked_world [small_worker Validating]) (alone 5 1 0 5 (Pacing small_ctx, locked_world))"
    by (simp add: pacing)
  have whole: "run_phases 9 demo_env 5 1 0 Validating locked_world = run_phases 8 demo_env 5 1 0 (Pacing small_ctx) locked_world"
    using validate_phase by (simp add: run_phases_step [of 9, simplified])
  have "run_phases 9 demo_env 5 1 0 Validating locked_world = (Finished (fst (send_one demo_env 5 1 0 materialized_world)), sent_world)"
    using locked_taken by (auto simp: sent_world_def send_one_def take_lock_def phases_body ends_def split: prod.splits bool.splits)
  then have last: "alone 5 1 0 5 (run_phases 8 demo_env 5 1 0 (Pacing small_ctx) locked_world) = lone_cluster sent_world []"
    by (simp only: whole [symmetric] alone_small) (simp add: still_working_def small_worker_def)
  from alone_run [where P = ?P and S = small_system and submit = "e_submit demo_env" and ph = "Pacing small_ctx"
      and w = locked_world and j = 8 and t = 5 and rid = 1 and n = 0 and since = 5, unfolded small_env,
      OF on_small_conditions [OF on_small_run [OF small]]]
  have three: "(moves small_system ?P)\<^sup>*\<^sup>* (alone 5 1 0 5 (Pacing small_ctx, locked_world)) (lone_cluster sent_world [])"
    unfolding last .
  show ?thesis using one two three sent_mail by (blast intro: converse_rtranclp_into_rtranclp)
qed

theorem warming_cap_overshoot_witness:
  "\<exists>w'. w_mail w' = [(1, send_message_of demo_env small_ctx)] \<and>
     (moves small_system (\<lambda>e b. accounted e b \<and> capped 2000 1 0 b))\<^sup>*\<^sup>* (lone_cluster materialized_world []) (lone_cluster w' []) \<and>
     int (length (w_mail w')) \<le> 2000 + int 1 - 1"
proof -
  obtain w' where run: "(moves small_system (\<lambda>e b. accounted e b \<and> capped 2000 1 0 b))\<^sup>*\<^sup>* (lone_cluster materialized_world []) (lone_cluster w' [])"
    and mail: "w_mail w' = [(1, send_message_of demo_env small_ctx)]" using capped_run by blast
  let ?k = "lone_cluster materialized_world []"
  have k: "k_workers ?k = []" "k_now ?k div days 1 = 0" "w_mail (k_world ?k) = []"
    by (simp_all add: lone_cluster_def materialized_rest days_eq)
  have none: "global_sent_today (k_now ?k) (w_redis (k_world ?k)) = 0"
    and lasts: "counter_ok (k_now ?k) (global_key (k_now ?k)) (w_redis (k_world ?k))"
    by (simp_all add: counter_ok_def global_sent_today_def redis_get_counter_def empty_redis_def lone_cluster_def materialized_rest)
  from warming_cap_overshoot [OF run k(1,2) lasts] none have "int (length (w_mail w')) \<le> 2000 + int 1 - 1"
    by (auto simp: k(3)) (simp add: lone_cluster_def)
  with run mail show ?thesis by blast
qed

section \<open>What the lock does not give\<close>

lemma clear_phases:
  assumes "send_pace E now x (w_redis w) = Inr (Clear, r)" "e_submit E (send_message_of E x) = Accepted res"
  shows "run_phases 4 E now rid n (Pacing x) w =
    (Recording x (sr_message_token res), w\<lparr>w_redis := r, w_mail := w_mail w @ [(rid, send_message_of E x)]\<rparr>)"
  using assms by (auto simp: numeral_eq_Suc send_pace_def and_then_Inr_iff Let_def split: if_splits prod.splits)

definition killed_world :: world where
  "killed_world = send_killed demo_env 5 1 materialized_world"

lemma moves_mono: "(moves S P)\<^sup>*\<^sup>* a b \<Longrightarrow> (moves S (\<lambda>_ _. True))\<^sup>*\<^sup>* a b"
  by (rule rtranclp_mono [THEN predicate2D]) (auto simp: moves_def)

lemma killed_run:
  "\<exists>token. run_phases 4 demo_env 5 1 0 (Pacing small_ctx) locked_world = (Recording small_ctx token, killed_world)"
proof -
  obtain r0 where lock: "redis_set_nx 5 (lock_key 1) ''1'' 180 empty_redis = (True, r0)"
    by (simp add: redis_set_nx_def empty_redis_def)
  have r0: "w_redis locked_world = r0" "r_hashes r0 = r_hashes empty_redis" "r_counters r0 = r_counters empty_redis"
    using lock set_nx_frame [of 5 "lock_key 1" "''1''" 180 empty_redis] by (simp_all add: locked_world_def)
  from small_pace [OF r0(2,3)] obtain r where pace: "send_pace demo_env 5 small_ctx r0 = Inr (Clear, r)" by blast
  have acc: "e_submit demo_env (send_message_of demo_env small_ctx) =
      Accepted \<lparr>sr_message_token = JStr ''tok'', sr_message_id = JNull, sr_raw = JNull\<rparr>" by (simp add: demo_env_def)
  have killed: "killed_world = locked_world\<lparr>w_redis := r, w_mail := w_mail locked_world @ [(1, send_message_of demo_env small_ctx)]\<rparr>"
    by (simp add: killed_world_def send_killed_def materialized_rest lock small_validate pace acc locked_world_def)
  show ?thesis using clear_phases [where w = locked_world, unfolded r0(1), OF pace acc, of 1 0] by (auto simp: killed)
qed

text \<open>
  Without the condition on deaths a recipient may get two messages: a worker dies between the
  provider's acceptance and its record, the lock expires, and the task is delivered again.
\<close>

lemma unrecorded_death_sends_twice:
  "\<exists>k. (moves small_system (\<lambda>_ _. True))\<^sup>*\<^sup>* (initial_cluster 5) k \<and> map fst (w_mail (k_world k)) = [1, 1]"
proof -
  let ?P = "\<lambda>_ _. True" and ?dead = "\<lambda>t. \<lparr>k_world = killed_world, k_now = t, k_workers = []\<rparr>"
  obtain token where run: "run_phases 4 demo_env 5 1 0 (Pacing small_ctx) locked_world = (Recording small_ctx token, killed_world)"
    using killed_run by blast
  let ?sending = "alone 5 1 0 5 (Recording small_ctx token, killed_world)"
  have start: "(moves small_system ?P)\<^sup>*\<^sup>* (initial_cluster 5) (lone_cluster materialized_world [])"
    by (rule moves_mono [OF materialized_run])
  have steps: "moves small_system ?P (lone_cluster materialized_world []) (lone_cluster locked_world [small_worker Validating])"
    "moves small_system ?P (lone_cluster locked_world [small_worker Validating]) (lone_cluster locked_world [small_worker (Pacing small_ctx)])"
    using movesI [where P = ?P, OF start_step] movesI [where P = ?P, OF validate_step] by simp_all
  have pacing: "alone 5 1 0 5 (Pacing small_ctx, locked_world) = lone_cluster locked_world [small_worker (Pacing small_ctx)]"
    by (simp add: alone_small still_working_def small_worker_def)
  have sending: "(moves small_system ?P)\<^sup>*\<^sup>* (lone_cluster locked_world [small_worker (Pacing small_ctx)]) ?sending"
    using alone_run [where P = ?P and S = small_system and submit = "e_submit demo_env" and ph = "Pacing small_ctx"
      and w = locked_world and j = 4 and t = 5 and rid = 1 and n = 0 and since = 5, unfolded small_env run pacing, OF TrueI] .
  have "cluster_step small_system (EDie \<lparr>wk_rid = 1, wk_retries = 0, wk_since = 5, wk_phase = Recording small_ctx token\<rparr>) ?sending (?dead 5)"
    using Die [of ?sending "[]" "\<lparr>wk_rid = 1, wk_retries = 0, wk_since = 5, wk_phase = Recording small_ctx token\<rparr>" "[]"]
    by (simp add: alone_def still_working_def)
  from movesI [where P = ?P, OF this] have death: "moves small_system ?P ?sending (?dead 5)" by simp
  have "cluster_step small_system ETick (?dead 5) (?dead redelivery_time)"
    using Tick [of "?dead 5" redelivery_time] by (simp add: redelivery_time_def seconds_def)
  from movesI [where P = ?P, OF this] have wait: "moves small_system ?P (?dead 5) (?dead redelivery_time)" by simp
  have q: "(5, SendTask 1 0) \<in> set (w_queue killed_world)"
    using materialized_queue by (auto simp: killed_world_def send_killed_def split: prod.split bool.split sum.split validated.split paced.split send_outcome.split)
  have again: "(moves small_system ?P)\<^sup>*\<^sup>* (?dead redelivery_time)
      \<lparr>k_world = snd (send_one demo_env redelivery_time 1 0 killed_world), k_now = redelivery_time, k_workers = []\<rparr>"
    using alone_send [OF q, where S = small_system and submit = "e_submit demo_env" and P = ?P and t = redelivery_time, unfolded small_env]
    by (simp add: redelivery_time_def seconds_def)
  have "(moves small_system ?P)\<^sup>*\<^sup>* (initial_cluster 5)
      \<lparr>k_world = snd (send_one demo_env redelivery_time 1 0 killed_world), k_now = redelivery_time, k_workers = []\<rparr>"
    by (rule rtranclp_trans [OF start converse_rtranclp_into_rtranclp [OF steps(1) converse_rtranclp_into_rtranclp [OF steps(2)
      rtranclp_trans [OF sending converse_rtranclp_into_rtranclp [OF death converse_rtranclp_into_rtranclp [OF wait again]]]]]])
  then show ?thesis using killed_worker_sends_twice by (intro exI conjI) (assumption, simp add: killed_world_def)
qed

text \<open>
  The release at the end of a task (\<open>redis.delete(lock_key)\<close>) does not look at who holds the
  lock: a worker that outlived its 180 seconds frees the lock of the worker that took it next,
  and a third may start beside it.
\<close>

lemma release_frees_any_holder: "take_lock t rid (snd (phase_step E now rid n (Releasing res) w)) \<noteq> None"
  by (simp add: take_lock_def unlock_def redis_set_nx_def)

end
