(* ===== verification/Sessions.thy ===== *)
theory Sessions
  imports System
begin

text \<open>
  The database sessions (\<open>app/db.py\<close>): a session works on a view of the committed database and
  makes it the committed one at a commit.  \<open>sync_session\<close> commits when the task's block ends and
  rolls back when it raises; \<open>get_db\<close>, the dependency of the routes, only rolls back, so that
  what a route does not commit is lost.  The other theories write an operation as a function
  that returns the new database or an exception; the lemmas show that this is what the two
  kinds of session make of it.  \<open>reject\<close> is the database's answer to a commit (a constraint that
  fails), and the isolation of sessions from each other is the database's.
\<close>

section \<open>Sessions\<close>

record session =
  ss_committed :: db
  ss_working :: db

definition open_session :: "db \<Rightarrow> session" where
  "open_session d = \<lparr>ss_committed = d, ss_working = d\<rparr>"

definition commit_session :: "(db \<Rightarrow> exn option) \<Rightarrow> session \<Rightarrow> exn + session" where
  "commit_session reject s =
     (case reject (ss_working s) of
        Some e \<Rightarrow> Inl e
      | None \<Rightarrow> Inr (s\<lparr>ss_committed := ss_working s\<rparr>))"

definition rollback_session :: "session \<Rightarrow> session" where
  "rollback_session s = s\<lparr>ss_working := ss_committed s\<rparr>"

type_synonym 'a body = "session \<Rightarrow> (exn + 'a) \<times> session"

definition sync_session :: "(db \<Rightarrow> exn option) \<Rightarrow> 'a body \<Rightarrow> db \<Rightarrow> (exn + 'a) \<times> db" where
  "sync_session reject body d =
     (case body (open_session d) of
        (Inl e, s) \<Rightarrow> (Inl e, ss_committed (rollback_session s))
      | (Inr x, s) \<Rightarrow>
          (case commit_session reject s of
             Inl e \<Rightarrow> (Inl e, ss_committed (rollback_session s))
           | Inr s' \<Rightarrow> (Inr x, ss_committed s')))"

definition get_db :: "'a body \<Rightarrow> db \<Rightarrow> (exn + 'a) \<times> db" where
  "get_db body d =
     (case body (open_session d) of
        (Inl e, s) \<Rightarrow> (Inl e, ss_committed (rollback_session s))
      | (Inr x, s) \<Rightarrow> (Inr x, ss_committed s))"

section \<open>Operations in a session\<close>

text \<open>An operation of the model works on the view; a route may commit after it.\<close>

definition operate :: "(db \<Rightarrow> exn + 'a \<times> db) \<Rightarrow> 'a body" where
  "operate f s =
     (case f (ss_working s) of
        Inl e \<Rightarrow> (Inl e, s)
      | Inr (x, d) \<Rightarrow> (Inr x, s\<lparr>ss_working := d\<rparr>))"

definition then_commit :: "(db \<Rightarrow> exn option) \<Rightarrow> 'a body \<Rightarrow> 'a body" where
  "then_commit reject body s =
     (case body s of
        (Inl e, s1) \<Rightarrow> (Inl e, s1)
      | (Inr x, s1) \<Rightarrow>
          (case commit_session reject s1 of Inl e \<Rightarrow> (Inl e, s1) | Inr s2 \<Rightarrow> (Inr x, s2)))"

text \<open>A body that leaves the commit to its session.\<close>

definition uncommitting :: "'a body \<Rightarrow> bool" where
  "uncommitting body \<longleftrightarrow> (\<forall>s. ss_committed (snd (body s)) = ss_committed s)"

lemma operate_uncommitting [simp]: "uncommitting (operate f)"
  by (auto simp: uncommitting_def operate_def split: sum.split prod.split)

text \<open>All or nothing: an exception, of the body or of the commit, leaves the database as it was.\<close>

lemma sync_session_atomic:
  assumes "uncommitting body" "sync_session reject body d = (r, d')"
  shows "case r of Inl e \<Rightarrow> d' = d
    | Inr x \<Rightarrow> fst (body (open_session d)) = Inr x \<and> d' = ss_working (snd (body (open_session d))) \<and> reject d' = None"
proof -
  have "ss_committed (snd (body (open_session d))) = d"
    using assms(1) by (simp add: uncommitting_def open_session_def)
  with assms(2) show ?thesis
    by (auto simp: sync_session_def commit_session_def rollback_session_def split: prod.splits sum.splits option.splits)
qed

lemma get_db_uncommitted: "uncommitting body \<Longrightarrow> snd (get_db body d) = d"
proof -
  assume "uncommitting body"
  then have "ss_committed (snd (body (open_session d))) = d" by (simp add: uncommitting_def open_session_def)
  then show ?thesis by (auto simp: get_db_def rollback_session_def split: prod.split sum.split)
qed

text \<open>The transaction of the model: the session of a task, and that of a route that commits.\<close>

lemma sync_session_committed:
  "snd (sync_session (\<lambda>_. None) (operate f) d) = committed d (f d)"
  "fst (sync_session (\<lambda>_. None) (operate f) d) = (case f d of Inl e \<Rightarrow> Inl e | Inr (x, _) \<Rightarrow> Inr x)"
  by (auto simp: sync_session_def operate_def commit_session_def rollback_session_def open_session_def committed_def
      split: sum.split prod.split)

lemma get_db_committed: "snd (get_db (then_commit (\<lambda>_. None) (operate f)) d) = committed d (f d)"
  by (auto simp: get_db_def then_commit_def operate_def commit_session_def rollback_session_def open_session_def
      committed_def split: sum.split prod.split)

text \<open>Without the commit the route's work is lost.\<close>

lemma get_db_lost: "snd (get_db (operate f) d) = d"
  by (rule get_db_uncommitted) simp

end
