(* ===== verification/Auth.thy ===== *)
theory Auth
  imports Config Campaign_Store Redis
begin

text \<open>
  Users, sessions and API keys: \<open>app/services/auth.py\<close>, \<open>app/services/api_keys.py\<close>,
  \<open>app/web/auth.py\<close>, the guards of \<open>app/main.py\<close> and \<open>app/deps.py\<close>, and
  \<open>scripts/seed_admin.py\<close>.  The password hasher of \<open>argon2\<close> and SHA-256 are parameters: a hash
  is made with a salt, \<open>HashRejected\<close> stands for its \<open>Argon2Error\<close> or \<open>ValueError\<close>, and
  \<open>digest\<close> is the digest of a text.  The random part of a key is the argument \<open>token\<close>.  The
  session is the decoded cookie, which only the server can write.
\<close>

section \<open>Passwords\<close>

datatype hash_outcome = HashVerified bool | HashRejected

record hasher =
  hs_hash :: "string \<Rightarrow> string \<Rightarrow> string"
  hs_verify :: "string \<Rightarrow> string \<Rightarrow> hash_outcome"

definition hash_password :: "hasher \<Rightarrow> string \<Rightarrow> string \<Rightarrow> string" where
  "hash_password H salt password = hs_hash H salt password"

definition verify_password :: "hasher \<Rightarrow> string \<Rightarrow> string \<Rightarrow> bool" where
  "verify_password H password_hash password =
     (case hs_verify H password_hash password of HashVerified b \<Rightarrow> b | HashRejected \<Rightarrow> False)"

definition normalize_login :: "string \<Rightarrow> string" where
  "normalize_login email = py_lower (py_strip email)"

section \<open>Users\<close>

definition get_user :: "db \<Rightarrow> id \<Rightarrow> user option" where
  "get_user d user_id = row_by u_id user_id (users d)"

definition authenticate :: "hasher \<Rightarrow> db \<Rightarrow> string \<Rightarrow> string \<Rightarrow> user option" where
  "authenticate H d email password =
     (case row_by u_email (normalize_login email) (users d) of
        None \<Rightarrow> None
      | Some user \<Rightarrow>
          if \<not> u_is_active user then None
          else if \<not> verify_password H (u_password_hash user) password then None
          else Some user)"

definition insert_user :: "user \<Rightarrow> db \<Rightarrow> exn + user \<times> db" where
  "insert_user u d =
     (if row_by u_email (u_email u) (users d) \<noteq> None then Inl IntegrityError
      else Inr (u, bump_seq TUsers (d\<lparr>users := users d @ [u]\<rparr>)))"

definition create_user ::
  "hasher \<Rightarrow> string \<Rightarrow> string \<Rightarrow> string \<Rightarrow> user_role \<Rightarrow> bool \<Rightarrow> db \<Rightarrow> exn + user \<times> db" where
  "create_user H salt email password role must_change d =
     insert_user \<lparr>u_id = next_id TUsers d, u_email = normalize_login email,
        u_password_hash = hash_password H salt password, u_role = role,
        u_must_change_password = must_change, u_is_active = True\<rparr> d"

definition set_password :: "hasher \<Rightarrow> string \<Rightarrow> id \<Rightarrow> string \<Rightarrow> db \<Rightarrow> db" where
  "set_password H salt user_id new_password d =
     d\<lparr>users := upd_by u_id user_id
         (\<lambda>u. u\<lparr>u_password_hash := hash_password H salt new_password, u_must_change_password := False\<rparr>) (users d)\<rparr>"

text \<open>The seed script: whether it created the administrator.\<close>

definition seed_admin :: "hasher \<Rightarrow> string \<Rightarrow> settings \<Rightarrow> db \<Rightarrow> exn + bool \<times> db" where
  "seed_admin H salt st d =
     (let email = normalize_login (app_admin_email st) in
      case row_by u_email email (users d) of
        Some existing \<Rightarrow> Inr (False, d)
      | None \<Rightarrow>
          and_then (insert_user \<lparr>u_id = next_id TUsers d, u_email = email,
              u_password_hash = hash_password H salt (app_admin_initial_password st), u_role = RoleAdmin,
              u_must_change_password = True, u_is_active = True\<rparr> d) (\<lambda>(u, d'). Inr (True, d')))"

section \<open>API keys\<close>

definition key_prefix :: string where
  "key_prefix = ''emk_''"

definition create_api_key ::
  "(string \<Rightarrow> string) \<Rightarrow> string \<Rightarrow> instant \<Rightarrow> string \<Rightarrow> db \<Rightarrow> exn + (api_key \<times> string) \<times> db" where
  "create_api_key digest token now name d =
     (let plaintext = key_prefix @ token;
          row = \<lparr>k_id = next_id TApiKeys d, k_name = (if py_strip name = [] then ''status key'' else py_strip name),
                 k_key_hash = digest plaintext, k_is_active = True, k_created_at = now, k_last_used_at = None\<rparr>
      in if row_by k_key_hash (digest plaintext) (api_keys d) \<noteq> None then Inl IntegrityError
         else Inr ((row, plaintext), bump_seq TApiKeys (d\<lparr>api_keys := api_keys d @ [row]\<rparr>)))"

definition list_api_keys :: "db \<Rightarrow> api_key list" where
  "list_api_keys d = sort_key (\<lambda>k. - k_created_at k) (api_keys d)"

definition revoke_api_key :: "id \<Rightarrow> db \<Rightarrow> bool \<times> db" where
  "revoke_api_key key_id d =
     (case row_by k_id key_id (api_keys d) of
        None \<Rightarrow> (False, d)
      | Some row \<Rightarrow> (True, d\<lparr>api_keys := upd_by k_id key_id (\<lambda>k. k\<lparr>k_is_active := False\<rparr>) (api_keys d)\<rparr>))"

definition verify_api_key ::
  "(string \<Rightarrow> string) \<Rightarrow> instant \<Rightarrow> string option \<Rightarrow> db \<Rightarrow> api_key option \<times> db" where
  "verify_api_key digest now plaintext d =
     (case plaintext of
        None \<Rightarrow> (None, d)
      | Some p \<Rightarrow>
          if p = [] then (None, d)
          else case find (\<lambda>k. k_key_hash k = digest p \<and> k_is_active k) (api_keys d) of
                 None \<Rightarrow> (None, d)
               | Some row \<Rightarrow>
                   (Some row, d\<lparr>api_keys := upd_by k_id (k_id row) (\<lambda>k. k\<lparr>k_last_used_at := Some now\<rparr>) (api_keys d)\<rparr>))"

text \<open>The dependency of the status API: the key of the two headers, or 401.\<close>

definition request_key :: "string option \<Rightarrow> string option \<Rightarrow> string option" where
  "request_key x_api_key authorization =
     (if x_api_key = None \<or> x_api_key = Some []
      then (case authorization of
              None \<Rightarrow> x_api_key
            | Some a \<Rightarrow> if py_startswith a ''Bearer '' then Some (drop 7 a) else x_api_key)
      else x_api_key)"

definition require_api_key ::
  "(string \<Rightarrow> string) \<Rightarrow> instant \<Rightarrow> string option \<Rightarrow> string option \<Rightarrow> db \<Rightarrow> api_key option \<times> db" where
  "require_api_key digest now x_api_key authorization d =
     verify_api_key digest now (request_key x_api_key authorization) d"

section \<open>Sessions\<close>

record web_session =
  ss_user_id :: "id option"
  ss_email :: "string option"
  ss_must_change :: bool
  ss_flash :: "(string \<times> string) list"

definition empty_session :: web_session where
  "empty_session = \<lparr>ss_user_id = None, ss_email = None, ss_must_change = False, ss_flash = []\<rparr>"

definition flash :: "string \<Rightarrow> string \<Rightarrow> web_session \<Rightarrow> web_session" where
  "flash message category s = s\<lparr>ss_flash := ss_flash s @ [(message, category)]\<rparr>"

definition logged_in :: "web_session \<Rightarrow> bool" where
  "logged_in s = (case ss_user_id s of None \<Rightarrow> False | Some i \<Rightarrow> i \<noteq> 0)"

text \<open>\<open>None\<close> is the 401 of a session without an active user.\<close>

definition current_user :: "web_session \<Rightarrow> db \<Rightarrow> user option" where
  "current_user s d =
     (case (if logged_in s then get_user d (the (ss_user_id s)) else None) of
        None \<Rightarrow> None
      | Some user \<Rightarrow> if u_is_active user then Some user else None)"

datatype guard = Pass | RedirectTo string

definition public_prefixes :: "string list" where
  "public_prefixes = [''/login'', ''/logout'', ''/static'', ''/u/'', ''/webhooks/'', ''/api/'', ''/healthz'', ''/favicon'']"

definition must_change_allowed :: "string list" where
  "must_change_allowed = [''/change-password'', ''/logout'', ''/static'']"

definition auth_guard :: "string \<Rightarrow> web_session \<Rightarrow> guard" where
  "auth_guard path s =
     (if list_ex (py_startswith path) public_prefixes then Pass
      else if \<not> logged_in s then RedirectTo ''/login''
      else if ss_must_change s \<and> \<not> list_ex (py_startswith path) must_change_allowed
      then RedirectTo ''/change-password''
      else Pass)"

definition login :: "hasher \<Rightarrow> db \<Rightarrow> string \<Rightarrow> string \<Rightarrow> web_session \<Rightarrow> string \<times> web_session" where
  "login H d email password s =
     (case authenticate H d email password of
        None \<Rightarrow> (''/login'', flash ''Invalid email or password.'' ''error'' s)
      | Some user \<Rightarrow>
          (''/'', s\<lparr>ss_user_id := Some (u_id user), ss_email := Some (u_email user),
                  ss_must_change := u_must_change_password user\<rparr>))"

definition logout :: "web_session \<Rightarrow> string \<times> web_session" where
  "logout s = (''/login'', empty_session)"

definition change_password ::
  "hasher \<Rightarrow> string \<Rightarrow> user \<Rightarrow> string \<Rightarrow> string \<Rightarrow> string \<Rightarrow> web_session \<Rightarrow> db \<Rightarrow> (string \<times> web_session) \<times> db" where
  "change_password H salt user current_password new_password confirm_password s d =
     (if \<not> verify_password H (u_password_hash user) current_password
      then ((''/change-password'', flash ''Current password is incorrect.'' ''error'' s), d)
      else if new_password \<noteq> confirm_password
      then ((''/change-password'', flash ''New passwords do not match.'' ''error'' s), d)
      else if length new_password < 10
      then ((''/change-password'', flash ''Use at least 10 characters.'' ''error'' s), d)
      else ((''/'', flash ''Password updated.'' ''success'' (s\<lparr>ss_must_change := False\<rparr>)),
            set_password H salt (u_id user) new_password d))"

section \<open>Lemmas\<close>

text \<open>Documented behaviour of the hasher: a hash verifies the password it was made from and no other.\<close>

definition hasher_ok :: "hasher \<Rightarrow> bool" where
  "hasher_ok H \<longleftrightarrow> (\<forall>salt p q. hs_verify H (hs_hash H salt p) q = (if q = p then HashVerified True else HashRejected))"

lemma verify_hash [simp]: "hasher_ok H \<Longrightarrow> verify_password H (hash_password H salt p) q \<longleftrightarrow> q = p"
  by (simp add: hasher_ok_def verify_password_def hash_password_def)

definition users_ok :: "db \<Rightarrow> bool" where
  "users_ok d \<longleftrightarrow> distinct (map u_id (users d)) \<and> distinct (map u_email (users d)) \<and>
     (\<forall>u \<in> set (users d). u_id u \<le> seqs d TUsers \<and> normalize_login (u_email u) = u_email u)"

lemma normalize_login_idem [simp]: "normalize_login (normalize_login e) = normalize_login e"
  by (simp add: normalize_login_def py_strip_lower)

lemma insert_user_ok [inv_intros]:
  assumes "users_ok d" "insert_user u d = Inr (v, d')" "u_id u = next_id TUsers d" "normalize_login (u_email u) = u_email u"
  shows "users_ok d'"
proof -
  have "seqs d TUsers + 1 \<notin> u_id ` set (users d)" "\<forall>u \<in> set (users d). u_id u \<le> seqs d TUsers + 1"
    using assms(1) by (force simp: users_ok_def)+
  with assms show ?thesis
    by (auto simp: insert_user_def users_ok_def next_id_def row_by_None_iff split: if_splits)
qed

lemma set_password_ok [inv_intros]: "users_ok d \<Longrightarrow> users_ok (set_password H salt i p d)"
  by (auto simp: users_ok_def set_password_def map_upd_by set_upd_by)

lemma seed_admin_twice:
  assumes "seed_admin H salt st d = Inr (b, d')"
  shows "seed_admin H salt' st d' = Inr (False, d')"
proof -
  have "row_by u_email (normalize_login (app_admin_email st)) (users d') \<noteq> None"
    using assms
    by (auto simp: seed_admin_def insert_user_def and_then_Inr_iff Let_def row_by_append split: option.splits if_splits)
  then show ?thesis by (auto simp: seed_admin_def Let_def split: option.splits)
qed

lemma get_user_set_password:
  "get_user (set_password H salt i p d) j =
     (if j = i then map_option (\<lambda>u. u\<lparr>u_password_hash := hash_password H salt p, u_must_change_password := False\<rparr>) (get_user d j)
      else get_user d j)"
  by (simp add: get_user_def set_password_def row_by_upd_by)

lemma login_row: "users_ok d \<Longrightarrow> u \<in> set (users d) \<Longrightarrow> row_by u_email (u_email u) (users d) = Some u"
  by (rule row_by_unique) (simp_all add: users_ok_def)

definition api_keys_ok :: "db \<Rightarrow> bool" where
  "api_keys_ok d \<longleftrightarrow> distinct (map k_id (api_keys d)) \<and> distinct (map k_key_hash (api_keys d)) \<and>
     (\<forall>k \<in> set (api_keys d). k_id k \<le> seqs d TApiKeys)"

lemma create_api_key_ok [inv_intros]:
  assumes "api_keys_ok d" "create_api_key digest token now name d = Inr (r, d')"
  shows "api_keys_ok d'"
proof -
  have "seqs d TApiKeys + 1 \<notin> k_id ` set (api_keys d)" "\<forall>k \<in> set (api_keys d). k_id k \<le> seqs d TApiKeys + 1"
    using assms(1) by (force simp: api_keys_ok_def)+
  with assms show ?thesis
    by (auto simp: create_api_key_def api_keys_ok_def next_id_def row_by_None_iff Let_def split: if_splits)
qed

lemma revoke_api_key_ok [inv_intros]: "api_keys_ok d \<Longrightarrow> api_keys_ok (snd (revoke_api_key i d))"
  by (auto simp: revoke_api_key_def api_keys_ok_def map_upd_by set_upd_by split: option.split)

lemma verify_api_key_ok [inv_intros]: "api_keys_ok d \<Longrightarrow> api_keys_ok (snd (verify_api_key digest now p d))"
  by (auto simp: verify_api_key_def api_keys_ok_def map_upd_by set_upd_by split: option.split)

text \<open>Which key a text opens: the active one with its digest.\<close>

lemma verify_api_key_iff:
  assumes "api_keys_ok d"
  shows "fst (verify_api_key digest now (Some p) d) = Some k \<longleftrightarrow>
    p \<noteq> [] \<and> k \<in> set (api_keys d) \<and> k_key_hash k = digest p \<and> k_is_active k"
proof -
  let ?P = "\<lambda>k. k_key_hash k = digest p \<and> k_is_active k"
  have uniq: "x = y" if "x \<in> set (api_keys d)" "y \<in> set (api_keys d)" "k_key_hash x = k_key_hash y" for x y
    using assms that by (auto simp: api_keys_ok_def distinct_map inj_on_def)
  have "find ?P (api_keys d) = Some k \<longleftrightarrow> k \<in> set (api_keys d) \<and> ?P k"
  proof
    assume "find ?P (api_keys d) = Some k"
    then show "k \<in> set (api_keys d) \<and> ?P k" by (auto simp: find_Some_iff)
  next
    assume k: "k \<in> set (api_keys d) \<and> ?P k"
    then have "find ?P (api_keys d) \<noteq> None" by (auto simp: find_None_iff)
    then obtain k' where k': "find ?P (api_keys d) = Some k'" by blast
    then have "k' \<in> set (api_keys d) \<and> ?P k'" by (auto simp: find_Some_iff)
    with k uniq k' show "find ?P (api_keys d) = Some k" by metis
  qed
  then show ?thesis by (auto simp: verify_api_key_def split: option.split)
qed

section \<open>Properties\<close>

text \<open>
  C26: An API key works exactly from its creation to its revocation: the text shown once opens the
  new key, every other text opens what it opened before, and after the revocation the text opens
  nothing; the table keeps one row for a digest.
\<close>

theorem api_key_lifecycle:
  assumes "api_keys_ok d" "create_api_key digest token now name d = Inr ((row, plaintext), d')"
  shows "fst (verify_api_key digest t (Some plaintext) d') = Some row \<and>
    (\<forall>p. digest p \<noteq> digest plaintext \<longrightarrow> fst (verify_api_key digest t (Some p) d') = fst (verify_api_key digest t (Some p) d)) \<and>
    fst (verify_api_key digest t' (Some plaintext) (snd (revoke_api_key (k_id row) d'))) = None \<and> api_keys_ok d'"
proof -
  have ok: "api_keys_ok d'" using create_api_key_ok [OF assms] .
  from assms(2) have d': "api_keys d' = api_keys d @ [row]" "k_key_hash row = digest plaintext" "k_is_active row"
    "plaintext \<noteq> []" by (auto simp: create_api_key_def key_prefix_def Let_def split: if_splits)
  have new: "fst (verify_api_key digest t (Some plaintext) d') = Some row"
    using verify_api_key_iff [OF ok] d' by simp
  have "fst (verify_api_key digest t (Some p) d') = Some k \<longleftrightarrow> fst (verify_api_key digest t (Some p) d) = Some k"
    if "digest p \<noteq> digest plaintext" for p k
    using that d' by (auto simp: verify_api_key_iff [OF ok] verify_api_key_iff [OF assms(1)])
  then have old: "\<forall>p. digest p \<noteq> digest plaintext \<longrightarrow>
      fst (verify_api_key digest t (Some p) d') = fst (verify_api_key digest t (Some p) d)"
    by (metis not_None_eq)
  have gone: "row_by k_id (k_id row) (api_keys d') = Some row"
    using ok d'(1) by (intro row_by_unique) (simp_all add: api_keys_ok_def)
  have "api_keys (snd (revoke_api_key (k_id row) d')) = upd_by k_id (k_id row) (\<lambda>k. k\<lparr>k_is_active := False\<rparr>) (api_keys d')"
    unfolding revoke_api_key_def gone by simp
  moreover have "k_key_hash k \<noteq> digest plaintext" if "k \<in> set (api_keys d)" for k
    using ok d'(1,2) that by (auto simp: api_keys_ok_def) (metis image_eqI)
  ultimately have "fst (verify_api_key digest t' (Some plaintext) (snd (revoke_api_key (k_id row) d'))) \<noteq> Some k" for k
    unfolding verify_api_key_iff [OF revoke_api_key_ok [OF ok]] by (auto simp: set_upd_by d'(1) split: if_splits)
  then show ?thesis using new old ok by (metis not_None_eq)
qed

theorem api_key_lifecycle_witness:
  "\<exists>row d'. create_api_key id ''abc'' 0 ''ci'' empty_db = Inr ((row, ''emk_abc''), d') \<and>
     fst (verify_api_key id 1 (Some ''emk_abc'') d') = Some row \<and>
     fst (verify_api_key id 2 (Some ''emk_abc'') (snd (revoke_api_key (k_id row) d'))) = None"
proof -
  have ok: "api_keys_ok empty_db" by (simp add: api_keys_ok_def empty_db_def)
  obtain row d' where c: "create_api_key id ''abc'' 0 ''ci'' empty_db = Inr ((row, ''emk_abc''), d')"
  proof -
    have "row_by k_key_hash x (api_keys empty_db) = None" for x by (simp add: empty_db_def)
    with that show ?thesis unfolding create_api_key_def Let_def key_prefix_def by simp
  qed
  from api_key_lifecycle [OF ok c, of 1 2] c show ?thesis by blast
qed

text \<open>
  C27: A password change takes effect: it goes through exactly when the current password is right,
  the two new ones agree and have ten characters; then the account opens with the new password and
  with no other, the forced change is over, and every other account is as before.  Refused, it
  changes nothing but the message shown.
\<close>

theorem password_change_effective:
  assumes "hasher_ok H" "users_ok d" "get_user d i = Some u" "u_is_active u"
    and "change_password H salt u current new confirm s d = ((path, s'), d')"
  shows "if verify_password H (u_password_hash u) current \<and> new = confirm \<and> 10 \<le> length new
    then (\<forall>p. authenticate H d' (u_email u) p \<noteq> None \<longleftrightarrow> p = new) \<and> \<not> ss_must_change s' \<and>
      (\<forall>e p. normalize_login e \<noteq> u_email u \<longrightarrow> authenticate H d' e p = authenticate H d e p)
    else d' = d \<and> (ss_user_id s', ss_must_change s') = (ss_user_id s, ss_must_change s)"
proof (cases "verify_password H (u_password_hash u) current \<and> new = confirm \<and> 10 \<le> length new")
  case False
  with assms(5) show ?thesis by (auto simp: change_password_def flash_def split: if_splits)
next
  case True
  with assms(5) have d': "d' = set_password H salt (u_id u) new d" "\<not> ss_must_change s'"
    by (auto simp: change_password_def flash_def split: if_splits)
  have u: "u \<in> set (users d)" "u_id u = i" using assms(3) by (auto simp: get_user_def dest: row_by_SomeD)
  have norm: "normalize_login (u_email u) = u_email u" using assms(2) u(1) by (simp add: users_ok_def)
  have row: "row_by u_email e (users d') =
      map_option (\<lambda>v. if u_id v = u_id u then v\<lparr>u_password_hash := hash_password H salt new, u_must_change_password := False\<rparr> else v)
        (row_by u_email e (users d))" for e
    by (simp add: d' set_password_def upd_by_def row_by_map_keep)
  have other: "v = u" if "v \<in> set (users d)" "u_id v = u_id u" for v
    using assms(2) u(1) that by (auto simp: users_ok_def distinct_map inj_on_def)
  have "authenticate H d' (u_email u) p \<noteq> None \<longleftrightarrow> p = new" for p
    using assms(1,4) by (simp add: authenticate_def norm row login_row [OF assms(2) u(1)])
  moreover have "authenticate H d' e p = authenticate H d e p" if ne: "normalize_login e \<noteq> u_email u" for e p
  proof (cases "row_by u_email (normalize_login e) (users d)")
    case (Some v)
    then have "v \<in> set (users d)" "u_email v = normalize_login e" by (auto dest: row_by_SomeD)
    with other ne have "u_id v \<noteq> u_id u" by metis
    with Some show ?thesis by (simp add: authenticate_def row)
  qed (simp add: authenticate_def row)
  ultimately show ?thesis unfolding if_P [OF True] using d'(2) by blast
qed

text \<open>A hasher for the witnesses, and a system with one user.\<close>

definition plain_hasher :: hasher where
  "plain_hasher = \<lparr>hs_hash = (\<lambda>salt p. p), hs_verify = (\<lambda>h p. if p = h then HashVerified True else HashRejected)\<rparr>"

definition admin_db :: db where
  "admin_db = empty_db\<lparr>users := [\<lparr>u_id = 1, u_email = ''a@x.com'', u_password_hash = ''changeme12'', u_role = RoleAdmin,
     u_must_change_password = True, u_is_active = True\<rparr>], seqs := (\<lambda>_. 1)\<rparr>"

lemma plain_hasher_ok: "hasher_ok plain_hasher"
  by (simp add: hasher_ok_def plain_hasher_def)

lemma admin_ok: "users_ok admin_db" "get_user admin_db 1 = Some (hd (users admin_db))" "u_is_active (hd (users admin_db))"
  by (simp add: users_ok_def admin_db_def, code_simp) (simp_all add: get_user_def admin_db_def)

theorem password_change_effective_witness:
  "authenticate plain_hasher (set_password plain_hasher [] 1 ''correct horse'' admin_db) ''a@x.com'' ''correct horse'' \<noteq> None \<and>
   authenticate plain_hasher (set_password plain_hasher [] 1 ''correct horse'' admin_db) ''a@x.com'' ''changeme12'' = None"
proof -
  let ?u = "hd (users admin_db)"
  have u: "u_email ?u = ''a@x.com''" "u_id ?u = 1" "verify_password plain_hasher (u_password_hash ?u) ''changeme12''"
    by (simp_all add: admin_db_def verify_password_def plain_hasher_def)
  have "change_password plain_hasher [] ?u ''changeme12'' ''correct horse'' ''correct horse'' empty_session admin_db =
      ((''/'', flash ''Password updated.'' ''success'' (empty_session\<lparr>ss_must_change := False\<rparr>)),
       set_password plain_hasher [] 1 ''correct horse'' admin_db)"
    using u by (simp add: change_password_def)
  from password_change_effective [OF plain_hasher_ok admin_ok this] u(3)
  have opens: "\<forall>p. authenticate plain_hasher (set_password plain_hasher [] 1 ''correct horse'' admin_db) (u_email ?u) p \<noteq> None
      \<longleftrightarrow> p = ''correct horse''" by simp
  show ?thesis using opens [rule_format, of "''correct horse''"] opens [rule_format, of "''changeme12''"]
    by (simp add: u(1))
qed

text \<open>The forced change of the initial password accepts the initial password itself.\<close>

lemma initial_password_kept:
  "let u = hd (users admin_db);
       ((path, s), d) = change_password plain_hasher [] u ''changeme12'' ''changeme12'' ''changeme12'' empty_session admin_db
   in u_must_change_password u \<and> path = ''/'' \<and> map u_must_change_password (users d) = [False] \<and>
      map u_password_hash (users d) = map u_password_hash (users admin_db)"
  by code_simp

end
