(* ===== verification/Stats.thy ===== *)
theory Stats
  imports Planner Sending Webhook Templates
begin

text \<open>
  What the dashboard, the status API and the planner's status page show: \<open>app/services/stats.py\<close>,
  \<open>app/services/planner_monitor.py\<close>, and the listings of \<open>services/campaigns.py\<close> and
  \<open>services/planner.py\<close> the pages use.  Rates are exact quotients rounded half to even, where the
  program divides floats.  Redis answers; an unreachable one counts as nothing sent, which is what
  the readers of \<open>Rate_Limit\<close> return for a missing key.  Rows that a query orders by equal keys keep
  their table order, and a descending order puts a missing date first, as PostgreSQL does.
\<close>

section \<open>Progress of a campaign\<close>

record progress =
  pg_id :: id
  pg_name :: string
  pg_status :: campaign_status
  pg_total :: int
  pg_queued :: int
  pg_sent :: int
  pg_delivered :: int
  pg_bounced :: int
  pg_failed :: int
  pg_skipped_suppressed :: int
  pg_pending :: int
  pg_processed :: int
  pg_scheduled_at :: "instant option"

definition campaign_progress :: "campaign \<Rightarrow> progress" where
  "campaign_progress c =
     \<lparr>pg_id = c_id c, pg_name = c_name c, pg_status = c_status c, pg_total = c_total_recipients c,
      pg_queued = c_queued_count c, pg_sent = c_sent_count c, pg_delivered = c_delivered_count c,
      pg_bounced = c_bounced_count c, pg_failed = c_failed_count c,
      pg_skipped_suppressed = c_skipped_count c,
      pg_pending = max 0 (c_queued_count c - c_sent_count c - c_failed_count c),
      pg_processed = c_sent_count c + c_failed_count c + c_skipped_count c,
      pg_scheduled_at = c_scheduled_at c\<rparr>"

section \<open>Dashboard\<close>

text \<open>\<open>round(x, n)\<close>.\<close>

definition py_round :: "nat \<Rightarrow> rat \<Rightarrow> rat" where
  "py_round n q = of_int (round_half_even (q * 10 ^ n)) / 10 ^ n"

record pool_usage =
  pu_pool :: string
  pu_sent_today :: int
  pu_cap :: int

record send_totals =
  to_sent :: int
  to_delivered :: int
  to_bounced :: int
  to_failed :: int
  to_skipped_suppressed :: int

record dashboard =
  ds_totals :: send_totals
  ds_bounce_rate :: rat
  ds_suppression_size :: int
  ds_per_pool_today :: "pool_usage list"
  ds_campaigns :: "progress list"

definition distinct_pools :: "db \<Rightarrow> string list" where
  "distinct_pools d =
     sorted_list_of_set (insert ''default'' {p \<in> set (List.map_filter c_ip_pool (campaigns d)). p \<noteq> []})"

definition list_campaigns :: "db \<Rightarrow> campaign list" where
  "list_campaigns d = sort_key (\<lambda>c. - c_created_at c) (campaigns d)"

definition dashboard_stats :: "settings \<Rightarrow> instant \<Rightarrow> redis \<Rightarrow> nat \<Rightarrow> db \<Rightarrow> dashboard" where
  "dashboard_stats st now r recent d =
     (let total = (\<lambda>f. sum_list (map f (campaigns d)));
          sent = total c_sent_count;
          bounced = total c_bounced_count
      in \<lparr>ds_totals = \<lparr>to_sent = sent, to_delivered = total c_delivered_count, to_bounced = bounced,
                       to_failed = total c_failed_count, to_skipped_suppressed = total c_skipped_count\<rparr>,
          ds_bounce_rate = (if sent \<noteq> 0 then py_round 2 (of_int bounced / of_int sent * 100) else 0),
          ds_suppression_size = int (length (suppressions d)),
          ds_per_pool_today = map (\<lambda>pool. \<lparr>pu_pool = pool, pu_sent_today = daily_cap_usage now pool r,
                                           pu_cap = per_ip_daily_cap st\<rparr>) (distinct_pools d),
          ds_campaigns = map campaign_progress (take recent (list_campaigns d))\<rparr>)"

section \<open>Deferrals of the day\<close>

definition deferral_statuses :: "string list" where
  "deferral_statuses = [''SoftFail'', ''Held'']"

record pool_deferrals =
  pd_deferred :: int
  pd_sent :: int
  pd_bounced :: int

record deferrals =
  df_sent_today :: int
  df_deferred_today :: int
  df_rate_pct :: rat
  df_per_pool :: "(string \<times> pool_deferrals) list"

definition start_of_day :: "instant \<Rightarrow> instant" where
  "start_of_day now = now div days 1 * days 1"

text \<open>The join with the ledger: pool of the recipient and status of the event, of each event of today.\<close>

definition todays_events :: "instant \<Rightarrow> db \<Rightarrow> (string option \<times> string option) list" where
  "todays_events now d =
     concat (map (\<lambda>e. map (\<lambda>r. (cr_ip_pool r, ev_status e))
                        (filter (\<lambda>r. cr_id r = ev_campaign_recipient_id e) (recipients d)))
       (filter (\<lambda>e. start_of_day now \<le> ev_occurred_at e) (email_events d)))"

definition group_count :: "'k list \<Rightarrow> ('k \<times> int) list" where
  "group_count keys = map (\<lambda>k. (k, int (count_list keys k))) (remdups keys)"

definition pool_name :: "string option \<Rightarrow> string" where
  "pool_name pool = or_default pool ''default''"

definition add_to_pool :: "string option \<Rightarrow> int \<Rightarrow> pool_deferrals \<Rightarrow> pool_deferrals" where
  "add_to_pool status n p =
     (if status \<in> Some ` set deferral_statuses then p\<lparr>pd_deferred := pd_deferred p + n\<rparr>
      else if status = Some ''Sent'' then p\<lparr>pd_sent := pd_sent p + n\<rparr>
      else if status \<in> {Some ''HardFail'', Some ''Bounced''} then p\<lparr>pd_bounced := pd_bounced p + n\<rparr>
      else p)"

definition pool_entry :: "string \<Rightarrow> (string \<times> pool_deferrals) list \<Rightarrow> pool_deferrals" where
  "pool_entry pool per_pool =
     (case map_of per_pool pool of
        None \<Rightarrow> \<lparr>pd_deferred = 0, pd_sent = 0, pd_bounced = 0\<rparr> | Some p \<Rightarrow> p)"

fun tally_deferrals ::
  "((string option \<times> string option) \<times> int) list \<Rightarrow> (string \<times> pool_deferrals) list \<Rightarrow> int \<Rightarrow>
   (string \<times> pool_deferrals) list \<times> int" where
  "tally_deferrals [] per_pool n = (per_pool, n)"
| "tally_deferrals (((pool, status), k) # rows) per_pool n =
     (let name = pool_name pool
      in tally_deferrals rows (dict_set name (add_to_pool status k (pool_entry name per_pool)) per_pool)
           (if status \<in> Some ` set deferral_statuses then n + k else n))"

definition deferrals_of :: "instant \<Rightarrow> redis \<Rightarrow> db \<Rightarrow> deferrals" where
  "deferrals_of now r d =
     (let (per_pool, deferred) = tally_deferrals (group_count (todays_events now d)) [] 0;
          sent_today = global_sent_today now r
      in \<lparr>df_sent_today = sent_today, df_deferred_today = deferred,
          df_rate_pct = (if sent_today \<noteq> 0 then py_round 1 (of_int deferred / of_int sent_today * 100) else 0),
          df_per_pool = per_pool\<rparr>)"

section \<open>Recurring campaigns\<close>

record recurring_view =
  rv_id :: id
  rv_name :: string
  rv_color :: string
  rv_send_time :: "string option"
  rv_send_timezone :: "string option"
  rv_lists :: "string list"
  rv_eligible :: int
  rv_placed :: int

definition planner_campaigns :: "db \<Rightarrow> campaign list" where
  "planner_campaigns d = sort_key c_name (filter c_is_planner (campaigns d))"

definition recurring_campaigns :: "instant \<Rightarrow> db \<Rightarrow> exn + recurring_view list" where
  "recurring_campaigns now d =
     and_then (cfg_int (get_planner_config d) ''frequency_interval_days'') (\<lambda>interval.
     Inr (map (\<lambda>c. \<lparr>rv_id = c_id c, rv_name = c_name c, rv_color = color_for (c_id c),
                    rv_send_time = c_send_time c, rv_send_timezone = c_send_timezone c,
                    rv_lists = campaign_list_names d (c_id c),
                    rv_eligible = eligible_count now d (c_id c) interval,
                    rv_placed = count_rows (\<lambda>p. p_campaign_id p = c_id c) (placements d)\<rparr>)
            (planner_campaigns d)))"

section \<open>Monitor\<close>

definition low_inventory_limit :: int where
  "low_inventory_limit = 200"

record monitor_row =
  mr_id :: id
  mr_name :: string
  mr_color :: string
  mr_lists :: "string list"
  mr_total_contacts :: int
  mr_eligible :: int
  mr_last_fired :: "instant option"
  mr_last_reached :: int
  mr_low_inventory :: bool

record monitor_view =
  mv_warming :: "int \<times> warming_ip list \<times> json"
  mv_deferrals :: deferrals
  mv_campaigns :: "monitor_row list"
  mv_low_inventory_count :: int

definition last_run :: "db \<Rightarrow> id \<Rightarrow> campaign option" where
  "last_run d campaign_id =
     (let runs = filter (\<lambda>c. c_parent_campaign_id c = Some campaign_id) (campaigns d);
          ordered = filter (\<lambda>c. c_scheduled_at c = None) runs @
                    sort_key (\<lambda>c. - the (c_scheduled_at c)) (filter (\<lambda>c. c_scheduled_at c \<noteq> None) runs)
      in case ordered of [] \<Rightarrow> None | c # _ \<Rightarrow> Some c)"

definition monitor_row_of :: "instant \<Rightarrow> db \<Rightarrow> int \<Rightarrow> campaign \<Rightarrow> monitor_row" where
  "monitor_row_of now d interval c =
     (let run = last_run d (c_id c);
          list_ids = get_campaign_list_ids d (c_id c);
          total_contacts = (if list_ids = [] then 0
            else count_rows (\<lambda>ct. ct_list_id ct \<in> Some ` set list_ids \<and> ct_status ct = Active) (contacts d));
          eligible = eligible_count now d (c_id c) interval
      in \<lparr>mr_id = c_id c, mr_name = c_name c, mr_color = color_for (c_id c),
          mr_lists = campaign_list_names d (c_id c), mr_total_contacts = total_contacts,
          mr_eligible = eligible,
          mr_last_fired = (case run of None \<Rightarrow> None | Some x \<Rightarrow> c_scheduled_at x),
          mr_last_reached = (case run of None \<Rightarrow> 0 | Some x \<Rightarrow> c_sent_count x),
          mr_low_inventory = (total_contacts = 0 \<or> eligible < low_inventory_limit)\<rparr>)"

definition monitor :: "instant \<Rightarrow> redis \<Rightarrow> db \<Rightarrow> exn + monitor_view" where
  "monitor now r d =
     and_then (cfg_int (get_planner_config d) ''frequency_interval_days'') (\<lambda>interval.
     and_then (warming_summary now d) (\<lambda>warming.
     let rows = map (monitor_row_of now d interval) (planner_campaigns d)
     in Inr \<lparr>mv_warming = warming, mv_deferrals = deferrals_of now r d, mv_campaigns = rows,
             mv_low_inventory_count = int (length (filter mr_low_inventory rows))\<rparr>))"

section \<open>Lemmas: counting events by pool\<close>

lemma count_list_filter: "count_list (filter P keys) k = (if P k then count_list keys k else 0)"
  by (induction keys) auto

lemma sum_group_count:
  "sum_list (map (\<lambda>(k, n). if P k then n else 0) (group_count keys)) = int (length (filter P keys))"
proof -
  have "sum_list (map (\<lambda>(k, n). if P k then n else 0) (group_count keys)) =
      (\<Sum>k\<in>set keys. if P k then int (count_list keys k) else 0)"
    by (simp add: group_count_def comp_def sum_list_distinct_conv_sum_set)
  also have "\<dots> = (\<Sum>k\<in>set keys. int (count_list (filter P keys) k))"
    by (rule sum.cong) (simp_all add: count_list_filter)
  also have "\<dots> = int (length (filter P keys))"
    using sum_count_set [of "filter P keys" "set keys"] by (simp flip: of_nat_sum)
  finally show ?thesis .
qed

definition deferral_status :: "string option \<Rightarrow> bool" where
  "deferral_status s \<longleftrightarrow> s \<in> {Some ''SoftFail'', Some ''Held''}"

lemma deferral_statuses_iff [simp]: "s \<in> Some ` set deferral_statuses \<longleftrightarrow> deferral_status s"
  by (auto simp: deferral_statuses_def deferral_status_def)

definition amount :: "('k \<Rightarrow> bool) \<Rightarrow> ('k \<times> int) list \<Rightarrow> int" where
  "amount P rows = sum_list (map (\<lambda>(k, n). if P k then n else 0) rows)"

lemma amount_simps [simp]:
  "amount P [] = 0" "amount P ((k, n) # rows) = (if P k then n else 0) + amount P rows"
  by (simp_all add: amount_def)

lemma pool_entry_set [simp]:
  "pool_entry p (dict_set q v per_pool) = (if p = q then v else pool_entry p per_pool)"
  by (simp add: pool_entry_def)

lemma pool_entry_Nil [simp]: "pool_entry p [] = \<lparr>pd_deferred = 0, pd_sent = 0, pd_bounced = 0\<rparr>"
  by (simp add: pool_entry_def)

lemma tally_deferrals_total: "snd (tally_deferrals rows per_pool n) = n + amount (deferral_status \<circ> snd) rows"
  by (induction rows per_pool n rule: tally_deferrals.induct) (simp_all add: Let_def)

lemma tally_deferrals_pool:
  "pool_entry name (fst (tally_deferrals rows per_pool n)) =
     \<lparr>pd_deferred = pd_deferred (pool_entry name per_pool) + amount (\<lambda>(p, s). pool_name p = name \<and> deferral_status s) rows,
      pd_sent = pd_sent (pool_entry name per_pool) + amount (\<lambda>(p, s). pool_name p = name \<and> s = Some ''Sent'') rows,
      pd_bounced = pd_bounced (pool_entry name per_pool) +
        amount (\<lambda>(p, s). pool_name p = name \<and> s \<in> {Some ''HardFail'', Some ''Bounced''}) rows\<rparr>"
  by (induction rows per_pool n rule: tally_deferrals.induct)
     (auto simp: Let_def add_to_pool_def deferral_status_def)

section \<open>Properties\<close>

text \<open>
  C29: The deferral figures are exact: although they are added up from grouped rows, the total is
  the number of today's events with a deferral status, and each pool (the default one standing in
  for recipients without) shows the numbers of its own deferred, sent and bounced events.
\<close>

theorem deferrals_exact:
  "let v = deferrals_of now r d; n = (\<lambda>P. int (length (filter P (todays_events now d)))) in
     df_deferred_today v = n (\<lambda>(p, s). deferral_status s) \<and>
     pool_entry name (df_per_pool v) =
       \<lparr>pd_deferred = n (\<lambda>(p, s). or_default p ''default'' = name \<and> deferral_status s),
        pd_sent = n (\<lambda>(p, s). or_default p ''default'' = name \<and> s = Some ''Sent''),
        pd_bounced = n (\<lambda>(p, s). or_default p ''default'' = name \<and> s \<in> {Some ''HardFail'', Some ''Bounced''})\<rparr>"
proof -
  let ?rows = "group_count (todays_events now d)"
  have sums: "amount P ?rows = int (length (filter P (todays_events now d)))" for P
    by (simp add: amount_def sum_group_count)
  have "df_deferred_today (deferrals_of now r d) = snd (tally_deferrals ?rows [] 0)"
    "df_per_pool (deferrals_of now r d) = fst (tally_deferrals ?rows [] 0)"
    by (simp_all add: deferrals_of_def Let_def split_beta)
  then show ?thesis
    by (simp add: tally_deferrals_total tally_deferrals_pool sums pool_name_def comp_def case_prod_unfold)
qed

text \<open>
  The progress of a balanced campaign: the processed and the pending rows of the ledger make up
  the total.  The pending figure shown is not that number: it exceeds it by the recipients that were
  skipped after the campaign was materialized.
\<close>

theorem progress_exact:
  assumes "balanced d cid" "get_campaign_row cid d = Some c"
  shows "pg_processed (campaign_progress c) + pending_count d cid = pg_total (campaign_progress c) \<and>
    pg_pending (campaign_progress c) =
       max 0 (pending_count d cid + (c_skipped_count c - (c_total_recipients c - c_queued_count c)))"
proof -
  have "pending_count d cid = c_total_recipients c - c_sent_count c - c_failed_count c - c_skipped_count c"
    using assms by (auto simp: balanced_def)
  then show ?thesis by (simp add: campaign_progress_def)
qed

theorem progress_exact_witness:
  "pg_processed (campaign_progress demo_campaign) + pending_count (w_db demo_world) 1 = 1"
  using progress_exact [of "w_db demo_world" 1 demo_campaign]
  by (simp add: balanced_def demo_world_def demo_campaign_def demo_recipient_def get_campaign_row_def
      pending_count_def pending_row_def campaign_progress_def)

text \<open>
  A recipient suppressed between the materialization and its turn stays pending in every report:
  the campaign is complete, nothing waits in the ledger, and one message is still shown as pending.
\<close>

lemma skipped_stays_pending:
  "let d = snd (suppress_sync None (w_db demo_world) ''a@x.com'' Manual None True);
       d' = w_db (snd (send_one demo_env 5 1 0 (demo_world\<lparr>w_db := d\<rparr>)))
   in pending_count d' 1 = 0 \<and>
      (\<exists>c. get_campaign_row 1 d' = Some c \<and> c_status c = Completed \<and> pg_pending (campaign_progress c) = 1)"
proof -
  let ?d = "snd (suppress_sync None (w_db demo_world) ''a@x.com'' Manual None True)"
  let ?d' = "w_db (snd (send_one demo_env 5 1 0 (demo_world\<lparr>w_db := ?d\<rparr>)))"
  have "pending_count ?d' 1 = 0 \<and> (case get_campaign_row 1 ?d' of None \<Rightarrow> False
     | Some c \<Rightarrow> c_status c = Completed \<and> pg_pending (campaign_progress c) = 1)" by code_simp
  then show ?thesis by (auto simp: Let_def split: option.splits)
qed

end
