(* ===== verification/Preflight.thy ===== *)
theory Preflight
  imports Config
begin

text \<open>
  The deliverability checks of the start-up (\<open>app/services/preflight.py\<close>).  DNS is a parameter:
  each lookup gives its answer or the name of the class of the exception it raised.  A TXT record is
  its list of strings, joined and decoded (\<open>pf_decode\<close>, bytes that are not UTF-8 replaced); an MX
  answer is its number of records; a PTR answer is the text of its first record, where a malformed
  address raises like a failed lookup.
\<close>

record preflight_dns =
  pf_txt :: "string \<Rightarrow> string + string list list"
  pf_decode :: "string \<Rightarrow> string"
  pf_mx :: "string \<Rightarrow> string + nat"
  pf_ptr :: "string \<Rightarrow> string + string"

record check =
  ck_name :: string
  ck_ok :: bool
  ck_detail :: string

definition nameservers :: "settings \<Rightarrow> string list" where
  "nameservers st =
     (if dns_resolvers_list st \<noteq> [] then dns_resolvers_list st else [''1.1.1.1'', ''8.8.8.8''])"

definition preflight_txt :: "preflight_dns \<Rightarrow> string \<Rightarrow> string + string list" where
  "preflight_txt D domain =
     (case pf_txt D domain of
        Inl exc \<Rightarrow> Inl exc | Inr answer \<Rightarrow> Inr (map (\<lambda>strings. pf_decode D (concat strings)) answer))"

definition check_spf :: "preflight_dns \<Rightarrow> string \<Rightarrow> check" where
  "check_spf D domain =
     (case preflight_txt D domain of
        Inl exc \<Rightarrow> \<lparr>ck_name = ''SPF'', ck_ok = False, ck_detail = ''lookup failed: '' @ exc\<rparr>
      | Inr records \<Rightarrow>
          (case filter (\<lambda>r. py_startswith (py_lower r) ''v=spf1'') records of
             r # _ \<Rightarrow> \<lparr>ck_name = ''SPF'', ck_ok = True, ck_detail = take 120 r\<rparr>
           | [] \<Rightarrow> \<lparr>ck_name = ''SPF'', ck_ok = False, ck_detail = ''no v=spf1 TXT record found''\<rparr>))"

definition check_dmarc :: "preflight_dns \<Rightarrow> string \<Rightarrow> check" where
  "check_dmarc D domain =
     (case preflight_txt D (''_dmarc.'' @ domain) of
        Inl exc \<Rightarrow> \<lparr>ck_name = ''DMARC'', ck_ok = False, ck_detail = ''lookup failed: '' @ exc\<rparr>
      | Inr records \<Rightarrow>
          (case filter (\<lambda>r. py_startswith (py_lower r) ''v=dmarc1'') records of
             r # _ \<Rightarrow> \<lparr>ck_name = ''DMARC'', ck_ok = True, ck_detail = take 120 r\<rparr>
           | [] \<Rightarrow> \<lparr>ck_name = ''DMARC'', ck_ok = False, ck_detail = ''no v=DMARC1 record at _dmarc''\<rparr>))"

fun contains_text :: "string \<Rightarrow> string \<Rightarrow> bool" where
  "contains_text needle [] = (needle = [])"
| "contains_text needle (c # cs) = (py_startswith (c # cs) needle \<or> contains_text needle cs)"

definition check_dkim :: "preflight_dns \<Rightarrow> string \<Rightarrow> string \<Rightarrow> check" where
  "check_dkim D domain selector =
     (let name = selector @ ''._domainkey.'' @ domain in
      case preflight_txt D name of
        Inl exc \<Rightarrow> \<lparr>ck_name = ''DKIM'', ck_ok = False, ck_detail = name @ '': '' @ exc\<rparr>
      | Inr records \<Rightarrow>
          (if filter (contains_text ''p='') records \<noteq> []
           then \<lparr>ck_name = ''DKIM'', ck_ok = True, ck_detail = name @ '' present''\<rparr>
           else \<lparr>ck_name = ''DKIM'', ck_ok = False, ck_detail = ''no key at '' @ name\<rparr>))"

definition check_mx :: "preflight_dns \<Rightarrow> string \<Rightarrow> check" where
  "check_mx D domain =
     (case pf_mx D domain of
        Inl exc \<Rightarrow> \<lparr>ck_name = ''MX'', ck_ok = True,
                     ck_detail = ''none '' @ [CHR 0xE2, CHR 0x80, CHR 0x94] @ '' expected for a send-only domain''\<rparr>
      | Inr n \<Rightarrow> \<lparr>ck_name = ''MX'', ck_ok = True,
                   ck_detail = show_int (int n) @ '' record(s) (optional for send-only)''\<rparr>)"

definition check_ptr :: "preflight_dns \<Rightarrow> string \<Rightarrow> check" where
  "check_ptr D ip =
     (case pf_ptr D ip of
        Inl exc \<Rightarrow> \<lparr>ck_name = ''PTR '' @ ip, ck_ok = False, ck_detail = ''no/failed PTR: '' @ exc\<rparr>
      | Inr host \<Rightarrow> \<lparr>ck_name = ''PTR '' @ ip, ck_ok = True,
                      ck_detail = py_rstrip_where (\<lambda>c. c = CHR ''.'') host\<rparr>)"

definition run_preflight :: "preflight_dns \<Rightarrow> settings \<Rightarrow> check list" where
  "run_preflight D st =
     (let domain = sending_domain st
      in [check_spf D domain, check_dkim D domain (dkim_selector st), check_dmarc D domain, check_mx D domain] @
         map (check_ptr D) (sending_ips_list st))"

section \<open>Lemmas\<close>

text \<open>
  The verdicts, whatever the lookups answer or raise: SPF and DMARC pass exactly when a record
  carries the version tag in any case, DKIM when one holds a key, and the MX check never warns.
\<close>

lemma spf_ok_iff:
  "ck_ok (check_spf D domain) \<longleftrightarrow>
     (\<exists>records. preflight_txt D domain = Inr records \<and> (\<exists>r \<in> set records. py_startswith (py_lower r) ''v=spf1''))"
  by (auto simp: check_spf_def filter_empty_conv split: sum.split list.split dest!: filter_eq_ConsD)

lemma dmarc_ok_iff:
  "ck_ok (check_dmarc D domain) \<longleftrightarrow>
     (\<exists>records. preflight_txt D (''_dmarc.'' @ domain) = Inr records \<and>
        (\<exists>r \<in> set records. py_startswith (py_lower r) ''v=dmarc1''))"
  by (auto simp: check_dmarc_def filter_empty_conv split: sum.split list.split dest!: filter_eq_ConsD)

lemma dkim_ok_iff:
  "ck_ok (check_dkim D domain selector) \<longleftrightarrow>
     (\<exists>records. preflight_txt D (selector @ ''._domainkey.'' @ domain) = Inr records \<and>
        (\<exists>r \<in> set records. contains_text ''p='' r))"
  by (auto simp: check_dkim_def Let_def filter_empty_conv split: sum.split)

lemma contains_text_iff: "contains_text needle s \<longleftrightarrow> (\<exists>a b. s = a @ needle @ b)"
proof (induction s)
  case (Cons c cs)
  have "(\<exists>a b. c # cs = a @ needle @ b) \<longleftrightarrow> (\<exists>b. c # cs = needle @ b) \<or> (\<exists>a b. cs = a @ needle @ b)"
    by (metis append_Cons append_Nil list.exhaust list.inject)
  moreover have "py_startswith (c # cs) needle \<longleftrightarrow> (\<exists>b. c # cs = needle @ b)"
    by (metis append_eq_conv_conj py_startswith_def)
  ultimately show ?case using Cons by simp
qed auto

end
