(* ===== verification/Routes.thy ===== *)
theory Routes
  imports System Auth Stats Preflight
begin

text \<open>
  The HTTP layer: the pages and forms of \<open>app/web\<close>, the public endpoints of \<open>app/api\<close>, and the
  guards of \<open>app/main.py\<close> and \<open>app/deps.py\<close> in front of them.  A request is a value with its
  parameters already parsed (a body the framework refuses never reaches a route); a route maps the
  site (decoded session cookie, committed database, jobs handed to the task queue) to a response and
  the site after it.  An exception is the response \<open>ServerError\<close>: the transaction is rolled back and the
  cookie is not rewritten.  A page is the data given to its template with the messages shown.  The
  random part of an API key, the salt of a hash, the parser of the browser's dates and the uploaded
  file's content are arguments; the em dash is written as its UTF-8 bytes.
\<close>

section \<open>Responses and the site\<close>

datatype page =
    LoginPage
  | ChangePasswordPage
  | DashboardPage dashboard "check list"
  | ListsPage "contact_list list"
  | ListPage contact_list "contact list" int int int
  | SearchPage string "search_hit list"
  | TemplatesPage "template list"
  | TemplateForm "template option" "template_validation option"
  | CampaignsPage "campaign list"
  | CampaignForm "campaign option" "contact_list list" "template list"
  | CampaignPage campaign progress presend "campaign_recipient list" int
  | PlannerPage grid_view "recurring_view list"
  | PlannerGrid grid_view
  | PlannerStatus monitor_view "(string \<times> json) list" "string list"
  | RecurringForm "campaign option" "template list" "contact_list list" "string list" "id set"
  | SettingsPage bool "string list" "api_key list"
  | UnsubscribeConfirmPage string "string option"
  | UnsubscribedPage bool "string option"

datatype response =
    Page page "string option" "(string \<times> string) list"
  | Redirect string
  | PreviewHtml string
  | PlacementJson bool "id option"
  | OkJson bool
  | StatusJson dashboard
  | ProgressJson progress
  | HealthJson
  | AcceptedJson
  | StatusCode int
  | ServerError exn

datatype job =
    PlannerJob
  | ImportJob id string bool
  | MaterializeJob id
  | WebhookJob json

record site =
  si_session :: web_session
  si_db :: db
  si_jobs :: "job list"

record web_app =
  wa_system :: system
  wa_now :: instant
  wa_redis :: redis
  wa_hasher :: hasher
  wa_salt :: string
  wa_token :: string
  wa_digest :: "string \<Rightarrow> string"
  wa_hmac :: "string \<Rightarrow> string \<Rightarrow> string"
  wa_decode :: "string \<Rightarrow> json option"
  wa_fromisoformat :: "string \<Rightarrow> (date \<times> int \<times> int \<times> int) option"
  wa_preflight :: "check list"

definition app_settings_of :: "web_app \<Rightarrow> settings" where
  "app_settings_of W = e_settings (y_env (wa_system W))"

definition em_dash :: string where
  "em_dash = [CHR 0xE2, CHR 0x80, CHR 0x94]"

text \<open>Rendering shows the waiting messages and takes them out of the session.\<close>

definition render_page :: "page \<Rightarrow> site \<Rightarrow> response \<times> site" where
  "render_page p s =
     (Page p (ss_email (si_session s)) (ss_flash (si_session s)),
      s\<lparr>si_session := (si_session s)\<lparr>ss_flash := []\<rparr>\<rparr>)"

definition flash_site :: "string \<Rightarrow> string \<Rightarrow> site \<Rightarrow> site" where
  "flash_site message category s = s\<lparr>si_session := flash message category (si_session s)\<rparr>"

definition flash_redirect :: "string \<Rightarrow> string \<Rightarrow> string \<Rightarrow> site \<Rightarrow> response \<times> site" where
  "flash_redirect message category path s = (Redirect path, flash_site message category s)"

definition commit_db :: "db \<Rightarrow> site \<Rightarrow> site" where
  "commit_db d s = s\<lparr>si_db := d\<rparr>"

definition enqueue_job :: "job \<Rightarrow> site \<Rightarrow> site" where
  "enqueue_job j s = s\<lparr>si_jobs := si_jobs s @ [j]\<rparr>"

definition path_id :: "string \<Rightarrow> id \<Rightarrow> string" where
  "path_id prefix i = prefix @ show_int i"

definition page_rows :: "int \<Rightarrow> nat" where
  "page_rows page = nat ((page - 1) * 50)"

section \<open>Login and password\<close>

definition login_form :: "site \<Rightarrow> response \<times> site" where
  "login_form s = (if logged_in (si_session s) then (Redirect ''/'', s) else render_page LoginPage s)"

definition login_route :: "web_app \<Rightarrow> string \<Rightarrow> string \<Rightarrow> site \<Rightarrow> response \<times> site" where
  "login_route W email password s =
     (case login (wa_hasher W) (si_db s) email password (si_session s) of
        (path, sess) \<Rightarrow> (Redirect path, s\<lparr>si_session := sess\<rparr>))"

definition logout_route :: "site \<Rightarrow> response \<times> site" where
  "logout_route s = (case logout (si_session s) of (path, sess) \<Rightarrow> (Redirect path, s\<lparr>si_session := sess\<rparr>))"

definition change_password_form :: "site \<Rightarrow> response \<times> site" where
  "change_password_form s = render_page ChangePasswordPage s"

definition change_password_route ::
  "web_app \<Rightarrow> user \<Rightarrow> string \<Rightarrow> string \<Rightarrow> string \<Rightarrow> site \<Rightarrow> response \<times> site" where
  "change_password_route W user current new confirm s =
     (case change_password (wa_hasher W) (wa_salt W) user current new confirm (si_session s) (si_db s) of
        ((path, sess), d) \<Rightarrow> (Redirect path, commit_db d (s\<lparr>si_session := sess\<rparr>)))"

section \<open>Dashboard and status API\<close>

definition dashboard_page :: "web_app \<Rightarrow> site \<Rightarrow> response \<times> site" where
  "dashboard_page W s =
     render_page (DashboardPage (dashboard_stats (app_settings_of W) (wa_now W) (wa_redis W) 20 (si_db s))
                    (wa_preflight W)) s"

text \<open>
  The two endpoints read; neither commits, so the time of use that \<open>verify_api_key\<close> notes on the
  key is rolled back with the session.
\<close>

definition status_route :: "web_app \<Rightarrow> string option \<Rightarrow> string option \<Rightarrow> site \<Rightarrow> response \<times> site" where
  "status_route W x_api_key authorization s =
     (case require_api_key (wa_digest W) (wa_now W) x_api_key authorization (si_db s) of
        (None, d) \<Rightarrow> (StatusCode 401, s)
      | (Some k, d) \<Rightarrow>
          (StatusJson (dashboard_stats (app_settings_of W) (wa_now W) (wa_redis W) 20 d), s))"

definition campaign_status_route ::
  "web_app \<Rightarrow> id \<Rightarrow> string option \<Rightarrow> string option \<Rightarrow> site \<Rightarrow> response \<times> site" where
  "campaign_status_route W campaign_id x_api_key authorization s =
     (case require_api_key (wa_digest W) (wa_now W) x_api_key authorization (si_db s) of
        (None, d) \<Rightarrow> (StatusCode 401, s)
      | (Some k, d) \<Rightarrow>
          (case get_campaign_row campaign_id d of
             None \<Rightarrow> (StatusCode 404, s) | Some c \<Rightarrow> (ProgressJson (campaign_progress c), s)))"

section \<open>Lists and contacts\<close>

definition lists_index :: "site \<Rightarrow> response \<times> site" where
  "lists_index s = render_page (ListsPage (list_lists (si_db s))) s"

text \<open>The job carries the uploaded file in place of its path.\<close>

definition upload_list ::
  "web_app \<Rightarrow> user \<Rightarrow> string \<Rightarrow> string option \<Rightarrow> string option \<Rightarrow> string \<Rightarrow> site \<Rightarrow> response \<times> site" where
  "upload_list W user name apply_free_filter filename content s =
     (case create_list (wa_now W) name None filename (Some (u_id user)) (si_db s) of
        (lst, d) \<Rightarrow>
          flash_redirect (''List uploaded '' @ em_dash @ '' importing and verifying in the background.'') ''success''
            (path_id ''/lists/'' (l_id lst))
            (enqueue_job (ImportJob (l_id lst) content (apply_free_filter \<noteq> None)) (commit_db d s)))"

definition list_detail :: "id \<Rightarrow> int \<Rightarrow> site \<Rightarrow> response \<times> site" where
  "list_detail list_id page_arg s =
     (case get_list_row list_id (si_db s) of
        None \<Rightarrow> flash_redirect ''List not found.'' ''error'' ''/lists'' s
      | Some lst \<Rightarrow>
          let page = max 1 page_arg;
              (rows, total) = list_contacts (si_db s) list_id (page_rows page) 50;
              pages = max 1 ((total + 50 - 1) div 50)
          in render_page (ListPage lst rows total page pages) s)"

definition add_contact_message :: "string \<Rightarrow> string \<times> string" where
  "add_contact_message reason =
     (if reason = ''added'' then (''Contact added.'', ''success'')
      else if reason = ''invalid'' then (''Invalid email address.'', ''error'')
      else if reason = ''duplicate'' then (''That email already exists in the system (not added).'', ''error'')
      else if reason = ''suppressed'' then (''That email is suppressed and cannot be added.'', ''error'')
      else (''Done.'', ''info''))"

definition add_contact_route ::
  "web_app \<Rightarrow> id \<Rightarrow> string \<Rightarrow> string \<Rightarrow> string \<Rightarrow> site \<Rightarrow> response \<times> site" where
  "add_contact_route W list_id email first_name last_name s =
     (case add_contact (y_validator (wa_system W)) list_id email (Some first_name) (Some last_name) (si_db s) of
        Inl e \<Rightarrow> (ServerError e, s)
      | Inr ((added, reason), d) \<Rightarrow>
          (case add_contact_message reason of
             (msg, cat) \<Rightarrow> flash_redirect msg cat (path_id ''/lists/'' list_id) (commit_db d s)))"

definition delete_list_route :: "id \<Rightarrow> site \<Rightarrow> response \<times> site" where
  "delete_list_route list_id s =
     (case delete_list list_id (si_db s) of
        Inl e \<Rightarrow> (ServerError e, s)
      | Inr (deleted, d) \<Rightarrow> flash_redirect ''List deleted.'' ''success'' ''/lists'' (commit_db d s))"

definition search_page :: "string \<Rightarrow> site \<Rightarrow> response \<times> site" where
  "search_page q s = render_page (SearchPage q (if q \<noteq> [] then search_contacts (si_db s) q 50 else [])) s"

definition search_remove :: "string \<Rightarrow> site \<Rightarrow> response \<times> site" where
  "search_remove email s =
     flash_redirect (email @ '' removed and suppressed globally.'') ''success'' (''/search?q='' @ email)
       (commit_db (snd (remove_and_suppress None email (si_db s))) s)"

definition suppress_add :: "string \<Rightarrow> site \<Rightarrow> response \<times> site" where
  "suppress_add email s =
     flash_redirect (email @ '' added to global suppression.'') ''success'' (''/search?q='' @ email)
       (commit_db (snd (suppress_only None email ''manual'' (si_db s))) s)"

section \<open>Templates\<close>

definition missing_link_created :: string where
  "missing_link_created = ''Template must include {{unsubscribe_url}} before it can be used.''"

definition missing_link_saved :: string where
  "missing_link_saved = ''Saved '' @ em_dash @ '' add {{unsubscribe_url}} before sending.''"

definition templates_index :: "site \<Rightarrow> response \<times> site" where
  "templates_index s = render_page (TemplatesPage (list_templates (si_db s))) s"

definition new_template :: "site \<Rightarrow> response \<times> site" where
  "new_template s = render_page (TemplateForm None None) s"

definition create_template_route ::
  "web_app \<Rightarrow> string \<Rightarrow> string \<Rightarrow> string \<Rightarrow> string \<Rightarrow> site \<Rightarrow> response \<times> site" where
  "create_template_route W name ty subject_default body s =
     (let s1 = (if tv_has_unsubscribe (validate_template body None) then s
                else flash_site missing_link_created ''error'' s)
      in case create_template (wa_now W) name ty (or_none subject_default) body (si_db s) of
           (tmpl, d) \<Rightarrow>
             flash_redirect ''Template created.'' ''success''
               (path_id ''/templates/'' (t_id tmpl) @ ''/edit'') (commit_db d s1))"

definition preview_template :: "web_app \<Rightarrow> string \<Rightarrow> string \<Rightarrow> site \<Rightarrow> response \<times> site" where
  "preview_template W ty body s =
     (let E = y_env (wa_system W);
          html = (ty = ''html'');
          rendered = preview (e_rep E) (e_esc E) body html
      in (PreviewHtml (if html then rendered
                       else ''<pre style='' @ [CHR 0x27] @ ''white-space:pre-wrap'' @ [CHR 0x27] @ ''>'' @
                            e_esc E rendered @ ''</pre>''), s))"

definition edit_template :: "id \<Rightarrow> site \<Rightarrow> response \<times> site" where
  "edit_template template_id s =
     (case get_template (si_db s) template_id of
        None \<Rightarrow> flash_redirect ''Template not found.'' ''error'' ''/templates'' s
      | Some tmpl \<Rightarrow> render_page (TemplateForm (Some tmpl) (Some (validate_template (t_body tmpl) None))) s)"

definition update_template_route ::
  "web_app \<Rightarrow> id \<Rightarrow> string \<Rightarrow> string \<Rightarrow> string \<Rightarrow> string \<Rightarrow> site \<Rightarrow> response \<times> site" where
  "update_template_route W template_id name ty subject_default body s =
     (let s1 = commit_db (snd (update_template (wa_now W) template_id (Some name) (Some ty)
                                 (or_none subject_default) (Some body) (si_db s))) s;
          path = path_id ''/templates/'' template_id @ ''/edit''
      in if tv_has_unsubscribe (validate_template body None)
         then flash_redirect ''Template saved.'' ''success'' path s1
         else flash_redirect missing_link_saved ''error'' path s1)"

definition delete_template_route :: "id \<Rightarrow> site \<Rightarrow> response \<times> site" where
  "delete_template_route template_id s =
     (case delete_template template_id (si_db s) of
        Inl e \<Rightarrow> (ServerError e, s)
      | Inr (deleted, d) \<Rightarrow> flash_redirect ''Template deleted.'' ''success'' ''/templates'' (commit_db d s))"

section \<open>Campaigns\<close>

text \<open>
  \<open>fromisoformat\<close> gives the local date, hour, minute and the microseconds after the minute; any
  offset in the text is replaced by the application's zone, and an unknown zone raises.
\<close>

definition parse_local_dt :: "web_app \<Rightarrow> string \<Rightarrow> exn + instant option" where
  "parse_local_dt W v =
     (if v = [] then Inr None
      else case wa_fromisoformat W v of
        None \<Rightarrow> Inr None
      | Some (d, h, m, us) \<Rightarrow>
          (case y_zones (wa_system W) (app_timezone (app_settings_of W)) of
             None \<Rightarrow> Inl KeyError
           | Some z \<Rightarrow> Inr (Some (z_to_utc z d h m + us))))"

definition campaigns_index :: "site \<Rightarrow> response \<times> site" where
  "campaigns_index s = render_page (CampaignsPage (list_campaigns (si_db s))) s"

definition new_campaign :: "site \<Rightarrow> response \<times> site" where
  "new_campaign s = render_page (CampaignForm None (list_lists (si_db s)) (list_templates (si_db s))) s"

record campaign_form =
  cf_name :: string
  cf_subject :: string
  cf_from_name :: string
  cf_from_email :: string
  cf_reply_to :: string
  cf_list_id :: "id option"
  cf_template_id :: "id option"
  cf_ip_pool :: string

definition form_fields :: "campaign_form \<Rightarrow> campaign_fields" where
  "form_fields f =
     \<lparr>f_name = Some (cf_name f), f_subject = Some (cf_subject f), f_from_name = Some (cf_from_name f),
      f_from_email = Some (cf_from_email f), f_reply_to = Some (cf_reply_to f),
      f_template_id = cf_template_id f, f_list_id = cf_list_id f, f_ip_pool = or_none (cf_ip_pool f)\<rparr>"

definition created_fields :: "settings \<Rightarrow> campaign_form \<Rightarrow> campaign_fields" where
  "created_fields st f =
     (form_fields f)\<lparr>f_from_name := Some (or_default (Some (cf_from_name f)) (default_from_name st)),
                     f_from_email := Some (or_default (Some (cf_from_email f)) (default_from_email st))\<rparr>"

definition create_campaign_route :: "web_app \<Rightarrow> campaign_form \<Rightarrow> site \<Rightarrow> response \<times> site" where
  "create_campaign_route W f s =
     (case create_campaign (app_settings_of W) (wa_now W) (created_fields (app_settings_of W) f) (si_db s) of
        Inl e \<Rightarrow> (ServerError e, s)
      | Inr (c, d) \<Rightarrow> flash_redirect ''Campaign created as draft.'' ''success'' (path_id ''/campaigns/'' (c_id c))
                       (commit_db d s))"

definition campaign_detail :: "web_app \<Rightarrow> id \<Rightarrow> int \<Rightarrow> site \<Rightarrow> response \<times> site" where
  "campaign_detail W campaign_id page_arg s =
     (case get_campaign_row campaign_id (si_db s) of
        None \<Rightarrow> flash_redirect ''Campaign not found.'' ''error'' ''/campaigns'' s
      | Some c \<Rightarrow>
          let page = max 1 page_arg;
              rows = take 50 (drop (page_rows page)
                (sort_key cr_id (filter (\<lambda>r. cr_campaign_id r = campaign_id) (recipients (si_db s)))))
          in render_page (CampaignPage c (campaign_progress c)
               (presend_summary (y_validator (wa_system W)) (app_settings_of W) (si_db s) c) rows page) s)"

definition edit_campaign :: "id \<Rightarrow> site \<Rightarrow> response \<times> site" where
  "edit_campaign campaign_id s =
     (case get_campaign_row campaign_id (si_db s) of
        None \<Rightarrow> flash_redirect ''Campaign not found.'' ''error'' ''/campaigns'' s
      | Some c \<Rightarrow> render_page (CampaignForm (Some c) (list_lists (si_db s)) (list_templates (si_db s))) s)"

definition update_campaign_route :: "id \<Rightarrow> campaign_form \<Rightarrow> site \<Rightarrow> response \<times> site" where
  "update_campaign_route campaign_id f s =
     (let path = path_id ''/campaigns/'' campaign_id in
      case update_campaign campaign_id (form_fields f) (si_db s) of
        Inl e \<Rightarrow> (ServerError e, s)
      | Inr (None, d) \<Rightarrow>
          flash_redirect ''Only draft/scheduled campaigns can be edited.'' ''error'' path (commit_db d s)
      | Inr (Some c, d) \<Rightarrow> flash_redirect ''Campaign updated.'' ''success'' path (commit_db d s))"

definition schedule_campaign ::
  "web_app \<Rightarrow> id \<Rightarrow> string \<Rightarrow> string option \<Rightarrow> site \<Rightarrow> response \<times> site" where
  "schedule_campaign W campaign_id scheduled_at send_now s =
     (let path = path_id ''/campaigns/'' campaign_id in
      case get_campaign_row campaign_id (si_db s) of
        None \<Rightarrow> flash_redirect ''Campaign not found.'' ''error'' ''/campaigns'' s
      | Some c \<Rightarrow>
          (case (if send_now \<noteq> None then Inr (Some (wa_now W)) else parse_local_dt W scheduled_at) of
             Inl e \<Rightarrow> (ServerError e, s)
           | Inr None \<Rightarrow> flash_redirect ''Pick a valid send date/time.'' ''error'' path s
           | Inr (Some w) \<Rightarrow>
               (case schedule (y_validator (wa_system W)) (app_settings_of W) c w (si_db s) of
                  (errors, d) \<Rightarrow>
                    if errors \<noteq> [] then (Redirect path, fold (\<lambda>err. flash_site err ''error'') errors (commit_db d s))
                    else flash_redirect ''Campaign scheduled. Dispatch runs within ~1 minute.'' ''success'' path
                           (commit_db d s))))"

definition pause_campaign :: "id \<Rightarrow> site \<Rightarrow> response \<times> site" where
  "pause_campaign campaign_id s =
     (let path = path_id ''/campaigns/'' campaign_id in
      case with_campaign pause campaign_id (si_db s) of
        (True, d) \<Rightarrow> flash_redirect ''Campaign paused.'' ''success'' path (commit_db d s)
      | (False, d) \<Rightarrow> flash_redirect ''Campaign cannot be paused in its current state.'' ''error'' path s)"

definition resume_campaign :: "id \<Rightarrow> site \<Rightarrow> response \<times> site" where
  "resume_campaign campaign_id s =
     (let path = path_id ''/campaigns/'' campaign_id in
      case with_campaign resume campaign_id (si_db s) of
        (True, d) \<Rightarrow> flash_redirect ''Campaign resumed.'' ''success'' path
                       (enqueue_job (MaterializeJob campaign_id) (commit_db d s))
      | (False, d) \<Rightarrow> flash_redirect ''Only a paused campaign can be resumed.'' ''error'' path s)"

definition cancel_campaign :: "id \<Rightarrow> site \<Rightarrow> response \<times> site" where
  "cancel_campaign campaign_id s =
     (let path = path_id ''/campaigns/'' campaign_id in
      case with_campaign cancel campaign_id (si_db s) of
        (True, d) \<Rightarrow> flash_redirect ''Campaign cancelled.'' ''success'' path (commit_db d s)
      | (False, d) \<Rightarrow> flash_redirect ''Campaign cannot be cancelled.'' ''error'' path s)"

definition duplicate_campaign_route :: "web_app \<Rightarrow> id \<Rightarrow> site \<Rightarrow> response \<times> site" where
  "duplicate_campaign_route W campaign_id s =
     (case duplicate_campaign (wa_now W) campaign_id (si_db s) of
        Inl e \<Rightarrow> (ServerError e, s)
      | Inr (None, d) \<Rightarrow> flash_redirect ''Campaign not found.'' ''error'' ''/campaigns'' (commit_db d s)
      | Inr (Some dup, d) \<Rightarrow>
          flash_redirect ''Campaign duplicated as a new draft.'' ''success'' (path_id ''/campaigns/'' (c_id dup))
            (commit_db d s))"

definition delete_campaign_route :: "id \<Rightarrow> site \<Rightarrow> response \<times> site" where
  "delete_campaign_route campaign_id s =
     (case delete_campaign campaign_id (si_db s) of
        (True, d) \<Rightarrow> flash_redirect ''Campaign deleted.'' ''success'' ''/campaigns'' (commit_db d s)
      | (False, d) \<Rightarrow> flash_redirect ''Cancel the campaign before deleting it.'' ''error''
                         (path_id ''/campaigns/'' campaign_id) (commit_db d s))"

section \<open>Planner\<close>

definition common_timezones :: "string list" where
  "common_timezones = [
     ''Europe/Tirana'', ''Europe/Berlin'', ''Europe/London'', ''Europe/Madrid'',
     ''America/New_York'', ''America/Chicago'', ''America/Denver'', ''America/Los_Angeles'',
     ''America/Toronto'', ''Australia/Sydney'', ''Asia/Dubai'', ''UTC'']"

definition planner_page :: "web_app \<Rightarrow> site \<Rightarrow> response \<times> site" where
  "planner_page W s =
     (case grid (wa_now W) (si_db s) of
        Inl e \<Rightarrow> (ServerError e, s)
      | Inr g \<Rightarrow> (case recurring_campaigns (wa_now W) (si_db s) of
                    Inl e \<Rightarrow> (ServerError e, s) | Inr cs \<Rightarrow> render_page (PlannerPage g cs) s))"

definition planner_grid_fragment :: "web_app \<Rightarrow> site \<Rightarrow> response \<times> site" where
  "planner_grid_fragment W s =
     (case grid (wa_now W) (si_db s) of Inl e \<Rightarrow> (ServerError e, s) | Inr g \<Rightarrow> render_page (PlannerGrid g) s)"

definition planner_status :: "web_app \<Rightarrow> site \<Rightarrow> response \<times> site" where
  "planner_status W s =
     (case monitor (wa_now W) (wa_redis W) (si_db s) of
        Inl e \<Rightarrow> (ServerError e, s)
      | Inr m \<Rightarrow> render_page (PlannerStatus m (get_planner_config (si_db s)) common_timezones) s)"

definition update_planner_config_route ::
  "int \<Rightarrow> int \<Rightarrow> int \<Rightarrow> int \<Rightarrow> int \<Rightarrow> int \<Rightarrow> int \<Rightarrow> string \<Rightarrow> site \<Rightarrow> response \<times> site" where
  "update_planner_config_route ramp1 ramp2 ramp3 ramp4 warming_full send_rate interval policy s =
     (case update_planner_config ramp1 ramp2 ramp3 ramp4 warming_full send_rate interval policy (si_db s) of
        Inl e \<Rightarrow> (ServerError e, s)
      | Inr d \<Rightarrow> flash_redirect ''Planner & warming settings saved.'' ''success'' ''/planner/status'' (commit_db d s))"

definition warmed_since_of :: "web_app \<Rightarrow> string \<Rightarrow> instant option" where
  "warmed_since_of W v =
     (if v = [] then None
      else map_option (\<lambda>(d, h, m, us). z_to_utc utc_zone d h m + us) (wa_fromisoformat W v))"

definition set_warming_ip_route ::
  "web_app \<Rightarrow> string \<Rightarrow> string \<Rightarrow> string \<Rightarrow> site \<Rightarrow> response \<times> site" where
  "set_warming_ip_route W ip pool warmed_since s =
     flash_redirect (''Warming start set for '' @ ip @ ''.'') ''success'' ''/planner/status''
       (commit_db (set_warming_ip (wa_now W) ip pool (warmed_since_of W warmed_since) (si_db s)) s)"

definition delete_warming_ip_route :: "string \<Rightarrow> site \<Rightarrow> response \<times> site" where
  "delete_warming_ip_route ip s =
     flash_redirect (''Removed warming state for '' @ ip @ ''.'') ''success'' ''/planner/status''
       (commit_db (delete_warming_ip ip (si_db s)) s)"

definition add_placement_route :: "id \<Rightarrow> int \<Rightarrow> int \<Rightarrow> site \<Rightarrow> response \<times> site" where
  "add_placement_route campaign_id wk wd s =
     (case add_placement campaign_id wk wd (si_db s) of
        Inl e \<Rightarrow> (ServerError e, s)
      | Inr (pid, d) \<Rightarrow> (PlacementJson (pid \<noteq> None) pid, enqueue_job PlannerJob (commit_db d s)))"

definition move_placement_route :: "id \<Rightarrow> int \<Rightarrow> int \<Rightarrow> site \<Rightarrow> response \<times> site" where
  "move_placement_route placement_id wk wd s =
     (case move_placement placement_id wk wd (si_db s) of
        (ok, d) \<Rightarrow> (OkJson ok, enqueue_job PlannerJob (commit_db d s)))"

definition delete_placement :: "id \<Rightarrow> site \<Rightarrow> response \<times> site" where
  "delete_placement placement_id s =
     (case remove_placement placement_id (si_db s) of (ok, d) \<Rightarrow> (OkJson ok, commit_db d s))"

section \<open>Recurring campaigns\<close>

record recurring_form =
  rf_name :: string
  rf_subject :: string
  rf_from_name :: string
  rf_from_email :: string
  rf_reply_to :: string
  rf_template_id :: "id option"
  rf_list_ids :: "id list"
  rf_send_time :: string
  rf_send_timezone :: string
  rf_ip_pool :: string

definition recurring_form_fields :: "recurring_form \<Rightarrow> recurring_fields" where
  "recurring_form_fields f =
     \<lparr>f_name = Some (rf_name f), f_subject = Some (rf_subject f), f_from_name = Some (rf_from_name f),
      f_from_email = Some (rf_from_email f), f_reply_to = Some (rf_reply_to f),
      f_template_id = rf_template_id f, f_list_id = None, f_ip_pool = or_none (rf_ip_pool f),
      f_send_time = Some (rf_send_time f), f_send_timezone = Some (rf_send_timezone f)\<rparr>"

definition form_context :: "db \<Rightarrow> campaign option \<Rightarrow> page" where
  "form_context d campaign =
     RecurringForm campaign (list_templates d) (list_lists d) common_timezones
       (case campaign of None \<Rightarrow> {} | Some c \<Rightarrow> set (get_campaign_list_ids d (c_id c)))"

definition new_recurring :: "site \<Rightarrow> response \<times> site" where
  "new_recurring s = render_page (form_context (si_db s) None) s"

definition create_recurring_route :: "web_app \<Rightarrow> recurring_form \<Rightarrow> site \<Rightarrow> response \<times> site" where
  "create_recurring_route W f s =
     (case create_recurring (wa_now W) (rf_list_ids f) (recurring_form_fields f) (si_db s) of
        Inl e \<Rightarrow> (ServerError e, s)
      | Inr (camp, d) \<Rightarrow>
          flash_redirect (''Service campaign '' @ [CHR 0x27] @ c_name camp @ [CHR 0x27] @ '' created '' @ em_dash @
                          '' drag it onto the planner.'') ''success'' ''/planner'' (commit_db d s))"

definition edit_recurring :: "id \<Rightarrow> site \<Rightarrow> response \<times> site" where
  "edit_recurring campaign_id s =
     (case get_campaign_row campaign_id (si_db s) of
        None \<Rightarrow> flash_redirect ''Service campaign not found.'' ''error'' ''/planner'' s
      | Some c \<Rightarrow>
          if \<not> c_is_planner c then flash_redirect ''Service campaign not found.'' ''error'' ''/planner'' s
          else render_page (form_context (si_db s) (Some c)) s)"

definition update_recurring_route :: "id \<Rightarrow> recurring_form \<Rightarrow> site \<Rightarrow> response \<times> site" where
  "update_recurring_route campaign_id f s =
     (case update_recurring campaign_id (Some (rf_list_ids f)) (recurring_form_fields f) (si_db s) of
        Inl e \<Rightarrow> (ServerError e, s)
      | Inr (c, d) \<Rightarrow> flash_redirect ''Service campaign updated.'' ''success'' ''/planner'' (commit_db d s))"

definition delete_recurring_route :: "id \<Rightarrow> site \<Rightarrow> response \<times> site" where
  "delete_recurring_route campaign_id s =
     flash_redirect ''Service campaign deleted.'' ''success'' ''/planner''
       (commit_db (snd (delete_recurring campaign_id (si_db s))) s)"

section \<open>Settings\<close>

definition settings_page :: "web_app \<Rightarrow> site \<Rightarrow> response \<times> site" where
  "settings_page W s =
     (case get_free_provider_config (app_settings_of W) (si_db s) of
        Inl e \<Rightarrow> (ServerError e, s)
      | Inr (enabled, domains) \<Rightarrow>
          render_page (SettingsPage enabled domains (list_api_keys (si_db s))) s)"

text \<open>\<open>domains.replace(",", "\n").splitlines()\<close>, without the blank lines.\<close>

definition form_domains :: "string \<Rightarrow> string list" where
  "form_domains domains =
     filter (\<lambda>x. x \<noteq> [])
       (map py_strip (py_splitlines [] (map (\<lambda>c. if c = CHR '','' then CHR 0x0A else c) domains)))"

definition update_free_provider :: "string option \<Rightarrow> string \<Rightarrow> site \<Rightarrow> response \<times> site" where
  "update_free_provider enabled domains s =
     flash_redirect ''Free-provider filter updated.'' ''success'' ''/settings''
       (commit_db (set_free_provider_config (enabled \<noteq> None) (form_domains domains) (si_db s)) s)"

definition create_api_key_route :: "web_app \<Rightarrow> string \<Rightarrow> site \<Rightarrow> response \<times> site" where
  "create_api_key_route W name s =
     (case create_api_key (wa_digest W) (wa_token W) (wa_now W) name (si_db s) of
        Inl e \<Rightarrow> (ServerError e, s)
      | Inr ((k, plaintext), d) \<Rightarrow>
          flash_redirect (''API key created. Copy it now '' @ em_dash @ '' it won'' @ [CHR 0x27] @
                          ''t be shown again: '' @ plaintext) ''success'' ''/settings'' (commit_db d s))"

definition revoke_api_key_route :: "id \<Rightarrow> site \<Rightarrow> response \<times> site" where
  "revoke_api_key_route key_id s =
     flash_redirect ''API key revoked.'' ''success'' ''/settings'' (commit_db (snd (revoke_api_key key_id (si_db s))) s)"

section \<open>Public endpoints\<close>

definition unsubscribe_confirm_route :: "web_app \<Rightarrow> string \<Rightarrow> site \<Rightarrow> response \<times> site" where
  "unsubscribe_confirm_route W token s =
     render_page (UnsubscribeConfirmPage token (unsubscribe_confirm (y_loads (wa_system W)) token)) s"

definition unsubscribe_route :: "web_app \<Rightarrow> string \<Rightarrow> site \<Rightarrow> response \<times> site" where
  "unsubscribe_route W token s =
     (case unsubscribe (y_loads (wa_system W)) None token (si_db s) of
        ((ok, email), d) \<Rightarrow> render_page (UnsubscribedPage ok email) (commit_db d s))"

definition postal_webhook_route ::
  "web_app \<Rightarrow> string \<Rightarrow> string option \<Rightarrow> string option \<Rightarrow> string option \<Rightarrow> site \<Rightarrow> response \<times> site" where
  "postal_webhook_route W raw signature_header secret_header query_token s =
     (case postal_webhook (wa_hmac W) (wa_decode W) (app_settings_of W) raw signature_header secret_header query_token of
        Inl e \<Rightarrow> (ServerError e, s)
      | Inr (code, None) \<Rightarrow> (StatusCode code, s)
      | Inr (code, Some body) \<Rightarrow> (AcceptedJson, enqueue_job (WebhookJob body) s))"

section \<open>Requests\<close>

datatype public_request =
    Get_Login
  | Post_Login string string
  | Get_Logout
  | Get_Status "string option" "string option"
  | Get_Campaign_Status id "string option" "string option"
  | Get_Unsubscribe string
  | Post_Unsubscribe string
  | Post_Webhook string "string option" "string option" "string option"
  | Get_Health

datatype list_request =
    Get_Lists
  | Upload_List string "string option" "string option" string
  | Get_List id int
  | Add_Contact id string string string
  | Delete_List id
  | Get_Search string
  | Search_Remove string
  | Suppress_Add string

datatype template_request =
    Get_Templates
  | New_Template
  | Create_Template string string string string
  | Preview_Template string string
  | Edit_Template id
  | Update_Template id string string string string
  | Delete_Template id

datatype campaign_request =
    Get_Campaigns
  | New_Campaign
  | Create_Campaign campaign_form
  | Get_Campaign id int
  | Edit_Campaign id
  | Update_Campaign id campaign_form
  | Schedule_Campaign id string "string option"
  | Pause_Campaign id
  | Resume_Campaign id
  | Cancel_Campaign id
  | Duplicate_Campaign id
  | Delete_Campaign id

datatype planner_request =
    Get_Planner
  | Get_Planner_Grid
  | Get_Planner_Status
  | Update_Planner_Config int int int int int int int string
  | Set_Warming_Ip string string string
  | Delete_Warming_Ip string
  | Add_Placement id int int
  | Move_Placement id int int
  | Delete_Placement id
  | New_Recurring
  | Create_Recurring recurring_form
  | Edit_Recurring id
  | Update_Recurring id recurring_form
  | Delete_Recurring id

datatype settings_request =
    Get_Settings
  | Update_Free_Provider "string option" string
  | Create_Api_Key string
  | Revoke_Api_Key id

datatype user_request =
    Post_Change_Password string string string
  | Get_Dashboard
  | On_List list_request
  | On_Template template_request
  | On_Campaign campaign_request
  | On_Planner planner_request
  | On_Settings settings_request

datatype http_request =
    Public public_request
  | Change_Password_Form
  | Authenticated user_request

primrec public_path :: "public_request \<Rightarrow> string" where
  "public_path Get_Login = ''/login''"
| "public_path (Post_Login _ _) = ''/login''"
| "public_path Get_Logout = ''/logout''"
| "public_path (Get_Status _ _) = ''/api/status''"
| "public_path (Get_Campaign_Status i _ _) = path_id ''/api/campaigns/'' i"
| "public_path (Get_Unsubscribe token) = ''/u/'' @ token"
| "public_path (Post_Unsubscribe token) = ''/u/'' @ token"
| "public_path (Post_Webhook _ _ _ _) = ''/webhooks/postal''"
| "public_path Get_Health = ''/healthz''"

primrec list_path :: "list_request \<Rightarrow> string" where
  "list_path Get_Lists = ''/lists''"
| "list_path (Upload_List _ _ _ _) = ''/lists/upload''"
| "list_path (Get_List i _) = path_id ''/lists/'' i"
| "list_path (Add_Contact i _ _ _) = path_id ''/lists/'' i @ ''/contacts''"
| "list_path (Delete_List i) = path_id ''/lists/'' i @ ''/delete''"
| "list_path (Get_Search _) = ''/search''"
| "list_path (Search_Remove _) = ''/search/remove''"
| "list_path (Suppress_Add _) = ''/suppress/add''"

primrec template_path :: "template_request \<Rightarrow> string" where
  "template_path Get_Templates = ''/templates''"
| "template_path New_Template = ''/templates/new''"
| "template_path (Create_Template _ _ _ _) = ''/templates''"
| "template_path (Preview_Template _ _) = ''/templates/preview''"
| "template_path (Edit_Template i) = path_id ''/templates/'' i @ ''/edit''"
| "template_path (Update_Template i _ _ _ _) = path_id ''/templates/'' i"
| "template_path (Delete_Template i) = path_id ''/templates/'' i @ ''/delete''"

primrec campaign_path :: "campaign_request \<Rightarrow> string" where
  "campaign_path Get_Campaigns = ''/campaigns''"
| "campaign_path New_Campaign = ''/campaigns/new''"
| "campaign_path (Create_Campaign _) = ''/campaigns''"
| "campaign_path (Get_Campaign i _) = path_id ''/campaigns/'' i"
| "campaign_path (Edit_Campaign i) = path_id ''/campaigns/'' i @ ''/edit''"
| "campaign_path (Update_Campaign i _) = path_id ''/campaigns/'' i"
| "campaign_path (Schedule_Campaign i _ _) = path_id ''/campaigns/'' i @ ''/schedule''"
| "campaign_path (Pause_Campaign i) = path_id ''/campaigns/'' i @ ''/pause''"
| "campaign_path (Resume_Campaign i) = path_id ''/campaigns/'' i @ ''/resume''"
| "campaign_path (Cancel_Campaign i) = path_id ''/campaigns/'' i @ ''/cancel''"
| "campaign_path (Duplicate_Campaign i) = path_id ''/campaigns/'' i @ ''/duplicate''"
| "campaign_path (Delete_Campaign i) = path_id ''/campaigns/'' i @ ''/delete''"

primrec planner_path :: "planner_request \<Rightarrow> string" where
  "planner_path Get_Planner = ''/planner''"
| "planner_path Get_Planner_Grid = ''/planner/grid''"
| "planner_path Get_Planner_Status = ''/planner/status''"
| "planner_path (Update_Planner_Config _ _ _ _ _ _ _ _) = ''/planner/config''"
| "planner_path (Set_Warming_Ip _ _ _) = ''/planner/warming/ip''"
| "planner_path (Delete_Warming_Ip ip) = ''/planner/warming/ip/'' @ ip @ ''/delete''"
| "planner_path (Add_Placement _ _ _) = ''/planner/placements''"
| "planner_path (Move_Placement i _ _) = path_id ''/planner/placements/'' i @ ''/move''"
| "planner_path (Delete_Placement i) = path_id ''/planner/placements/'' i @ ''/delete''"
| "planner_path New_Recurring = ''/planner/campaigns/new''"
| "planner_path (Create_Recurring _) = ''/planner/campaigns''"
| "planner_path (Edit_Recurring i) = path_id ''/planner/campaigns/'' i @ ''/edit''"
| "planner_path (Update_Recurring i _) = path_id ''/planner/campaigns/'' i"
| "planner_path (Delete_Recurring i) = path_id ''/planner/campaigns/'' i @ ''/delete''"

primrec settings_path :: "settings_request \<Rightarrow> string" where
  "settings_path Get_Settings = ''/settings''"
| "settings_path (Update_Free_Provider _ _) = ''/settings/free-provider''"
| "settings_path (Create_Api_Key _) = ''/settings/api-keys''"
| "settings_path (Revoke_Api_Key i) = path_id ''/settings/api-keys/'' i @ ''/revoke''"

primrec user_path :: "user_request \<Rightarrow> string" where
  "user_path (Post_Change_Password _ _ _) = ''/change-password''"
| "user_path Get_Dashboard = ''/''"
| "user_path (On_List q) = list_path q"
| "user_path (On_Template q) = template_path q"
| "user_path (On_Campaign q) = campaign_path q"
| "user_path (On_Planner q) = planner_path q"
| "user_path (On_Settings q) = settings_path q"

primrec path_of :: "http_request \<Rightarrow> string" where
  "path_of (Public q) = public_path q"
| "path_of Change_Password_Form = ''/change-password''"
| "path_of (Authenticated q) = user_path q"

section \<open>Dispatch\<close>

primrec serve_public :: "web_app \<Rightarrow> public_request \<Rightarrow> site \<Rightarrow> response \<times> site" where
  "serve_public W Get_Login s = login_form s"
| "serve_public W (Post_Login email password) s = login_route W email password s"
| "serve_public W Get_Logout s = logout_route s"
| "serve_public W (Get_Status key authorization) s = status_route W key authorization s"
| "serve_public W (Get_Campaign_Status i key authorization) s = campaign_status_route W i key authorization s"
| "serve_public W (Get_Unsubscribe token) s = unsubscribe_confirm_route W token s"
| "serve_public W (Post_Unsubscribe token) s = unsubscribe_route W token s"
| "serve_public W (Post_Webhook raw sig secret token) s = postal_webhook_route W raw sig secret token s"
| "serve_public W Get_Health s = (HealthJson, s)"

primrec serve_list :: "web_app \<Rightarrow> user \<Rightarrow> list_request \<Rightarrow> site \<Rightarrow> response \<times> site" where
  "serve_list W u Get_Lists s = lists_index s"
| "serve_list W u (Upload_List name free filename content) s = upload_list W u name free filename content s"
| "serve_list W u (Get_List i page) s = list_detail i page s"
| "serve_list W u (Add_Contact i email first_name last_name) s =
     add_contact_route W i email first_name last_name s"
| "serve_list W u (Delete_List i) s = delete_list_route i s"
| "serve_list W u (Get_Search q) s = search_page q s"
| "serve_list W u (Search_Remove email) s = search_remove email s"
| "serve_list W u (Suppress_Add email) s = suppress_add email s"

primrec serve_template :: "web_app \<Rightarrow> template_request \<Rightarrow> site \<Rightarrow> response \<times> site" where
  "serve_template W Get_Templates s = templates_index s"
| "serve_template W New_Template s = new_template s"
| "serve_template W (Create_Template name ty subj body) s = create_template_route W name ty subj body s"
| "serve_template W (Preview_Template ty body) s = preview_template W ty body s"
| "serve_template W (Edit_Template i) s = edit_template i s"
| "serve_template W (Update_Template i name ty subj body) s = update_template_route W i name ty subj body s"
| "serve_template W (Delete_Template i) s = delete_template_route i s"

primrec serve_campaign :: "web_app \<Rightarrow> campaign_request \<Rightarrow> site \<Rightarrow> response \<times> site" where
  "serve_campaign W Get_Campaigns s = campaigns_index s"
| "serve_campaign W New_Campaign s = new_campaign s"
| "serve_campaign W (Create_Campaign f) s = create_campaign_route W f s"
| "serve_campaign W (Get_Campaign i page) s = campaign_detail W i page s"
| "serve_campaign W (Edit_Campaign i) s = edit_campaign i s"
| "serve_campaign W (Update_Campaign i f) s = update_campaign_route i f s"
| "serve_campaign W (Schedule_Campaign i at_text now_flag) s = schedule_campaign W i at_text now_flag s"
| "serve_campaign W (Pause_Campaign i) s = pause_campaign i s"
| "serve_campaign W (Resume_Campaign i) s = resume_campaign i s"
| "serve_campaign W (Cancel_Campaign i) s = cancel_campaign i s"
| "serve_campaign W (Duplicate_Campaign i) s = duplicate_campaign_route W i s"
| "serve_campaign W (Delete_Campaign i) s = delete_campaign_route i s"

primrec serve_planner :: "web_app \<Rightarrow> planner_request \<Rightarrow> site \<Rightarrow> response \<times> site" where
  "serve_planner W Get_Planner s = planner_page W s"
| "serve_planner W Get_Planner_Grid s = planner_grid_fragment W s"
| "serve_planner W Get_Planner_Status s = planner_status W s"
| "serve_planner W (Update_Planner_Config a b c d full rate interval policy) s =
     update_planner_config_route a b c d full rate interval policy s"
| "serve_planner W (Set_Warming_Ip ip pool since) s = set_warming_ip_route W ip pool since s"
| "serve_planner W (Delete_Warming_Ip ip) s = delete_warming_ip_route ip s"
| "serve_planner W (Add_Placement i wk wd) s = add_placement_route i wk wd s"
| "serve_planner W (Move_Placement i wk wd) s = move_placement_route i wk wd s"
| "serve_planner W (Delete_Placement i) s = delete_placement i s"
| "serve_planner W New_Recurring s = new_recurring s"
| "serve_planner W (Create_Recurring f) s = create_recurring_route W f s"
| "serve_planner W (Edit_Recurring i) s = edit_recurring i s"
| "serve_planner W (Update_Recurring i f) s = update_recurring_route i f s"
| "serve_planner W (Delete_Recurring i) s = delete_recurring_route i s"

primrec serve_settings :: "web_app \<Rightarrow> settings_request \<Rightarrow> site \<Rightarrow> response \<times> site" where
  "serve_settings W Get_Settings s = settings_page W s"
| "serve_settings W (Update_Free_Provider enabled domains) s = update_free_provider enabled domains s"
| "serve_settings W (Create_Api_Key name) s = create_api_key_route W name s"
| "serve_settings W (Revoke_Api_Key i) s = revoke_api_key_route i s"

primrec serve_user :: "web_app \<Rightarrow> user \<Rightarrow> user_request \<Rightarrow> site \<Rightarrow> response \<times> site" where
  "serve_user W u (Post_Change_Password current new confirm) s = change_password_route W u current new confirm s"
| "serve_user W u Get_Dashboard s = dashboard_page W s"
| "serve_user W u (On_List q) s = serve_list W u q s"
| "serve_user W u (On_Template q) s = serve_template W q s"
| "serve_user W u (On_Campaign q) s = serve_campaign W q s"
| "serve_user W u (On_Planner q) s = serve_planner W q s"
| "serve_user W u (On_Settings q) s = serve_settings W q s"

text \<open>The middleware first, then the dependency of the route, then the route.\<close>

definition serve :: "web_app \<Rightarrow> http_request \<Rightarrow> site \<Rightarrow> response \<times> site" where
  "serve W q s =
     (case auth_guard (path_of q) (si_session s) of
        RedirectTo path \<Rightarrow> (Redirect path, s)
      | Pass \<Rightarrow>
          (case q of
             Public p \<Rightarrow> serve_public W p s
           | Change_Password_Form \<Rightarrow> change_password_form s
           | Authenticated r \<Rightarrow>
               (case current_user (si_session s) (si_db s) of
                  None \<Rightarrow> (StatusCode 401, s)
                | Some u \<Rightarrow> serve_user W u r s)))"

section \<open>Lemmas: what the helpers keep\<close>

lemma site_frame [frame, simp]:
  "si_db (snd (render_page p s)) = si_db s" "si_jobs (snd (render_page p s)) = si_jobs s"
  "si_db (flash_site m c s) = si_db s" "si_jobs (flash_site m c s) = si_jobs s"
  "si_db (snd (flash_redirect m c path s)) = si_db s" "si_jobs (snd (flash_redirect m c path s)) = si_jobs s"
  "si_db (commit_db d s) = d" "si_jobs (commit_db d s) = si_jobs s"
  "si_db (enqueue_job j s) = si_db s" "si_jobs (enqueue_job j s) = si_jobs s @ [j]"
  by (simp_all add: render_page_def flash_site_def flash_redirect_def commit_db_def enqueue_job_def)

lemma fold_flash_frame [frame, simp]:
  "si_db (fold (\<lambda>err. flash_site err c) errs s) = si_db s"
  "si_jobs (fold (\<lambda>err. flash_site err c) errs s) = si_jobs s"
  by (induction errs arbitrary: s) simp_all

text \<open>The service request a form makes of the system; pages, resumes and account forms make none.\<close>

primrec list_requested :: "user \<Rightarrow> list_request \<Rightarrow> request option" where
  "list_requested u Get_Lists = None"
| "list_requested u (Upload_List name free filename content) = Some (UploadList name filename (u_id u))"
| "list_requested u (Get_List i page) = None"
| "list_requested u (Add_Contact i email first_name last_name) = Some (AddContact i email first_name last_name)"
| "list_requested u (Delete_List i) = Some (DeleteList i)"
| "list_requested u (Get_Search q) = None"
| "list_requested u (Search_Remove email) = Some (RemoveAddress email)"
| "list_requested u (Suppress_Add email) = Some (SuppressAddress email)"

primrec template_requested :: "template_request \<Rightarrow> request option" where
  "template_requested Get_Templates = None"
| "template_requested New_Template = None"
| "template_requested (Create_Template name ty subj body) = Some (CreateTemplate name ty (or_none subj) body)"
| "template_requested (Preview_Template ty body) = None"
| "template_requested (Edit_Template i) = None"
| "template_requested (Update_Template i name ty subj body) = Some (UpdateTemplate i name ty (or_none subj) body)"
| "template_requested (Delete_Template i) = Some (DeleteTemplate i)"

definition when_requested :: "web_app \<Rightarrow> string \<Rightarrow> string option \<Rightarrow> exn + instant option" where
  "when_requested W scheduled_at send_now =
     (if send_now \<noteq> None then Inr (Some (wa_now W)) else parse_local_dt W scheduled_at)"

primrec campaign_requested :: "web_app \<Rightarrow> campaign_request \<Rightarrow> request option" where
  "campaign_requested W Get_Campaigns = None"
| "campaign_requested W New_Campaign = None"
| "campaign_requested W (Create_Campaign f) = Some (CreateCampaign (created_fields (app_settings_of W) f))"
| "campaign_requested W (Get_Campaign i page) = None"
| "campaign_requested W (Edit_Campaign i) = None"
| "campaign_requested W (Update_Campaign i f) = Some (UpdateCampaign i (form_fields f))"
| "campaign_requested W (Schedule_Campaign i scheduled_at send_now) =
     (case when_requested W scheduled_at send_now of Inl e \<Rightarrow> None | Inr w \<Rightarrow> Some (ScheduleCampaign i w))"
| "campaign_requested W (Pause_Campaign i) = Some (PauseCampaign i)"
| "campaign_requested W (Resume_Campaign i) = None"
| "campaign_requested W (Cancel_Campaign i) = Some (CancelCampaign i)"
| "campaign_requested W (Duplicate_Campaign i) = Some (DuplicateCampaign i)"
| "campaign_requested W (Delete_Campaign i) = Some (DeleteCampaign i)"

primrec planner_requested :: "web_app \<Rightarrow> planner_request \<Rightarrow> request option" where
  "planner_requested W Get_Planner = None"
| "planner_requested W Get_Planner_Grid = None"
| "planner_requested W Get_Planner_Status = None"
| "planner_requested W (Update_Planner_Config r1 r2 r3 r4 full rate interval policy) =
     Some (UpdatePlannerConfig r1 r2 r3 r4 full rate interval policy)"
| "planner_requested W (Set_Warming_Ip ip pool since) = Some (SetWarmingIp ip pool (warmed_since_of W since))"
| "planner_requested W (Delete_Warming_Ip ip) = Some (DeleteWarmingIp ip)"
| "planner_requested W (Add_Placement i wk wd) = Some (AddPlacement i wk wd)"
| "planner_requested W (Move_Placement i wk wd) = Some (MovePlacement i wk wd)"
| "planner_requested W (Delete_Placement i) = Some (RemovePlacement i)"
| "planner_requested W New_Recurring = None"
| "planner_requested W (Create_Recurring f) = Some (CreateRecurring (rf_list_ids f) (recurring_form_fields f))"
| "planner_requested W (Edit_Recurring i) = None"
| "planner_requested W (Update_Recurring i f) = Some (UpdateRecurring i (rf_list_ids f) (recurring_form_fields f))"
| "planner_requested W (Delete_Recurring i) = Some (DeleteRecurring i)"

definition apply_request :: "web_app \<Rightarrow> request option \<Rightarrow> db \<Rightarrow> db" where
  "apply_request W q d = (case q of None \<Rightarrow> d | Some rq \<Rightarrow> handle (wa_system W) (wa_now W) rq d)"

lemma serve_list_db: "si_db (snd (serve_list W u q s)) = apply_request W (list_requested u q) (si_db s)"
  by (cases q)
     (auto simp: apply_request_def lists_index_def upload_list_def list_detail_def add_contact_route_def
       delete_list_route_def search_page_def search_remove_def suppress_add_def Let_def
       split: option.split sum.split prod.split)

lemma serve_template_db: "si_db (snd (serve_template W q s)) = apply_request W (template_requested q) (si_db s)"
  by (cases q)
     (auto simp: apply_request_def templates_index_def new_template_def create_template_route_def preview_template_def
       edit_template_def update_template_route_def delete_template_route_def Let_def
       split: option.split sum.split prod.split)

lemma refused_keeps:
  "with_campaign pause i d = (False, d') \<Longrightarrow> d' = d" "with_campaign resume i d = (False, d') \<Longrightarrow> d' = d"
  "with_campaign cancel i d = (False, d') \<Longrightarrow> d' = d"
  by (auto simp: with_campaign_def pause_def resume_def cancel_def split: option.splits if_splits)

lemma serve_campaign_db:
  "\<nexists>i. q = Resume_Campaign i \<Longrightarrow>
     si_db (snd (serve_campaign W q s)) = apply_request W (campaign_requested W q) (si_db s)"
  by (cases q)
     (auto simp: apply_request_def campaigns_index_def new_campaign_def create_campaign_route_def campaign_detail_def
       edit_campaign_def update_campaign_route_def schedule_campaign_def schedule_route_def when_requested_def
       pause_campaign_def pause_route_def cancel_campaign_def cancel_route_def duplicate_campaign_route_def
       delete_campaign_route_def app_settings_of_def Let_def schedule_def
       split: option.split sum.split prod.split bool.split dest: refused_keeps)

lemma serve_planner_db: "si_db (snd (serve_planner W q s)) = apply_request W (planner_requested W q) (si_db s)"
  by (cases q)
     (auto simp: apply_request_def planner_page_def planner_grid_fragment_def planner_status_def
       update_planner_config_route_def set_warming_ip_route_def delete_warming_ip_route_def add_placement_route_def
       move_placement_route_def delete_placement_def new_recurring_def create_recurring_route_def edit_recurring_def
       update_recurring_route_def delete_recurring_route_def Let_def
       split: option.split sum.split prod.split)


text \<open>Accounts and keys.\<close>

lemma accounts_only_refl [simp]: "accounts_only d d"
  by (simp add: accounts_only_def)

lemma accounts_only_set_password [simp]: "accounts_only d (set_password H salt i p d)"
  by (simp add: accounts_only_def set_password_def)

lemma change_password_accounts:
  "accounts_only d (snd (change_password H salt u current new confirm s d))"
  by (simp add: change_password_def)

lemma create_api_key_accounts: "create_api_key digest token now name d = Inr (r, d') \<Longrightarrow> accounts_only d d'"
  by (auto simp: create_api_key_def accounts_only_def bump_seq_def Let_def split: if_splits)

lemma revoke_api_key_accounts: "accounts_only d (snd (revoke_api_key i d))"
  by (auto simp: revoke_api_key_def accounts_only_def split: option.split)

lemma verify_api_key_accounts: "accounts_only d (snd (verify_api_key digest now p d))"
  by (auto simp: verify_api_key_def accounts_only_def split: option.split)

lemma serve_settings_db:
  "accounts_only (si_db s) (si_db (snd (serve_settings W q s))) \<or>
     (\<exists>enabled domains. q = Update_Free_Provider enabled domains \<and>
        si_db (snd (serve_settings W q s)) =
          handle (wa_system W) (wa_now W) (UpdateFreeProvider (enabled \<noteq> None) (form_domains domains)) (si_db s))"
  by (cases q)
     (auto simp: settings_page_def update_free_provider_def create_api_key_route_def revoke_api_key_route_def
       revoke_api_key_accounts create_api_key_accounts split: sum.split prod.split)

lemma serve_resume:
  "snd (serve_campaign W (Resume_Campaign i) s) =
     (case with_campaign resume i (si_db s) of
        (True, d) \<Rightarrow> flash_site ''Campaign resumed.'' ''success'' (enqueue_job (MaterializeJob i) (commit_db d s))
      | (False, d) \<Rightarrow> flash_site ''Only a paused campaign can be resumed.'' ''error'' s)"
  by (auto simp: resume_campaign_def flash_redirect_def Let_def split: prod.split bool.split)

section \<open>Lemmas: the guards\<close>

lemma prefixes:
  "py_startswith [] (c # p) = False" "py_startswith s [] = True"
  "py_startswith (x # s) (c # p) \<longleftrightarrow> x = c \<and> py_startswith s p"
  by (auto simp: py_startswith_def)

lemma user_path_protected: "\<not> list_ex (py_startswith (user_path r)) public_prefixes"
proof -
  have "\<not> list_ex (py_startswith (list_path q)) public_prefixes" for q
    by (cases q; simp add: public_prefixes_def path_id_def; simp add: prefixes)
  moreover have "\<not> list_ex (py_startswith (template_path q)) public_prefixes" for q
    by (cases q; simp add: public_prefixes_def path_id_def; simp add: prefixes)
  moreover have "\<not> list_ex (py_startswith (campaign_path q)) public_prefixes" for q
    by (cases q; simp add: public_prefixes_def path_id_def; simp add: prefixes)
  moreover have "\<not> list_ex (py_startswith (planner_path q)) public_prefixes" for q
    by (cases q; simp add: public_prefixes_def path_id_def; simp add: prefixes)
  moreover have "\<not> list_ex (py_startswith (settings_path q)) public_prefixes" for q
    by (cases q; simp add: public_prefixes_def path_id_def; simp add: prefixes)
  ultimately show ?thesis by (cases r) (simp_all add: public_prefixes_def prefixes)
qed

lemma must_change_blocked:
  assumes "\<nexists>a b c. r = Post_Change_Password a b c"
  shows "\<not> list_ex (py_startswith (user_path r)) must_change_allowed"
proof -
  have "\<not> list_ex (py_startswith (list_path q)) must_change_allowed" for q
    by (cases q; simp add: must_change_allowed_def path_id_def; simp add: prefixes)
  moreover have "\<not> list_ex (py_startswith (template_path q)) must_change_allowed" for q
    by (cases q; simp add: must_change_allowed_def path_id_def; simp add: prefixes)
  moreover have "\<not> list_ex (py_startswith (campaign_path q)) must_change_allowed" for q
    by (cases q; simp add: must_change_allowed_def path_id_def; simp add: prefixes)
  moreover have "\<not> list_ex (py_startswith (planner_path q)) must_change_allowed" for q
    by (cases q; simp add: must_change_allowed_def path_id_def; simp add: prefixes)
  moreover have "\<not> list_ex (py_startswith (settings_path q)) must_change_allowed" for q
    by (cases q; simp add: must_change_allowed_def path_id_def; simp add: prefixes)
  ultimately show ?thesis using assms by (cases r) (simp_all add: must_change_allowed_def prefixes)
qed

lemma public_path_open: "list_ex (py_startswith (public_path q)) public_prefixes"
  by (cases q; simp add: public_prefixes_def path_id_def; simp add: prefixes)


section \<open>The world behind the site\<close>

text \<open>
  A request is served at an instant by a site configured as the system \<open>S\<close>, for any cookie.  The
  materialization a resume asks for joins the queue; the planner, import and webhook jobs are the
  steps of \<open>System\<close> that may run at any time.
\<close>

definition queued :: "instant \<Rightarrow> job list \<Rightarrow> (instant \<times> task) list" where
  "queued now js = concat (map (\<lambda>j. case j of MaterializeJob i \<Rightarrow> [(now, MaterializeTask i)] | _ \<Rightarrow> []) js)"

inductive web_step :: "system \<Rightarrow> world \<Rightarrow> world \<Rightarrow> bool" for S where
  Task: "sys_step S w w' \<Longrightarrow> web_step S w w'"
| Http: "wa_system W = S \<Longrightarrow>
    s' = snd (serve W q \<lparr>si_session = cookie, si_db = w_db w, si_jobs = []\<rparr>) \<Longrightarrow>
    web_step S w (w\<lparr>w_db := si_db s', w_queue := w_queue w @ queued (wa_now W) (si_jobs s')\<rparr>)"

lemma queued_simps [simp]:
  "queued now [] = []" "queued now (js @ [MaterializeJob i]) = queued now js @ [(now, MaterializeTask i)]"
  "queued now (js @ [PlannerJob]) = queued now js" "queued now (js @ [ImportJob l c b]) = queued now js"
  "queued now (js @ [WebhookJob body]) = queued now js"
  by (simp_all add: queued_def)

lemma serve_list_jobs: "queued now (si_jobs (snd (serve_list W u q s))) = queued now (si_jobs s)"
  by (cases q)
     (auto simp: lists_index_def upload_list_def list_detail_def add_contact_route_def
       delete_list_route_def search_page_def search_remove_def suppress_add_def Let_def
       split: option.split sum.split prod.split)

lemma serve_template_jobs: "si_jobs (snd (serve_template W q s)) = si_jobs s"
  by (cases q)
     (auto simp: templates_index_def new_template_def create_template_route_def preview_template_def
       edit_template_def update_template_route_def delete_template_route_def Let_def
       split: option.split sum.split prod.split)

lemma serve_campaign_jobs: "\<nexists>i. q = Resume_Campaign i \<Longrightarrow> si_jobs (snd (serve_campaign W q s)) = si_jobs s"
  by (cases q)
     (auto simp: campaigns_index_def new_campaign_def create_campaign_route_def campaign_detail_def
       edit_campaign_def update_campaign_route_def schedule_campaign_def pause_campaign_def cancel_campaign_def
       duplicate_campaign_route_def delete_campaign_route_def Let_def
       split: option.split sum.split prod.split bool.split)

lemma serve_planner_jobs: "queued now (si_jobs (snd (serve_planner W q s))) = queued now (si_jobs s)"
  by (cases q)
     (auto simp: planner_page_def planner_grid_fragment_def planner_status_def
       update_planner_config_route_def set_warming_ip_route_def delete_warming_ip_route_def add_placement_route_def
       move_placement_route_def delete_placement_def new_recurring_def create_recurring_route_def edit_recurring_def
       update_recurring_route_def delete_recurring_route_def Let_def
       split: option.split sum.split prod.split)

lemma serve_settings_jobs: "si_jobs (snd (serve_settings W q s)) = si_jobs s"
  by (cases q)
     (auto simp: settings_page_def update_free_provider_def create_api_key_route_def revoke_api_key_route_def
       split: sum.split prod.split)

text \<open>
  What a request of a user does to the database and the queue: what the service request it makes
  does, the resume, or a change of the accounts.
\<close>

lemma serve_user_effect:
  "let s' = snd (serve_user W u r s) in
     (queued now (si_jobs s') = queued now (si_jobs s) \<and>
        (accounts_only (si_db s) (si_db s') \<or> (\<exists>rq. si_db s' = handle (wa_system W) (wa_now W) rq (si_db s)))) \<or>
     (\<exists>i. r = On_Campaign (Resume_Campaign i))"
proof -
  have applied: "accounts_only (si_db s) (apply_request W q (si_db s)) \<or>
      (\<exists>rq. apply_request W q (si_db s) = handle (wa_system W) (wa_now W) rq (si_db s))" for q
    by (auto simp: apply_request_def split: option.split)
  show ?thesis
  proof (cases r)
    case (Post_Change_Password a b c)
    have "accounts_only (si_db s) (snd (change_password (wa_hasher W) (wa_salt W) u a b c (si_session s) (si_db s)))"
      by (rule change_password_accounts)
    with Post_Change_Password show ?thesis
      by (auto simp: change_password_route_def split: prod.split)
  next
    case Get_Dashboard
    then show ?thesis by (simp add: dashboard_page_def)
  next
    case (On_List q)
    with applied [of "list_requested u q"] show ?thesis by (simp add: serve_list_db serve_list_jobs)
  next
    case (On_Template q)
    with applied [of "template_requested q"] show ?thesis by (simp add: serve_template_db serve_template_jobs)
  next
    case (On_Campaign q)
    with applied [of "campaign_requested W q"] show ?thesis
      by (cases "\<exists>i. q = Resume_Campaign i") (auto simp: serve_campaign_db serve_campaign_jobs)
  next
    case (On_Planner q)
    with applied [of "planner_requested W q"] show ?thesis by (simp add: serve_planner_db serve_planner_jobs)
  next
    case (On_Settings q)
    with serve_settings_db [of s W q] show ?thesis
      by (auto simp: serve_settings_jobs simp del: handle.simps)
  qed
qed

text \<open>What the public requests do.\<close>

lemma serve_public_effect:
  "let s' = snd (serve_public W p s) in
     (si_db s' = si_db s \<or>
        (\<exists>token. p = Post_Unsubscribe token \<and> si_db s' = snd (unsubscribe (y_loads (wa_system W)) None token (si_db s)))) \<and>
     (si_jobs s' = si_jobs s \<or>
        (\<exists>raw sig secret token body. p = Post_Webhook raw sig secret token \<and>
           verify_webhook (wa_hmac W) raw (postal_webhook_shared_secret (app_settings_of W)) sig secret token = Inr True \<and>
           wa_decode W raw = Some body \<and> si_jobs s' = si_jobs s @ [WebhookJob body]))"
proof (cases p)
  case (Post_Webhook raw sig secret token)
  then show ?thesis
    by (auto simp: postal_webhook_route_def postal_webhook_def and_then_def split: sum.splits option.splits if_splits)
qed (auto simp: login_form_def login_route_def logout_route_def status_route_def campaign_status_route_def
    unsubscribe_confirm_route_def unsubscribe_route_def split: prod.split option.split)


lemma serve_guarded:
  assumes "current_user (si_session s) (si_db s) = None"
  shows "snd (serve W (Authenticated r) s) = s"
  using assms by (simp add: serve_def split: guard.split)

lemma serve_open: "serve W (Public p) s = serve_public W p s"
  using public_path_open [of p] by (simp add: serve_def auth_guard_def)

lemma change_form_keeps:
  "si_db (snd (serve W Change_Password_Form s)) = si_db s" "si_jobs (snd (serve W Change_Password_Form s)) = si_jobs s"
  by (auto simp: serve_def change_password_form_def split: guard.split)

lemma serve_user_cases:
  "snd (serve W (Authenticated r) s) = s \<or> (\<exists>u. snd (serve W (Authenticated r) s) = snd (serve_user W u r s))"
  by (auto simp: serve_def split: guard.split option.split)

lemma resume_step:
  assumes "wa_system W = S" "si_jobs s = []" "si_db s = w_db w"
  shows "let s' = snd (serve_campaign W (Resume_Campaign i) s) in
    sys_step S w (w\<lparr>w_db := si_db s', w_queue := w_queue w @ queued (wa_now W) (si_jobs s')\<rparr>)"
proof (cases "with_campaign resume i (w_db w)")
  case (Pair ok d)
  then have "resume_route i (w_db w) = (if ok then [EnqueueMaterialize i] else [], d)"
    by (simp add: resume_route_def split: bool.split)
  from sys_step.Resume [OF this, of S "wa_now W"] show ?thesis
    using assms Pair refused_keeps(2) [of i "w_db w" d] queued_simps(2) [of "wa_now W" "[]" i]
    by (cases ok) (simp_all add: serve_resume [unfolded serve_campaign.simps])
qed

lemma web_step_sys:
  assumes "web_step S w w'"
  shows "sys_step S w w' \<or> w' = w"
  using assms
proof cases
  case (Http W s' q cookie)
  let ?s = "\<lparr>si_session = cookie, si_db = w_db w, si_jobs = []\<rparr>"
  have account: "sys_step S w (w\<lparr>w_db := d, w_queue := w_queue w @ []\<rparr>)" if "accounts_only (w_db w) d" for d
    using sys_step.Account [OF that] by simp
  have request: "sys_step S w (w\<lparr>w_db := handle S (wa_now W) rq (w_db w), w_queue := w_queue w @ []\<rparr>)" for rq
    using sys_step.Request [of S w "wa_now W" rq] by simp
  show ?thesis
  proof (cases q)
    case (Public p)
    then have s': "s' = snd (serve_public W p ?s)" using Http(3) by (simp add: serve_open)
    have jobs: "queued (wa_now W) (si_jobs s') = []"
      using serve_public_effect [of W p ?s] queued_simps(5) [of "wa_now W" "[]"] by (auto simp: s' Let_def)
    from serve_public_effect [of W p ?s]
    have "si_db s' = w_db w \<or> (\<exists>token. si_db s' = handle S (wa_now W) (UnsubscribeLink token) (w_db w))"
      using Http(2) by (auto simp: s' Let_def)
    then show ?thesis using request account [of "w_db w"] by (auto simp: Http(1) jobs simp del: handle.simps)
  next
    case Change_Password_Form
    then show ?thesis using account [of "w_db w"] by (simp add: Http change_form_keeps)
  next
    case (Authenticated r)
    show ?thesis
    proof (cases "s' = ?s")
      case True
      then show ?thesis by (simp add: Http(1))
    next
      case False
      with serve_user_cases [of W r ?s] obtain u where s': "s' = snd (serve_user W u r ?s)"
        using Http(3) Authenticated by auto
      show ?thesis
      proof (cases "\<exists>i. r = On_Campaign (Resume_Campaign i)")
        case True
        then obtain i where "r = On_Campaign (Resume_Campaign i)" by blast
        with resume_step [OF Http(2), of ?s w i] show ?thesis by (simp add: s' Http(1) Let_def)
      next
        case False
        with serve_user_effect [of W u r ?s]
        have "queued (wa_now W) (si_jobs s') = []" "accounts_only (w_db w) (si_db s') \<or>
            (\<exists>rq. si_db s' = handle S (wa_now W) rq (w_db w))"
          using Http(2) by (simp_all add: s' Let_def)
        then show ?thesis using request account by (auto simp: Http(1) simp del: handle.simps)
      qed
    qed
  qed
qed simp

text \<open>A site for the witnesses: one administrator, signed in or not.\<close>

definition demo_app :: web_app where
  "demo_app = \<lparr>wa_system = small_system, wa_now = 7, wa_redis = empty_redis, wa_hasher = plain_hasher, wa_salt = [],
     wa_token = ''abc'', wa_digest = id, wa_hmac = (\<lambda>_ _. []), wa_decode = (\<lambda>_. None),
     wa_fromisoformat = (\<lambda>_. None), wa_preflight = []\<rparr>"

definition admin_session :: "bool \<Rightarrow> web_session" where
  "admin_session must_change = empty_session\<lparr>ss_user_id := Some 1, ss_must_change := must_change\<rparr>"

lemma admin_served:
  "serve demo_app (Authenticated r) \<lparr>si_session = admin_session False, si_db = admin_db, si_jobs = js\<rparr> =
     serve_user demo_app (hd (users admin_db)) r \<lparr>si_session = admin_session False, si_db = admin_db, si_jobs = js\<rparr>"
  using user_path_protected [of r]
  by (simp add: serve_def auth_guard_def logged_in_def current_user_def get_user_def admin_session_def empty_session_def admin_db_def)

section \<open>Refinement\<close>

text \<open>
  A step relation implements another when each of its steps is a step of the other or no step at
  all: then its runs are runs of the other, and so it keeps every invariant and every relation
  between the two ends of a run that the other has.
\<close>

locale implements =
  fixes concrete abstract :: "'s \<Rightarrow> 's \<Rightarrow> bool"
  assumes simulated: "concrete w w' \<Longrightarrow> abstract w w' \<or> w' = w"
begin

lemma runs: "concrete\<^sup>*\<^sup>* w w' \<Longrightarrow> abstract\<^sup>*\<^sup>* w w'"
proof (induction rule: rtranclp_induct)
  case (step v v')
  from simulated [OF step.hyps(2)] step.IH show ?case by (auto intro: rtranclp.rtrancl_into_rtrancl)
qed simp

lemma kept:
  assumes "\<And>v v'. abstract v v' \<Longrightarrow> R v v'" "\<And>v. R v v" "concrete w w'"
  shows "R w w'"
  using simulated [OF assms(3)] assms(1,2) by blast

end

interpretation web: implements "web_step S" "sys_step S" for S
  by unfold_locales (rule web_step_sys)

lemma web_graph: "web_step S w w' \<Longrightarrow> graph_step (w_db w) (w_db w')"
  by (rule web.kept [of S "\<lambda>v v'. graph_step (w_db v) (w_db v')"]) (auto intro: step_graph)

lemma web_reachable: "(web_step S)\<^sup>*\<^sup>* initial_world w \<Longrightarrow> reachable S w"
  by (drule web.runs) (auto intro: run_reachable Start)

lemma sys_run_web: "(sys_step S)\<^sup>*\<^sup>* w w' \<Longrightarrow> (web_step S)\<^sup>*\<^sup>* w w'"
  by (induction rule: rtranclp_induct) (auto intro: Task rtranclp.rtrancl_into_rtrancl)

section \<open>Properties\<close>

text \<open>
  C5: Whoever is not signed in changes nothing: without an active user behind the cookie, whatever
  is requested leaves the database as it was, except that a validly signed unsubscribe link
  suppresses its address, and hands the queue nothing, except the body of a webhook that carries
  the shared secret.
\<close>

theorem strangers_change_nothing:
  assumes "current_user (si_session s) (si_db s) = None"
  shows "let s' = snd (serve W q s) in
    (si_db s' = si_db s \<or>
       (\<exists>token e. q = Public (Post_Unsubscribe token) \<and> read_unsubscribe_token (y_loads (wa_system W)) token = Some e \<and>
          suppressed_set (si_db s') = insert e (suppressed_set (si_db s)))) \<and>
    (si_jobs s' = si_jobs s \<or>
       (\<exists>raw sig secret token body. q = Public (Post_Webhook raw sig secret token) \<and>
          verify_webhook (wa_hmac W) raw (postal_webhook_shared_secret (app_settings_of W)) sig secret token = Inr True \<and>
          wa_decode W raw = Some body \<and> si_jobs s' = si_jobs s @ [WebhookJob body]))"
proof (cases q)
  case (Public p)
  let ?loads = "y_loads (wa_system W)"
  have "snd (unsubscribe ?loads None token d) = d \<or>
      (\<exists>e. read_unsubscribe_token ?loads token = Some e \<and>
         suppressed_set (snd (unsubscribe ?loads None token d)) = insert e (suppressed_set d))" for token d
    using unsubscribe_effect [of ?loads token d] by (cases "read_unsubscribe_token ?loads token") (simp_all add: unsubscribe_def)
  with serve_public_effect [of W p s] show ?thesis unfolding Public serve_open Let_def by metis
next
  case Change_Password_Form
  then show ?thesis by (simp add: change_form_keeps)
next
  case (Authenticated r)
  with serve_guarded [OF assms] show ?thesis by simp
qed

theorem strangers_change_nothing_witness:
  "si_db (snd (serve demo_app (Authenticated (On_Campaign (Delete_Campaign 1)))
     \<lparr>si_session = empty_session, si_db = ready_db, si_jobs = []\<rparr>)) = ready_db"
  using strangers_change_nothing [of "\<lparr>si_session = empty_session, si_db = ready_db, si_jobs = []\<rparr>" demo_app
      "Authenticated (On_Campaign (Delete_Campaign 1))"]
  by (simp add: current_user_def logged_in_def empty_session_def Let_def)

text \<open>
  C28: A first password must be changed before anything else: while the session asks for it, every
  request behind the login other than the change itself is answered with a redirection to the form
  and touches neither database, queue nor session.
\<close>

theorem password_change_first:
  assumes "logged_in (si_session s)" "ss_must_change (si_session s)" "\<nexists>a b c. r = Post_Change_Password a b c"
  shows "serve W (Authenticated r) s = (Redirect ''/change-password'', s)"
  using assms user_path_protected [of r] must_change_blocked [OF assms(3)] by (simp add: serve_def auth_guard_def)

theorem password_change_first_witness:
  "fst (serve demo_app (Authenticated (On_List (Suppress_Add ''a@x.com'')))
     \<lparr>si_session = admin_session True, si_db = admin_db, si_jobs = []\<rparr>) = Redirect ''/change-password''"
  by (subst password_change_first) (simp_all add: admin_session_def empty_session_def logged_in_def)

text \<open>
  C6: The web application refines the system: every run of requests (any form, by anyone, with any
  cookie) and tasks, in any order, is a run of the steps of the system, so what holds of every run of
  the system holds of everything that can be done through the browser.
\<close>

theorem web_refines_system:
  assumes "(web_step S)\<^sup>*\<^sup>* w w'"
  shows "(sys_step S)\<^sup>*\<^sup>* w w'"
  using assms by (rule web.runs)

theorem web_refines_system_witness:
  "\<exists>w'. (sys_step small_system)\<^sup>*\<^sup>* (initial_world\<lparr>w_db := admin_db\<rparr>) w' \<and> suppressed_set (w_db w') = {''a@x.com''}"
proof -
  let ?w = "initial_world\<lparr>w_db := admin_db\<rparr>" and ?q = "Authenticated (On_List (Suppress_Add ''a@x.com''))"
  let ?s = "snd (serve demo_app ?q \<lparr>si_session = admin_session False, si_db = w_db ?w, si_jobs = []\<rparr>)"
  have db: "si_db ?s = snd (suppress_only None ''a@x.com'' ''manual'' admin_db)"
    by (simp add: admin_served suppress_add_def)
  have "web_step small_system ?w (?w\<lparr>w_db := si_db ?s, w_queue := w_queue ?w @ queued (wa_now demo_app) (si_jobs ?s)\<rparr>)"
    by (rule Http [OF _ refl]) (simp add: demo_app_def)
  from web_refines_system [OF r_into_rtranclp [of "web_step small_system", OF this]]
  have "(sys_step small_system)\<^sup>*\<^sup>* ?w (?w\<lparr>w_db := si_db ?s, w_queue := w_queue ?w @ queued (wa_now demo_app) (si_jobs ?s)\<rparr>)" .
  moreover have "suppressed_set (si_db ?s) = {''a@x.com''}" unfolding db by code_simp
  ultimately show ?thesis by (intro exI conjI) (assumption | simp)+
qed

text \<open>
  The status API notes the time a key was used, and throws it away: no request of the API changes
  the database, so the settings page never shows a use.
\<close>

lemma api_key_use_not_recorded:
  "si_db (snd (serve W (Public (Get_Status key authorization)) s)) = si_db s"
  "si_db (snd (serve W (Public (Get_Campaign_Status i key authorization)) s)) = si_db s"
  using serve_public_effect [of W "Get_Status key authorization" s]
    serve_public_effect [of W "Get_Campaign_Status i key authorization" s]
  by (simp_all add: serve_open Let_def)

end
