(* ===== verification/Schema.thy ===== *)
theory Schema
  imports Campaign_Store
begin

text \<open>
  The database schema twice: as the models declare it (\<open>app/models\<close>, the metadata of SQLAlchemy)
  and as the Alembic migrations build it (\<open>migrations/versions\<close>).  A migration is a list of
  operations, run one after the other; an operation the database refuses (a table or index that is
  there already or is missing, a reference to a missing table, a required column without a default)
  stops the run.  \<open>index=True\<close> declares the index \<open>ix_<table>_<column>\<close>, unique if the column is
  \<open>unique=True\<close>; \<open>unique=True\<close> alone declares a unique constraint.  Server defaults, names of
  constraints that no migration drops, and the order of columns are not part of the comparison.
\<close>

section \<open>Schemas\<close>

datatype column_type = IntegerT | StringT nat | TextT | BooleanT | DateTimeT | JsonT

datatype on_delete = Cascade | SetNull | Restrict

record column =
  cl_column :: string
  cl_type :: column_type
  cl_nullable :: bool

record foreign_key =
  fk_column :: string
  fk_table :: string
  fk_on_delete :: on_delete
  fk_name :: "string option"

record index_def =
  ix_name :: string
  ix_columns :: "string list"
  ix_unique :: bool

record table_def =
  tb_name :: string
  tb_primary :: string
  tb_columns :: "column list"
  tb_foreign :: "foreign_key list"
  tb_uniques :: "string list list"
  tb_indexes :: "index_def list"

definition col :: "string \<Rightarrow> column_type \<Rightarrow> bool \<Rightarrow> column" where
  "col n ty nullable = \<lparr>cl_column = n, cl_type = ty, cl_nullable = nullable\<rparr>"

definition fk :: "string \<Rightarrow> string \<Rightarrow> on_delete \<Rightarrow> foreign_key" where
  "fk c t od = \<lparr>fk_column = c, fk_table = t, fk_on_delete = od, fk_name = None\<rparr>"

definition ix :: "string \<Rightarrow> string list \<Rightarrow> bool \<Rightarrow> index_def" where
  "ix n cs u = \<lparr>ix_name = n, ix_columns = cs, ix_unique = u\<rparr>"

text \<open>
  Stored times (\<open>TZDateTime\<close> of \<open>app/models/base.py\<close>): a Python datetime is a wall-clock time (in
  microseconds, read as if it were UTC) with the offset of its zone, if it has one.
\<close>

record py_datetime =
  dt_wall :: int
  dt_offset :: "int option"

definition astimezone_utc :: "py_datetime \<Rightarrow> py_datetime" where
  "astimezone_utc v =
     (case dt_offset v of None \<Rightarrow> v | Some off \<Rightarrow> \<lparr>dt_wall = dt_wall v - off, dt_offset = Some 0\<rparr>)"

definition process_bind_param :: "py_datetime option \<Rightarrow> py_datetime option" where
  "process_bind_param v =
     (case v of
        None \<Rightarrow> None
      | Some x \<Rightarrow> Some (astimezone_utc (if dt_offset x = None then x\<lparr>dt_offset := Some 0\<rparr> else x)))"

definition process_result_value :: "py_datetime option \<Rightarrow> py_datetime option" where
  "process_result_value v =
     (case v of
        None \<Rightarrow> None
      | Some x \<Rightarrow> Some (if dt_offset x = None then x\<lparr>dt_offset := Some 0\<rparr> else astimezone_utc x))"

definition instant_of :: "py_datetime \<Rightarrow> instant" where
  "instant_of v = dt_wall v - (case dt_offset v of None \<Rightarrow> 0 | Some off \<Rightarrow> off)"

text \<open>
  Both databases give back the instant stored, in UTC: SQLite drops the offset, PostgreSQL returns
  the time in the zone of its session.
\<close>

definition sqlite_stores :: "py_datetime \<Rightarrow> py_datetime" where
  "sqlite_stores v = v\<lparr>dt_offset := None\<rparr>"

definition postgres_stores :: "int \<Rightarrow> py_datetime \<Rightarrow> py_datetime" where
  "postgres_stores session_offset v = \<lparr>dt_wall = instant_of v + session_offset, dt_offset = Some session_offset\<rparr>"

lemma stored_instant:
  assumes "process_bind_param (Some v) = Some b"
  shows "process_result_value (Some (sqlite_stores b)) = Some \<lparr>dt_wall = instant_of v, dt_offset = Some 0\<rparr>"
    "process_result_value (Some (postgres_stores off b)) = Some \<lparr>dt_wall = instant_of v, dt_offset = Some 0\<rparr>"
  using assms
  by (cases v; auto simp: process_bind_param_def process_result_value_def astimezone_utc_def instant_of_def sqlite_stores_def
      postgres_stores_def split: if_splits option.splits)+

section \<open>The models\<close>

definition users_table :: table_def where
  "users_table = \<lparr>tb_name = ''users'', tb_primary = ''id'', tb_columns = [
         col ''id'' IntegerT False,
         col ''email'' (StringT 320) False,
         col ''password_hash'' (StringT 255) False,
         col ''role'' (StringT 20) False,
         col ''must_change_password'' BooleanT False,
         col ''is_active'' BooleanT False,
         col ''created_at'' DateTimeT False],
       tb_foreign = [],
       tb_uniques = [],
       tb_indexes = [ix ''ix_users_email'' [''email''] True]\<rparr>"

definition contact_lists_table :: table_def where
  "contact_lists_table = \<lparr>tb_name = ''contact_lists'', tb_primary = ''id'', tb_columns = [
         col ''id'' IntegerT False,
         col ''name'' (StringT 200) False,
         col ''description'' TextT True,
         col ''source_filename'' (StringT 500) True,
         col ''uploaded_at'' DateTimeT False,
         col ''created_by'' IntegerT True,
         col ''contact_count'' IntegerT False,
         col ''verification_status'' (StringT 30) False,
         col ''verification_summary'' JsonT True,
         col ''import_summary'' JsonT True,
         col ''free_provider_filter_applied'' BooleanT False,
         col ''created_at'' DateTimeT False],
       tb_foreign = [fk ''created_by'' ''users'' SetNull],
       tb_uniques = [],
       tb_indexes = []\<rparr>"

definition contacts_table :: table_def where
  "contacts_table = \<lparr>tb_name = ''contacts'', tb_primary = ''id'', tb_columns = [
         col ''id'' IntegerT False,
         col ''email'' (StringT 320) False,
         col ''first_name'' (StringT 200) True,
         col ''last_name'' (StringT 200) True,
         col ''custom_fields'' JsonT False,
         col ''status'' (StringT 20) False,
         col ''verification_result'' (StringT 20) False,
         col ''list_id'' IntegerT True,
         col ''created_at'' DateTimeT False,
         col ''updated_at'' DateTimeT False],
       tb_foreign = [fk ''list_id'' ''contact_lists'' Cascade],
       tb_uniques = [],
       tb_indexes = [ix ''ix_contacts_email'' [''email''] True,
         ix ''ix_contacts_status'' [''status''] False,
         ix ''ix_contacts_list_id'' [''list_id''] False,
         ix ''ix_contacts_list_status'' [''list_id'', ''status''] False]\<rparr>"

definition suppressions_table :: table_def where
  "suppressions_table = \<lparr>tb_name = ''suppressions'', tb_primary = ''id'', tb_columns = [
         col ''id'' IntegerT False,
         col ''email'' (StringT 320) False,
         col ''reason'' (StringT 20) False,
         col ''detail'' TextT True,
         col ''created_at'' DateTimeT False],
       tb_foreign = [],
       tb_uniques = [],
       tb_indexes = [ix ''ix_suppressions_email'' [''email''] True]\<rparr>"

definition templates_table :: table_def where
  "templates_table = \<lparr>tb_name = ''templates'', tb_primary = ''id'', tb_columns = [
         col ''id'' IntegerT False,
         col ''name'' (StringT 200) False,
         col ''type'' (StringT 10) False,
         col ''subject_default'' (StringT 500) True,
         col ''body'' TextT False,
         col ''created_at'' DateTimeT False,
         col ''updated_at'' DateTimeT False],
       tb_foreign = [],
       tb_uniques = [],
       tb_indexes = []\<rparr>"

definition campaigns_table :: table_def where
  "campaigns_table = \<lparr>tb_name = ''campaigns'', tb_primary = ''id'', tb_columns = [
         col ''id'' IntegerT False,
         col ''name'' (StringT 200) False,
         col ''subject'' (StringT 500) False,
         col ''from_name'' (StringT 200) False,
         col ''from_email'' (StringT 320) False,
         col ''reply_to'' (StringT 320) True,
         col ''template_id'' IntegerT True,
         col ''list_id'' IntegerT True,
         col ''send_time'' (StringT 5) True,
         col ''send_timezone'' (StringT 64) True,
         col ''is_planner'' BooleanT False,
         col ''parent_campaign_id'' IntegerT True,
         col ''scheduled_at'' DateTimeT True,
         col ''status'' (StringT 20) False,
         col ''ip_pool'' (StringT 100) True,
         col ''total_recipients'' IntegerT False,
         col ''queued_count'' IntegerT False,
         col ''sent_count'' IntegerT False,
         col ''delivered_count'' IntegerT False,
         col ''bounced_count'' IntegerT False,
         col ''failed_count'' IntegerT False,
         col ''skipped_count'' IntegerT False,
         col ''created_at'' DateTimeT False,
         col ''updated_at'' DateTimeT False],
       tb_foreign = [fk ''template_id'' ''templates'' Restrict, fk ''list_id'' ''contact_lists'' Restrict, fk ''parent_campaign_id'' ''campaigns'' SetNull],
       tb_uniques = [],
       tb_indexes = [ix ''ix_campaigns_is_planner'' [''is_planner''] False,
         ix ''ix_campaigns_parent_campaign_id'' [''parent_campaign_id''] False,
         ix ''ix_campaigns_status'' [''status''] False]\<rparr>"

definition campaign_recipients_table :: table_def where
  "campaign_recipients_table = \<lparr>tb_name = ''campaign_recipients'', tb_primary = ''id'', tb_columns = [
         col ''id'' IntegerT False,
         col ''campaign_id'' IntegerT False,
         col ''contact_id'' IntegerT True,
         col ''email_snapshot'' (StringT 320) False,
         col ''merge_snapshot'' JsonT False,
         col ''status'' (StringT 20) False,
         col ''postal_message_id'' (StringT 255) True,
         col ''ip_pool'' (StringT 100) True,
         col ''last_event_at'' DateTimeT True,
         col ''error_detail'' TextT True,
         col ''created_at'' DateTimeT False,
         col ''updated_at'' DateTimeT False],
       tb_foreign = [fk ''campaign_id'' ''campaigns'' Cascade, fk ''contact_id'' ''contacts'' SetNull],
       tb_uniques = [[''campaign_id'', ''contact_id'']],
       tb_indexes = [ix ''ix_campaign_recipients_campaign_id'' [''campaign_id''] False,
         ix ''ix_campaign_recipients_status'' [''status''] False,
         ix ''ix_campaign_recipients_postal_message_id'' [''postal_message_id''] False,
         ix ''ix_recipient_campaign_status'' [''campaign_id'', ''status''] False]\<rparr>"

definition email_events_table :: table_def where
  "email_events_table = \<lparr>tb_name = ''email_events'', tb_primary = ''id'', tb_columns = [
         col ''id'' IntegerT False,
         col ''campaign_recipient_id'' IntegerT False,
         col ''type'' (StringT 50) False,
         col ''status'' (StringT 30) True,
         col ''provider_event_id'' (StringT 255) True,
         col ''raw_payload'' JsonT False,
         col ''occurred_at'' DateTimeT False,
         col ''created_at'' DateTimeT False],
       tb_foreign = [fk ''campaign_recipient_id'' ''campaign_recipients'' Cascade],
       tb_uniques = [[''provider_event_id'']],
       tb_indexes = [ix ''ix_email_events_campaign_recipient_id'' [''campaign_recipient_id''] False,
         ix ''ix_email_events_status'' [''status''] False]\<rparr>"

definition app_settings_table :: table_def where
  "app_settings_table = \<lparr>tb_name = ''app_settings'', tb_primary = ''key'', tb_columns = [
         col ''key'' (StringT 100) False,
         col ''value'' JsonT True,
         col ''updated_at'' DateTimeT False],
       tb_foreign = [],
       tb_uniques = [],
       tb_indexes = []\<rparr>"

definition api_keys_table :: table_def where
  "api_keys_table = \<lparr>tb_name = ''api_keys'', tb_primary = ''id'', tb_columns = [
         col ''id'' IntegerT False,
         col ''name'' (StringT 200) False,
         col ''key_hash'' (StringT 255) False,
         col ''is_active'' BooleanT False,
         col ''created_at'' DateTimeT False,
         col ''last_used_at'' DateTimeT True],
       tb_foreign = [],
       tb_uniques = [],
       tb_indexes = [ix ''ix_api_keys_key_hash'' [''key_hash''] True]\<rparr>"

definition campaign_lists_table :: table_def where
  "campaign_lists_table = \<lparr>tb_name = ''campaign_lists'', tb_primary = ''id'', tb_columns = [
         col ''id'' IntegerT False,
         col ''campaign_id'' IntegerT False,
         col ''list_id'' IntegerT False,
         col ''created_at'' DateTimeT False],
       tb_foreign = [fk ''campaign_id'' ''campaigns'' Cascade, fk ''list_id'' ''contact_lists'' Cascade],
       tb_uniques = [[''campaign_id'', ''list_id'']],
       tb_indexes = [ix ''ix_campaign_lists_campaign_id'' [''campaign_id''] False,
         ix ''ix_campaign_lists_list_id'' [''list_id''] False]\<rparr>"

definition planner_placements_table :: table_def where
  "planner_placements_table = \<lparr>tb_name = ''planner_placements'', tb_primary = ''id'', tb_columns = [
         col ''id'' IntegerT False,
         col ''campaign_id'' IntegerT False,
         col ''week'' IntegerT False,
         col ''weekday'' IntegerT False,
         col ''created_at'' DateTimeT False],
       tb_foreign = [fk ''campaign_id'' ''campaigns'' Cascade],
       tb_uniques = [[''campaign_id'', ''week'', ''weekday'']],
       tb_indexes = [ix ''ix_planner_placements_campaign_id'' [''campaign_id''] False,
         ix ''ix_placement_cell'' [''week'', ''weekday''] False]\<rparr>"

definition campaign_contact_sends_table :: table_def where
  "campaign_contact_sends_table = \<lparr>tb_name = ''campaign_contact_sends'', tb_primary = ''id'', tb_columns = [
         col ''id'' IntegerT False,
         col ''campaign_id'' IntegerT False,
         col ''contact_id'' IntegerT False,
         col ''last_sent_at'' DateTimeT False],
       tb_foreign = [fk ''campaign_id'' ''campaigns'' Cascade, fk ''contact_id'' ''contacts'' Cascade],
       tb_uniques = [[''campaign_id'', ''contact_id'']],
       tb_indexes = [ix ''ix_campaign_contact_sends_campaign_id'' [''campaign_id''] False,
         ix ''ix_campaign_contact_sends_contact_id'' [''contact_id''] False]\<rparr>"

definition ip_warm_states_table :: table_def where
  "ip_warm_states_table = \<lparr>tb_name = ''ip_warm_states'', tb_primary = ''id'', tb_columns = [
         col ''id'' IntegerT False,
         col ''ip'' (StringT 64) False,
         col ''pool'' (StringT 100) True,
         col ''warmed_since'' DateTimeT False,
         col ''is_active'' BooleanT False,
         col ''created_at'' DateTimeT False],
       tb_foreign = [],
       tb_uniques = [[''ip'']],
       tb_indexes = []\<rparr>"

definition metadata :: "table_def list" where
  "metadata = [
     users_table, contact_lists_table, contacts_table, suppressions_table, templates_table, campaigns_table,
     campaign_recipients_table, email_events_table, app_settings_table, api_keys_table, campaign_lists_table,
     planner_placements_table, campaign_contact_sends_table, ip_warm_states_table]"

section \<open>Migrations\<close>

datatype migration_op =
    CreateTable table_def
  | DropTable string
  | CreateIndex string index_def
  | DropIndex string string
  | AddColumn string column bool
  | DropColumn string string
  | AddForeignKey string foreign_key
  | DropForeignKey string string
  | CopyLegacyLists

definition upgrade_0001 :: "migration_op list" where
  "upgrade_0001 = [
     CreateTable \<lparr>tb_name = ''api_keys'', tb_primary = ''id'', tb_columns = [
         col ''id'' IntegerT False,
         col ''name'' (StringT 200) False,
         col ''key_hash'' (StringT 255) False,
         col ''is_active'' BooleanT False,
         col ''created_at'' DateTimeT False,
         col ''last_used_at'' DateTimeT True],
       tb_foreign = [],
       tb_uniques = [], tb_indexes = []\<rparr>,
     CreateIndex ''api_keys'' (ix ''ix_api_keys_key_hash'' [''key_hash''] True),
     CreateTable \<lparr>tb_name = ''app_settings'', tb_primary = ''key'', tb_columns = [
         col ''key'' (StringT 100) False,
         col ''value'' JsonT True,
         col ''updated_at'' DateTimeT False],
       tb_foreign = [],
       tb_uniques = [], tb_indexes = []\<rparr>,
     CreateTable \<lparr>tb_name = ''suppressions'', tb_primary = ''id'', tb_columns = [
         col ''id'' IntegerT False,
         col ''email'' (StringT 320) False,
         col ''reason'' (StringT 20) False,
         col ''detail'' TextT True,
         col ''created_at'' DateTimeT False],
       tb_foreign = [],
       tb_uniques = [], tb_indexes = []\<rparr>,
     CreateIndex ''suppressions'' (ix ''ix_suppressions_email'' [''email''] True),
     CreateTable \<lparr>tb_name = ''templates'', tb_primary = ''id'', tb_columns = [
         col ''id'' IntegerT False,
         col ''name'' (StringT 200) False,
         col ''type'' (StringT 10) False,
         col ''subject_default'' (StringT 500) True,
         col ''body'' TextT False,
         col ''created_at'' DateTimeT False,
         col ''updated_at'' DateTimeT False],
       tb_foreign = [],
       tb_uniques = [], tb_indexes = []\<rparr>,
     CreateTable \<lparr>tb_name = ''users'', tb_primary = ''id'', tb_columns = [
         col ''id'' IntegerT False,
         col ''email'' (StringT 320) False,
         col ''password_hash'' (StringT 255) False,
         col ''role'' (StringT 20) False,
         col ''must_change_password'' BooleanT False,
         col ''is_active'' BooleanT False,
         col ''created_at'' DateTimeT False],
       tb_foreign = [],
       tb_uniques = [], tb_indexes = []\<rparr>,
     CreateIndex ''users'' (ix ''ix_users_email'' [''email''] True),
     CreateTable \<lparr>tb_name = ''contact_lists'', tb_primary = ''id'', tb_columns = [
         col ''id'' IntegerT False,
         col ''name'' (StringT 200) False,
         col ''description'' TextT True,
         col ''source_filename'' (StringT 500) True,
         col ''uploaded_at'' DateTimeT False,
         col ''created_by'' IntegerT True,
         col ''contact_count'' IntegerT False,
         col ''verification_status'' (StringT 30) False,
         col ''verification_summary'' JsonT True,
         col ''import_summary'' JsonT True,
         col ''free_provider_filter_applied'' BooleanT False,
         col ''created_at'' DateTimeT False],
       tb_foreign = [fk ''created_by'' ''users'' SetNull],
       tb_uniques = [], tb_indexes = []\<rparr>,
     CreateTable \<lparr>tb_name = ''campaigns'', tb_primary = ''id'', tb_columns = [
         col ''id'' IntegerT False,
         col ''name'' (StringT 200) False,
         col ''subject'' (StringT 500) False,
         col ''from_name'' (StringT 200) False,
         col ''from_email'' (StringT 320) False,
         col ''template_id'' IntegerT True,
         col ''list_id'' IntegerT True,
         col ''scheduled_at'' DateTimeT True,
         col ''status'' (StringT 20) False,
         col ''ip_pool'' (StringT 100) True,
         col ''total_recipients'' IntegerT False,
         col ''queued_count'' IntegerT False,
         col ''sent_count'' IntegerT False,
         col ''delivered_count'' IntegerT False,
         col ''bounced_count'' IntegerT False,
         col ''failed_count'' IntegerT False,
         col ''skipped_count'' IntegerT False,
         col ''created_at'' DateTimeT False,
         col ''updated_at'' DateTimeT False],
       tb_foreign = [fk ''list_id'' ''contact_lists'' Restrict, fk ''template_id'' ''templates'' Restrict],
       tb_uniques = [], tb_indexes = []\<rparr>,
     CreateIndex ''campaigns'' (ix ''ix_campaigns_status'' [''status''] False),
     CreateTable \<lparr>tb_name = ''contacts'', tb_primary = ''id'', tb_columns = [
         col ''id'' IntegerT False,
         col ''email'' (StringT 320) False,
         col ''first_name'' (StringT 200) True,
         col ''last_name'' (StringT 200) True,
         col ''custom_fields'' JsonT False,
         col ''status'' (StringT 20) False,
         col ''verification_result'' (StringT 20) False,
         col ''list_id'' IntegerT True,
         col ''created_at'' DateTimeT False,
         col ''updated_at'' DateTimeT False],
       tb_foreign = [fk ''list_id'' ''contact_lists'' Cascade],
       tb_uniques = [], tb_indexes = []\<rparr>,
     CreateIndex ''contacts'' (ix ''ix_contacts_email'' [''email''] True),
     CreateIndex ''contacts'' (ix ''ix_contacts_list_id'' [''list_id''] False),
     CreateIndex ''contacts'' (ix ''ix_contacts_list_status'' [''list_id'', ''status''] False),
     CreateIndex ''contacts'' (ix ''ix_contacts_status'' [''status''] False),
     CreateTable \<lparr>tb_name = ''campaign_recipients'', tb_primary = ''id'', tb_columns = [
         col ''id'' IntegerT False,
         col ''campaign_id'' IntegerT False,
         col ''contact_id'' IntegerT True,
         col ''email_snapshot'' (StringT 320) False,
         col ''merge_snapshot'' JsonT False,
         col ''status'' (StringT 20) False,
         col ''postal_message_id'' (StringT 255) True,
         col ''ip_pool'' (StringT 100) True,
         col ''last_event_at'' DateTimeT True,
         col ''error_detail'' TextT True,
         col ''created_at'' DateTimeT False,
         col ''updated_at'' DateTimeT False],
       tb_foreign = [fk ''campaign_id'' ''campaigns'' Cascade, fk ''contact_id'' ''contacts'' SetNull],
       tb_uniques = [[''campaign_id'', ''contact_id'']], tb_indexes = []\<rparr>,
     CreateIndex ''campaign_recipients'' (ix ''ix_campaign_recipients_campaign_id'' [''campaign_id''] False),
     CreateIndex ''campaign_recipients'' (ix ''ix_campaign_recipients_postal_message_id'' [''postal_message_id''] False),
     CreateIndex ''campaign_recipients'' (ix ''ix_campaign_recipients_status'' [''status''] False),
     CreateIndex ''campaign_recipients'' (ix ''ix_recipient_campaign_status'' [''campaign_id'', ''status''] False),
     CreateTable \<lparr>tb_name = ''email_events'', tb_primary = ''id'', tb_columns = [
         col ''id'' IntegerT False,
         col ''campaign_recipient_id'' IntegerT False,
         col ''type'' (StringT 50) False,
         col ''provider_event_id'' (StringT 255) True,
         col ''raw_payload'' JsonT False,
         col ''occurred_at'' DateTimeT False,
         col ''created_at'' DateTimeT False],
       tb_foreign = [fk ''campaign_recipient_id'' ''campaign_recipients'' Cascade],
       tb_uniques = [[''provider_event_id'']], tb_indexes = []\<rparr>,
     CreateIndex ''email_events'' (ix ''ix_email_events_campaign_recipient_id'' [''campaign_recipient_id''] False)]"

definition downgrade_0001 :: "migration_op list" where
  "downgrade_0001 = [
     DropIndex ''email_events'' ''ix_email_events_campaign_recipient_id'',
     DropTable ''email_events'',
     DropIndex ''campaign_recipients'' ''ix_recipient_campaign_status'',
     DropIndex ''campaign_recipients'' ''ix_campaign_recipients_status'',
     DropIndex ''campaign_recipients'' ''ix_campaign_recipients_postal_message_id'',
     DropIndex ''campaign_recipients'' ''ix_campaign_recipients_campaign_id'',
     DropTable ''campaign_recipients'',
     DropIndex ''contacts'' ''ix_contacts_status'',
     DropIndex ''contacts'' ''ix_contacts_list_status'',
     DropIndex ''contacts'' ''ix_contacts_list_id'',
     DropIndex ''contacts'' ''ix_contacts_email'',
     DropTable ''contacts'',
     DropIndex ''campaigns'' ''ix_campaigns_status'',
     DropTable ''campaigns'',
     DropTable ''contact_lists'',
     DropIndex ''users'' ''ix_users_email'',
     DropTable ''users'',
     DropTable ''templates'',
     DropIndex ''suppressions'' ''ix_suppressions_email'',
     DropTable ''suppressions'',
     DropTable ''app_settings'',
     DropIndex ''api_keys'' ''ix_api_keys_key_hash'',
     DropTable ''api_keys'']"

definition upgrade_0002 :: "migration_op list" where
  "upgrade_0002 = [
     AddColumn ''campaigns'' (col ''reply_to'' (StringT 320) True) False]"

definition downgrade_0002 :: "migration_op list" where
  "downgrade_0002 = [
     DropColumn ''campaigns'' ''reply_to'']"

definition upgrade_0003 :: "migration_op list" where
  "upgrade_0003 = [
     CreateTable \<lparr>tb_name = ''ip_warm_states'', tb_primary = ''id'', tb_columns = [
         col ''id'' IntegerT False,
         col ''ip'' (StringT 64) False,
         col ''pool'' (StringT 100) True,
         col ''warmed_since'' DateTimeT False,
         col ''is_active'' BooleanT False,
         col ''created_at'' DateTimeT False],
       tb_foreign = [],
       tb_uniques = [[''ip'']], tb_indexes = []\<rparr>,
     CreateTable \<lparr>tb_name = ''campaign_contact_sends'', tb_primary = ''id'', tb_columns = [
         col ''id'' IntegerT False,
         col ''campaign_id'' IntegerT False,
         col ''contact_id'' IntegerT False,
         col ''last_sent_at'' DateTimeT False],
       tb_foreign = [fk ''campaign_id'' ''campaigns'' Cascade, fk ''contact_id'' ''contacts'' Cascade],
       tb_uniques = [[''campaign_id'', ''contact_id'']], tb_indexes = []\<rparr>,
     CreateIndex ''campaign_contact_sends'' (ix ''ix_campaign_contact_sends_campaign_id'' [''campaign_id''] False),
     CreateIndex ''campaign_contact_sends'' (ix ''ix_campaign_contact_sends_contact_id'' [''contact_id''] False),
     CreateTable \<lparr>tb_name = ''campaign_lists'', tb_primary = ''id'', tb_columns = [
         col ''id'' IntegerT False,
         col ''campaign_id'' IntegerT False,
         col ''list_id'' IntegerT False,
         col ''created_at'' DateTimeT False],
       tb_foreign = [fk ''campaign_id'' ''campaigns'' Cascade, fk ''list_id'' ''contact_lists'' Cascade],
       tb_uniques = [[''campaign_id'', ''list_id'']], tb_indexes = []\<rparr>,
     CreateIndex ''campaign_lists'' (ix ''ix_campaign_lists_campaign_id'' [''campaign_id''] False),
     CreateIndex ''campaign_lists'' (ix ''ix_campaign_lists_list_id'' [''list_id''] False),
     CopyLegacyLists,
     CreateTable \<lparr>tb_name = ''planner_placements'', tb_primary = ''id'', tb_columns = [
         col ''id'' IntegerT False,
         col ''campaign_id'' IntegerT False,
         col ''week'' IntegerT False,
         col ''weekday'' IntegerT False,
         col ''created_at'' DateTimeT False],
       tb_foreign = [fk ''campaign_id'' ''campaigns'' Cascade],
       tb_uniques = [[''campaign_id'', ''week'', ''weekday'']], tb_indexes = []\<rparr>,
     CreateIndex ''planner_placements'' (ix ''ix_placement_cell'' [''week'', ''weekday''] False),
     CreateIndex ''planner_placements'' (ix ''ix_planner_placements_campaign_id'' [''campaign_id''] False),
     AddColumn ''campaigns'' (col ''send_time'' (StringT 5) True) False,
     AddColumn ''campaigns'' (col ''send_timezone'' (StringT 64) True) False,
     AddColumn ''campaigns'' (col ''is_planner'' BooleanT False) True,
     AddColumn ''campaigns'' (col ''parent_campaign_id'' IntegerT True) False,
     CreateIndex ''campaigns'' (ix ''ix_campaigns_is_planner'' [''is_planner''] False),
     CreateIndex ''campaigns'' (ix ''ix_campaigns_parent_campaign_id'' [''parent_campaign_id''] False),
     AddForeignKey ''campaigns'' ((fk ''parent_campaign_id'' ''campaigns'' SetNull)\<lparr>fk_name := Some ''fk_campaigns_parent_campaign''\<rparr>),
     AddColumn ''email_events'' (col ''status'' (StringT 30) True) False,
     CreateIndex ''email_events'' (ix ''ix_email_events_status'' [''status''] False)]"

definition downgrade_0003 :: "migration_op list" where
  "downgrade_0003 = [
     DropIndex ''email_events'' ''ix_email_events_status'',
     DropColumn ''email_events'' ''status'',
     DropForeignKey ''campaigns'' ''fk_campaigns_parent_campaign'',
     DropIndex ''campaigns'' ''ix_campaigns_parent_campaign_id'',
     DropIndex ''campaigns'' ''ix_campaigns_is_planner'',
     DropColumn ''campaigns'' ''parent_campaign_id'',
     DropColumn ''campaigns'' ''is_planner'',
     DropColumn ''campaigns'' ''send_timezone'',
     DropColumn ''campaigns'' ''send_time'',
     DropIndex ''planner_placements'' ''ix_planner_placements_campaign_id'',
     DropIndex ''planner_placements'' ''ix_placement_cell'',
     DropTable ''planner_placements'',
     DropIndex ''campaign_lists'' ''ix_campaign_lists_list_id'',
     DropIndex ''campaign_lists'' ''ix_campaign_lists_campaign_id'',
     DropTable ''campaign_lists'',
     DropIndex ''campaign_contact_sends'' ''ix_campaign_contact_sends_contact_id'',
     DropIndex ''campaign_contact_sends'' ''ix_campaign_contact_sends_campaign_id'',
     DropTable ''campaign_contact_sends'',
     DropTable ''ip_warm_states'']"

section \<open>Running migrations\<close>

definition has_table :: "table_def list \<Rightarrow> string \<Rightarrow> bool" where
  "has_table s n = (row_by tb_name n s \<noteq> None)"

definition has_column :: "table_def \<Rightarrow> string \<Rightarrow> bool" where
  "has_column t c = (row_by cl_column c (tb_columns t) \<noteq> None)"

definition change_table ::
  "string \<Rightarrow> (table_def \<Rightarrow> bool) \<Rightarrow> (table_def \<Rightarrow> table_def) \<Rightarrow> table_def list \<Rightarrow> table_def list option" where
  "change_table n ok f s =
     (case row_by tb_name n s of
        None \<Rightarrow> None | Some t \<Rightarrow> if ok t then Some (upd_by tb_name n f s) else None)"

fun apply_op :: "migration_op \<Rightarrow> table_def list \<Rightarrow> table_def list option" where
  "apply_op (CreateTable t) s =
     (if has_table s (tb_name t) \<or> list_ex (\<lambda>f. \<not> has_table s (fk_table f)) (tb_foreign t) then None
      else Some (s @ [t]))"
| "apply_op (DropTable n) s =
     (if \<not> has_table s n \<or> list_ex (\<lambda>t. tb_name t \<noteq> n \<and> list_ex (\<lambda>f. fk_table f = n) (tb_foreign t)) s then None
      else Some (del_by tb_name n s))"
| "apply_op (CreateIndex n i) s =
     (if list_ex (\<lambda>t. list_ex (\<lambda>j. ix_name j = ix_name i) (tb_indexes t)) s then None
      else change_table n (\<lambda>t. list_all (has_column t) (ix_columns i)) (\<lambda>t. t\<lparr>tb_indexes := tb_indexes t @ [i]\<rparr>) s)"
| "apply_op (DropIndex n i) s =
     change_table n (\<lambda>t. list_ex (\<lambda>j. ix_name j = i) (tb_indexes t))
       (\<lambda>t. t\<lparr>tb_indexes := del_by ix_name i (tb_indexes t)\<rparr>) s"
| "apply_op (AddColumn n c default_given) s =
     change_table n (\<lambda>t. \<not> has_column t (cl_column c) \<and> (cl_nullable c \<or> default_given))
       (\<lambda>t. t\<lparr>tb_columns := tb_columns t @ [c]\<rparr>) s"
| "apply_op (DropColumn n c) s =
     change_table n (\<lambda>t. has_column t c)
       (\<lambda>t. t\<lparr>tb_columns := del_by cl_column c (tb_columns t),
             tb_indexes := filter (\<lambda>i. c \<notin> set (ix_columns i)) (tb_indexes t),
             tb_foreign := del_by fk_column c (tb_foreign t)\<rparr>) s"
| "apply_op (AddForeignKey n f) s =
     (if \<not> has_table s (fk_table f) then None
      else change_table n (\<lambda>t. has_column t (fk_column f)) (\<lambda>t. t\<lparr>tb_foreign := tb_foreign t @ [f]\<rparr>) s)"
| "apply_op (DropForeignKey n f) s =
     change_table n (\<lambda>t. list_ex (\<lambda>g. fk_name g = Some f) (tb_foreign t))
       (\<lambda>t. t\<lparr>tb_foreign := filter (\<lambda>g. fk_name g \<noteq> Some f) (tb_foreign t)\<rparr>) s"
| "apply_op CopyLegacyLists s = (if has_table s ''campaigns'' \<and> has_table s ''campaign_lists'' then Some s else None)"

fun run_ops :: "migration_op list \<Rightarrow> table_def list \<Rightarrow> table_def list option" where
  "run_ops [] s = Some s"
| "run_ops (p # ps) s = (case apply_op p s of None \<Rightarrow> None | Some s' \<Rightarrow> run_ops ps s')"

text \<open>The rows the data migration of \<open>0003_planner\<close> inserts.\<close>

definition copy_legacy_lists :: "db \<Rightarrow> db" where
  "copy_legacy_lists d =
     fold (\<lambda>c d. case c_list_id c of
              None \<Rightarrow> d
            | Some l \<Rightarrow> bump_seq TCampaignLists (d\<lparr>campaign_lists := campaign_lists d @
                [\<lparr>cl_id = next_id TCampaignLists d, cl_campaign_id = c_id c, cl_list_id = l\<rparr>]\<rparr>))
       (campaigns d) d"

section \<open>Comparing schemas\<close>

definition same_elements :: "'a list \<Rightarrow> 'a list \<Rightarrow> bool" where
  "same_elements xs ys \<longleftrightarrow> list_all (\<lambda>x. x \<in> set ys) xs \<and> list_all (\<lambda>y. y \<in> set xs) ys \<and> length xs = length ys"

definition unnamed :: "foreign_key \<Rightarrow> foreign_key" where
  "unnamed f = f\<lparr>fk_name := None\<rparr>"

definition same_table :: "table_def \<Rightarrow> table_def \<Rightarrow> bool" where
  "same_table t t' \<longleftrightarrow>
     tb_name t = tb_name t' \<and> tb_primary t = tb_primary t' \<and>
     same_elements (tb_columns t) (tb_columns t') \<and>
     same_elements (map unnamed (tb_foreign t)) (map unnamed (tb_foreign t')) \<and>
     same_elements (tb_uniques t) (tb_uniques t') \<and> same_elements (tb_indexes t) (tb_indexes t')"

definition same_schema :: "table_def list \<Rightarrow> table_def list \<Rightarrow> bool" where
  "same_schema s s' \<longleftrightarrow> length s = length s' \<and>
     list_all (\<lambda>t. case row_by tb_name (tb_name t) s' of None \<Rightarrow> False | Some t' \<Rightarrow> same_table t t') s"

section \<open>Lemmas\<close>

lemma copy_step:
  "campaigns (fold (\<lambda>c d. case c_list_id c of
              None \<Rightarrow> d
            | Some l \<Rightarrow> bump_seq TCampaignLists (d\<lparr>campaign_lists := campaign_lists d @
                [\<lparr>cl_id = next_id TCampaignLists d, cl_campaign_id = c_id c, cl_list_id = l\<rparr>]\<rparr>)) cs d) = campaigns d \<and>
   get_campaign_list_ids (fold (\<lambda>c d. case c_list_id c of
              None \<Rightarrow> d
            | Some l \<Rightarrow> bump_seq TCampaignLists (d\<lparr>campaign_lists := campaign_lists d @
                [\<lparr>cl_id = next_id TCampaignLists d, cl_campaign_id = c_id c, cl_list_id = l\<rparr>]\<rparr>)) cs d) i =
     get_campaign_list_ids d i @ List.map_filter (\<lambda>c. if c_id c = i then c_list_id c else None) cs"
  by (induction cs arbitrary: d)
     (auto simp: get_campaign_list_ids_def List.map_filter_simps split: option.split)

lemma map_filter_at:
  assumes "distinct (map c_id cs)"
  shows "List.map_filter (\<lambda>c. if c_id c = i then c_list_id c else None) cs =
     (case row_by c_id i cs of None \<Rightarrow> [] | Some c \<Rightarrow> (case c_list_id c of None \<Rightarrow> [] | Some l \<Rightarrow> [l]))"
proof -
  have none: "i \<notin> c_id ` set cs \<Longrightarrow> List.map_filter (\<lambda>c. if c_id c = i then c_list_id c else None) cs = []" for cs
    by (induction cs) (auto simp: List.map_filter_simps)
  show ?thesis
    using assms none by (induction cs) (auto simp: List.map_filter_simps split: option.split)
qed

section \<open>Properties\<close>

text \<open>
  C24: The migrations build the models: run from the empty database, every operation of the three
  revisions is accepted, and the result has the tables, columns, keys, references, unique
  constraints and indexes the models declare, and no others.
\<close>

theorem migrations_build_models:
  "\<exists>s. run_ops (upgrade_0001 @ upgrade_0002 @ upgrade_0003) [] = Some s \<and> same_schema s metadata"
proof -
  have "case run_ops (upgrade_0001 @ upgrade_0002 @ upgrade_0003) [] of None \<Rightarrow> False | Some s \<Rightarrow> same_schema s metadata"
    by code_simp
  then show ?thesis by (simp split: option.splits)
qed

text \<open>C25: Each downgrade undoes its upgrade exactly, down to the empty database.\<close>

theorem migrations_reversible:
  "\<exists>s1 s2 s3. run_ops upgrade_0001 [] = Some s1 \<and> run_ops upgrade_0002 s1 = Some s2 \<and> run_ops upgrade_0003 s2 = Some s3 \<and>
     run_ops downgrade_0003 s3 = Some s2 \<and> run_ops downgrade_0002 s2 = Some s1 \<and> run_ops downgrade_0001 s1 = Some []"
proof -
  have "case run_ops upgrade_0001 [] of None \<Rightarrow> False | Some s1 \<Rightarrow>
      (case run_ops upgrade_0002 s1 of None \<Rightarrow> False | Some s2 \<Rightarrow>
        (case run_ops upgrade_0003 s2 of None \<Rightarrow> False | Some s3 \<Rightarrow>
           run_ops downgrade_0003 s3 = Some s2 \<and> run_ops downgrade_0002 s2 = Some s1 \<and> run_ops downgrade_0001 s1 = Some []))"
    by code_simp
  then show ?thesis by (simp split: option.splits)
qed

text \<open>
  The data migration loses no list: every campaign that sent to its single list sends to exactly
  that list through the new join table.
\<close>

theorem legacy_lists_preserved:
  assumes "campaign_lists d = []" "distinct (map c_id (campaigns d))" "\<forall>c \<in> set (campaigns d). c_list_id c \<noteq> Some 0"
  shows "get_campaign_list_ids (copy_legacy_lists d) i = campaign_list_ids_sync d i \<and>
    campaign_list_ids_sync (copy_legacy_lists d) i = campaign_list_ids_sync d i"
proof -
  have same: "campaigns (copy_legacy_lists d) = campaigns d" by (simp add: copy_legacy_lists_def copy_step)
  have old: "get_campaign_list_ids d i = []" using assms(1) by (simp add: get_campaign_list_ids_def)
  have row: "c_list_id c \<noteq> Some 0" if "get_campaign_row i d = Some c" for c
    using that assms(3) by (auto simp: get_campaign_row_def dest!: row_by_SomeD)
  have ids: "get_campaign_list_ids (copy_legacy_lists d) i = campaign_list_ids_sync d i"
    using row by (auto simp: copy_legacy_lists_def copy_step old map_filter_at [OF assms(2)] campaign_list_ids_sync_def
        get_campaign_row_def split: option.split)
  have legacy: "campaign_list_ids_sync d i = (case get_campaign_row i d of None \<Rightarrow> []
      | Some c \<Rightarrow> (case c_list_id c of None \<Rightarrow> [] | Some l \<Rightarrow> if l \<noteq> 0 then [l] else []))"
    by (simp add: campaign_list_ids_sync_def old)
  have "get_campaign_row i (copy_legacy_lists d) = get_campaign_row i d" by (simp add: get_campaign_row_def same)
  then have "campaign_list_ids_sync (copy_legacy_lists d) i =
      (if campaign_list_ids_sync d i \<noteq> [] then campaign_list_ids_sync d i else campaign_list_ids_sync d i)"
    unfolding campaign_list_ids_sync_def [of "copy_legacy_lists d"] ids legacy by (simp add: Let_def)
  with ids show ?thesis by simp
qed

theorem legacy_lists_preserved_witness:
  "\<exists>d. campaign_list_ids_sync d 1 = [3] \<and> campaign_lists d = [] \<and> get_campaign_list_ids (copy_legacy_lists d) 1 = [3]"
proof -
  let ?c = "\<lparr>c_id = 1, c_name = [], c_subject = [], c_from_name = [], c_from_email = [], c_reply_to = None,
      c_template_id = None, c_list_id = Some 3, c_send_time = None, c_send_timezone = None,
      c_is_planner = False, c_parent_campaign_id = None, c_scheduled_at = None, c_status = Draft,
      c_ip_pool = None, c_total_recipients = 0, c_queued_count = 0, c_sent_count = 0,
      c_delivered_count = 0, c_bounced_count = 0, c_failed_count = 0, c_skipped_count = 0,
      c_created_at = 0\<rparr>"
  let ?d = "empty_db\<lparr>campaigns := [?c]\<rparr>"
  have old: "campaign_list_ids_sync ?d 1 = [3]" "campaign_lists ?d = []"
    by (simp_all add: campaign_list_ids_sync_def get_campaign_list_ids_def get_campaign_row_def empty_db_def)
  have "get_campaign_list_ids (copy_legacy_lists ?d) 1 = campaign_list_ids_sync ?d 1"
    using legacy_lists_preserved [of ?d 1] by (simp add: empty_db_def)
  with old show ?thesis by metis
qed

end
