(* ===== verification/Spec2Isabelle.thy ===== *)
theory Spec2Isabelle
  imports Merge Config_Store Warming Rate_Limit Bounce Templates Scheduler Drain Planner Lists Csv_Import Verification System Workers Sessions Auth Routes Schema
begin

text \<open>
  Verification library of the e-mail marketing service: a FastAPI application with a PostgreSQL
  database, Celery workers over Redis, and the Postal mail server as provider.

  THE PROGRAM.  A user logs in (\<open>app/web/auth.py\<close>), uploads contact lists (\<open>app/web/lists.py\<close>), which a
  task imports (\<open>app/services/csv_import.py\<close>) and another verifies (\<open>app/tasks/verification.py\<close>), writes
  templates, and schedules campaigns or places recurring ones on a four-week grid
  (\<open>app/services/campaigns.py\<close>, \<open>planner.py\<close>, \<open>planner_engine.py\<close>).  Periodic tasks dispatch what is due
  (\<open>app/tasks/scheduler.py\<close>); a campaign is materialized into one ledger row per recipient and sent row
  by row under token buckets, daily caps and warming limits (\<open>app/tasks/sending.py\<close>).  Webhooks of the
  provider report deliveries and failures (\<open>app/services/bounce.py\<close>); failures, complaints, unsubscribe
  links and users put addresses on the global suppression list (\<open>app/services/suppression.py\<close>), which
  every send consults.

  THE STATE.  \<open>Models.db\<close> is the committed database: a list of rows for each table, in insertion order,
  with the sequences of the primary keys.  \<open>Redis.redis\<close> is the store of locks, counters and buckets
  with their expiry.  \<open>Sending.world\<close> adds the task queue and the messages the provider accepted;
  \<open>Routes.site\<close> adds the session cookie of a request.  An operation of the code is a function from the
  state to its result and the new state; an exception is \<open>Inl\<close> of \<open>Prelude.exn\<close>, and a transaction that
  raises leaves the database as it was.

  THE THEORIES, from the bottom.
  \<^item> \<open>Prelude\<close>, \<open>Py_String\<close>, \<open>Calendar\<close>: identifiers, instants (microseconds since 1970 in UTC), JSON, tables
    as lists of rows and their simplification rules; the string and date operations of Python.
  \<^item> \<open>Models\<close> (\<open>app/models\<close>), \<open>Config\<close> (\<open>app/config.py\<close>), \<open>Normalize\<close>, \<open>Redis\<close>.
  \<^item> \<open>Schema\<close>: the tables as the models declare them and as \<open>migrations/versions\<close> builds them; that the
    migrations build the models, that each downgrade undoes its upgrade, and that the data migration
    loses no list.
  \<^item> \<open>Suppression\<close>: the list as an abstract set of addresses up to case and space (locale
    \<open>suppression_list\<close>, interpreted on both copies of the service).
  \<^item> \<open>Config_Store\<close>, \<open>Warming\<close>, \<open>Frequency\<close> (locale \<open>send_log\<close>), \<open>Rate_Limit\<close>: the policies of sending; the
    rate bound counts what the buckets granted between two instants.
  \<^item> \<open>Merge\<close>, \<open>Templates\<close>, \<open>Tokens\<close>: rendering cannot inject markup; a signed link works.
  \<^item> \<open>Postal\<close> (locale \<open>provider\<close>, interpreted on the HTTP client and on the mock), \<open>Webhook\<close>, \<open>Bounce\<close>: what
    an event changes, once, and which address it suppresses.
  \<^item> \<open>Campaign_Store\<close>, \<open>Campaigns\<close>, \<open>Planner_Engine\<close>, \<open>Planner\<close>, \<open>Lists\<close>: the services behind the forms.
  \<^item> \<open>Csv_Reader\<close>, \<open>Csv_Import\<close>: Python's reader, and the import against a row-by-row reference.
  \<^item> \<open>Verification\<close> (locale \<open>verifier\<close>): caches and batches are invisible in the verdicts.
  \<^item> \<open>Ledger\<close>, \<open>Sending\<close>, \<open>Scheduler\<close>: materialization, the send task on every branch, dispatch and
    recovery.  \<open>Drain\<close>: which results of the send task close a recipient, and that they run a campaign down.
  \<^item> \<open>Stats\<close>, \<open>Preflight\<close>: what the dashboard, the status API and the start-up checks report.
  \<^item> \<open>Auth\<close>: passwords, sessions, API keys, and the guard in front of the routes.
  \<^item> \<open>System\<close>: all of it as one step relation, \<open>sys_step\<close>, with the invariants every step keeps, the status
    graph of campaigns and a run from the empty system to a sent message.
  \<^item> \<open>Workers\<close>: the send task cut into its transactions and Redis commands, and any number of workers that
    interleave with each other, with the clock, with deaths and with \<open>sys_step\<close> (\<open>cluster_step\<close>).  What the
    lock gives to runs that respect it (\<open>prompt\<close>), what a suppression and the warming cap let through,
    and a run that does not respect the lock and mails a recipient twice.
  \<^item> \<open>Sessions\<close>: what the two kinds of session of \<open>app/db.py\<close> commit and roll back, which is how the other
    theories write a transaction (\<open>System.committed\<close>).
  \<^item> \<open>Routes\<close>: every page and form as a function on the site, the dispatch behind the guard, and the
    relation \<open>web_step\<close> of requests and tasks, which implements \<open>sys_step\<close> (locale \<open>implements\<close>).
  \<^item> This theory: the properties of the whole application, over all runs of \<open>web_step\<close>.

  STEPS.  A step is one request, one run of one task, or one webhook.  A task may run any number of
  times and at any time after it is due until it is acknowledged, and the periodic tasks, imports and
  verifications may run at any time, so redelivery, delay and reordering are covered.  Within a step
  the transactions of the code run one after the other.  Where the code meets a concurrent writer in
  the middle of a step, the writer is an argument: the lost race of a suppression insert, the clash of
  a watched Redis key, the reads and writes of the verification cache that fail, the commit of an
  import that fails, the worker that dies after the provider accepted a message
  (\<open>System.killed_worker_sends_twice\<close>).  The send task, the one that runs on several workers at once, is
  also modelled in small steps (\<open>Workers\<close>), with no condition on time or deaths; each property of
  concurrent workers names the runs it is about (\<open>one_worker_one_message\<close>: within the 180 seconds of the
  lock and without a death before the record; \<open>suppression_in_flight\<close>: all runs;
  \<open>warming_cap_overshoot\<close>: one day, without a death before the count).

  PARAMETERS.  Code that is not in the repository is an argument of the definitions that use it:
  \<open>email_validator\<close>, the resolver, the serializer of \<open>itsdangerous\<close>, HMAC and SHA-256, argon2, the HTTP
  exchange with Postal, \<open>markupsafe.escape\<close>, the time-zone database.  What is relied on is a named
  predicate (\<open>validator_wf\<close>, \<open>serializer_ok\<close>, \<open>hasher_ok\<close>, ...), assumed only where a theorem says so and
  shown to hold of a concrete function in its witness.

  BOUNDS.  The retries of \<open>Rate_Limit.acquire\<close> are counted down from the 25 of the source, after which
  it fails as the source does; an import takes batches of 1000 rows and a verification of
  \<open>verify_batch_size\<close>, by structural recursion on the rows; the theorems hold for every batch size the
  loops are given.  Every other recursion is structural or has a proved measure; \<open>Workers.run_phases\<close> is
  given nine steps, which is what the longest way through the send task takes.  Numbers
  are Python's unbounded integers; the floats of the buckets and rates are exact rationals.

  NOT MODELLED.  Text beyond Latin-1 (an em dash in a literal is written as its UTF-8 bytes); the limits
  of column widths; an unreachable database, and an unreachable Redis outside the verification cache; interleavings inside a step other than those named
  above and those of the send workers; the parsing of HTTP bodies by the framework, the rendering of templates and the signing of the
  cookie; logging; the configuration of Celery and of its periodic schedule, of Alembic and of the engines; MIME
  serialization beyond headers and parts; \<open>datetime.fromisoformat\<close>, whose result is an argument.
\<close>

section \<open>Properties of the whole application\<close>

text \<open>
  C14: Suppressing an address makes exactly the addresses that equal it up to case and outer
  white space suppressed, and leaves every other address as it was.
\<close>

theorem suppression_exact:
  "is_suppressed_sync (snd (suppress_sync None d e r det True)) e' \<longleftrightarrow>
     is_suppressed_sync d e' \<or> same_address e e'"
  using sync.suppress_iff [of d e "(r, det)" e'] by simp

text \<open>
  C1: Whatever sequence of HTTP requests, tasks, webhooks, imports, verifications and redeliveries
  the application goes through from the empty system, every recipient row gets at most one message,
  its recipient is then not pending, and every message carries the one-click unsubscribe headers for
  the address it went to.
\<close>

theorem at_most_one_message:
  assumes "(web_step S)\<^sup>*\<^sup>* initial_world w"
  shows "distinct (map fst (w_mail w)) \<and>
    (\<forall>(i, m) \<in> set (w_mail w).
       map_option cr_status (get_recipient_row i (w_db w)) \<noteq> Some RPending \<and>
       sm_headers m = [(''List-Unsubscribe'', ''<'' @ unsubscribe_url (e_dumps (y_env S)) (e_settings (y_env S)) (sm_to m) @ ''>''),
                       (''List-Unsubscribe-Post'', ''List-Unsubscribe=One-Click'')])"
  by (rule reachable_at_most_one [OF web_reachable [OF assms]])

theorem at_most_one_message_witness:
  "w_mail sent_world = [(1, send_message_of demo_env small_ctx)] \<and>
   map_option cr_status (get_recipient_row 1 (w_db sent_world)) \<noteq> Some RPending"
  using at_most_one_message [OF sys_run_web [OF reachable_run [OF sent_reachable]]] sent_mail by simp

text \<open>
  C2: Suppression is final: once an address is on the suppression list, whatever is requested and
  whatever tasks run from then on, no message goes to any spelling of that address, and it stays on
  the list.
\<close>

theorem suppression_is_final:
  assumes "is_suppressed_sync (w_db w) e" "normalize_email (Some e) \<noteq> None" "(web_step S)\<^sup>*\<^sup>* w w'"
  shows "\<exists>new. w_mail w' = w_mail w @ new \<and> (\<forall>(i, m) \<in> set new. \<not> same_address (sm_to m) e) \<and>
    is_suppressed_sync (w_db w') e"
  by (rule run_suppression_final [OF assms(1,2) web.runs [OF assms(3)]])

theorem suppression_is_final_witness:
  "\<exists>w2. web_step small_system (materialized_world\<lparr>w_db := insert_suppression ''a@x.com'' Manual None (w_db materialized_world)\<rparr>) w2 \<and>
     (\<forall>(i, m) \<in> set (w_mail w2). sm_to m \<noteq> ''a@x.com'')"
proof -
  let ?w = "materialized_world\<lparr>w_db := insert_suppression ''a@x.com'' Manual None (w_db materialized_world)\<rparr>"
  let ?w2 = "snd (send_one ((y_env small_system)\<lparr>e_submit := e_submit demo_env, e_clash := e_clash demo_env\<rparr>) 5 1 0 ?w)"
  have n: "normalize_email (Some ''a@x.com'') = Some ''a@x.com''" by code_simp
  then have supp: "is_suppressed_sync (w_db ?w) ''a@x.com''" by (simp add: is_suppressed_sync_iff)
  have "(5, SendTask 1 0) \<in> set (w_queue ?w)" by (simp add: materialized_queue)
  from Task [OF Send [OF this order_refl]] have step: "web_step small_system ?w ?w2" .
  have run: "(web_step small_system)\<^sup>*\<^sup>* ?w ?w2" using step by (rule r_into_rtranclp)
  from suppression_is_final [OF supp _ run] n
  obtain new where "w_mail ?w2 = w_mail ?w @ new" "\<forall>(i, m) \<in> set new. \<not> same_address (sm_to m) ''a@x.com''" by auto
  then have "\<forall>(i, m) \<in> set (w_mail ?w2). sm_to m \<noteq> ''a@x.com''" by (auto simp: materialized_rest same_address_def)
  with step show ?thesis by blast
qed

text \<open>
  C3: The unsubscribe link is honoured for good: after anyone posts the link that a message to an
  address carries, no run of the application sends anything to that address again.
\<close>

theorem unsubscribed_for_good:
  assumes "serializer_ok (e_dumps (y_env (wa_system W))) (y_loads (wa_system W))" "normalize_email (Some e) \<noteq> None"
    and "s = snd (serve W (Public (Post_Unsubscribe (make_unsubscribe_token (e_dumps (y_env (wa_system W))) e)))
                    \<lparr>si_session = cookie, si_db = w_db w, si_jobs = []\<rparr>)"
    and "(web_step (wa_system W))\<^sup>*\<^sup>* (w\<lparr>w_db := si_db s\<rparr>) w2"
  shows "\<exists>new. w_mail w2 = w_mail w @ new \<and> (\<forall>(i, m) \<in> set new. \<not> same_address (sm_to m) e)"
proof -
  from assms(2) obtain n where n: "normalize_email (Some e) = Some n" by blast
  let ?token = "make_unsubscribe_token (e_dumps (y_env (wa_system W))) e"
  have "si_db s = snd (unsubscribe (y_loads (wa_system W)) None ?token (w_db w))"
    by (simp add: assms(3) serve_open unsubscribe_route_def split: prod.split)
  then have "n \<in> suppressed_set (w_db (w\<lparr>w_db := si_db s\<rparr>))"
    using n by (simp add: unsubscribe_effect read_make_token [OF assms(1)])
  from run_never_mailed [OF web.runs [OF assms(4)] this] n show ?thesis by (auto simp: same_address_def)
qed

theorem unsubscribed_for_good_witness:
  "\<exists>w2. web_step small_system (materialized_world\<lparr>w_db := si_db (snd (serve demo_app
        (Public (Post_Unsubscribe (make_unsubscribe_token mark_dumps ''A@x.com'')))
        \<lparr>si_session = empty_session, si_db = w_db materialized_world, si_jobs = []\<rparr>))\<rparr>) w2 \<and>
     (\<forall>(i, m) \<in> set (w_mail w2). \<not> same_address (sm_to m) ''A@x.com'')"
proof -
  have env: "wa_system demo_app = small_system" "e_dumps (y_env small_system) = mark_dumps" "y_loads small_system = mark_loads"
    by (simp_all add: demo_app_def small_system_def demo_env_def)
  let ?s = "snd (serve demo_app (Public (Post_Unsubscribe (make_unsubscribe_token (e_dumps (y_env (wa_system demo_app))) ''A@x.com'')))
    \<lparr>si_session = empty_session, si_db = w_db materialized_world, si_jobs = []\<rparr>)"
  let ?w = "materialized_world\<lparr>w_db := si_db ?s\<rparr>"
  let ?w2 = "snd (send_one ((y_env small_system)\<lparr>e_submit := e_submit demo_env, e_clash := e_clash demo_env\<rparr>) 5 1 0 ?w)"
  have n: "normalize_email (Some ''A@x.com'') \<noteq> None" by code_simp
  have ok: "serializer_ok (e_dumps (y_env (wa_system demo_app))) (y_loads (wa_system demo_app))"
    by (simp add: env serializer_ok_def)
  have "(5, SendTask 1 0) \<in> set (w_queue ?w)" by (simp add: materialized_queue)
  from Task [OF Send [OF this order_refl]] have step: "web_step small_system ?w ?w2" .
  then have run: "(web_step (wa_system demo_app))\<^sup>*\<^sup>* ?w ?w2" unfolding env(1) by (rule r_into_rtranclp)
  from unsubscribed_for_good [OF ok n refl run] materialized_rest(2)
  have "\<forall>(i, m) \<in> set (w_mail ?w2). \<not> same_address (sm_to m) ''A@x.com''" by auto
  with step show ?thesis unfolding env by blast
qed

text \<open>
  C18: The tables stay well formed in every world the application can reach: the keys of the ledger
  rows are distinct, there is one canonical contact row for an address, and each placement is in the
  grid and unique.
\<close>

theorem tables_wellformed:
  assumes "(web_step S)\<^sup>*\<^sup>* initial_world w" "validator_wf (y_validator S)"
  shows "distinct (map cr_id (recipients (w_db w))) \<and> contacts_ok (w_db w) \<and> placements_ok (w_db w)"
  using reachable_tables [OF web_reachable [OF assms(1)] assms(2)] by (simp add: ids_ok_def placed_def)

theorem tables_wellformed_witness: "contacts_ok (w_db materialized_world) \<and> contacts (w_db materialized_world) \<noteq> []"
proof -
  have "validator_wf (y_validator small_system)"
    by (simp add: small_system_def validator_wf_def plain_validator_def)
  moreover have "contacts (w_db materialized_world) \<noteq> []" by code_simp
  ultimately show ?thesis
    using tables_wellformed [OF sys_run_web [OF reachable_run [OF materialized_reachable]]] by simp
qed

text \<open>
  C17: The application refines the status graph: in every step, a request included, a campaign that
  is there before and after keeps its status or moves along an edge of the users' graph, from
  scheduled to sending, or from sending to completed or failed.
\<close>

theorem campaign_lifecycle:
  assumes "web_step S w w'" "status_at i (w_db w) = Some s" "status_at i (w_db w') = Some s'"
  shows "user_edge s s' \<or> (s = Scheduled \<and> s' = Sending) \<or> (s = Sending \<and> s' \<in> {Completed, Failed})"
  by (rule step_lifecycle [OF web_graph [OF assms(1)] assms(2,3)])

text \<open>The send task of the run above completes its campaign.\<close>

theorem campaign_lifecycle_witness:
  "status_at 1 (w_db materialized_world) = Some Sending \<and>
   status_at 1 (w_db sent_world) \<in> insert None (Some ` {Sending, Scheduled, Paused, Cancelled, Completed, Failed})"
proof -
  have st: "status_at 1 (w_db materialized_world) = Some Sending" by code_simp
  have "s' \<in> {Sending, Scheduled, Paused, Cancelled, Completed, Failed}" if "status_at 1 (w_db sent_world) = Some s'" for s'
    using campaign_lifecycle [OF Task [OF sending_step] st that] by (cases s') simp_all
  with st show ?thesis by (cases "status_at 1 (w_db sent_world)") auto
qed

end
